theory Spec2Isabelle
  imports Complex_Main "HOL-Library.Multiset"
begin

section \<open>JavaScript numbers\<close>

text \<open>
  The classifier in \<^verbatim>\<open>src/utils/logisticRegression.ts\<close> computes on JavaScript
  numbers.  A number is modelled as a real, one of the two infinities, or NaN.
  Arithmetic on finite values is exact: rounding to a double and overflow of a finite
  result are not modelled, and the two zeros are one value.  Every divisor that can be
  zero in this program is a difference \<open>x - x\<close>, a sum of non-negative terms or an
  array length, which is \<open>+0\<close> in JavaScript, so a zero divisor acts as \<open>+0\<close>.
  Reading an array out of range gives \<^verbatim>\<open>undefined\<close>, which every arithmetic
  operator turns into NaN.  With exact finite arithmetic, addition is associative and
  commutative also on the infinities and NaN, so sums over numbers are written with
  \<open>\<Sum>\<close>.
\<close>

datatype number = is_Fin: Fin (the_real: real) | PInf | NInf | NaN

instantiation number :: "{comm_monoid_add, uminus, minus, times, inverse, ord}"
begin

definition zero_number :: number where
  "zero_number = Fin 0"

fun plus_number :: "number \<Rightarrow> number \<Rightarrow> number" where
  "plus_number NaN y = NaN"
| "plus_number x NaN = NaN"
| "plus_number (Fin a) (Fin b) = Fin (a + b)"
| "plus_number PInf NInf = NaN"
| "plus_number NInf PInf = NaN"
| "plus_number PInf y = PInf"
| "plus_number x PInf = PInf"
| "plus_number NInf y = NInf"
| "plus_number x NInf = NInf"

fun uminus_number :: "number \<Rightarrow> number" where
  "uminus_number (Fin a) = Fin (- a)"
| "uminus_number PInf = NInf"
| "uminus_number NInf = PInf"
| "uminus_number NaN = NaN"

definition minus_number :: "number \<Rightarrow> number \<Rightarrow> number" where
  "minus_number x y = x + (- y)"

fun times_number :: "number \<Rightarrow> number \<Rightarrow> number" where
  "times_number NaN y = NaN"
| "times_number x NaN = NaN"
| "times_number (Fin a) (Fin b) = Fin (a * b)"
| "times_number (Fin a) PInf = (if a = 0 then NaN else if 0 < a then PInf else NInf)"
| "times_number (Fin a) NInf = (if a = 0 then NaN else if 0 < a then NInf else PInf)"
| "times_number PInf (Fin b) = (if b = 0 then NaN else if 0 < b then PInf else NInf)"
| "times_number NInf (Fin b) = (if b = 0 then NaN else if 0 < b then NInf else PInf)"
| "times_number PInf PInf = PInf"
| "times_number NInf NInf = PInf"
| "times_number PInf NInf = NInf"
| "times_number NInf PInf = NInf"

fun divide_number :: "number \<Rightarrow> number \<Rightarrow> number" where
  "divide_number NaN y = NaN"
| "divide_number x NaN = NaN"
| "divide_number (Fin a) (Fin b) =
     (if b \<noteq> 0 then Fin (a / b)
      else if a = 0 then NaN else if 0 < a then PInf else NInf)"
| "divide_number (Fin a) y = Fin 0"
| "divide_number PInf (Fin b) = (if 0 \<le> b then PInf else NInf)"
| "divide_number NInf (Fin b) = (if 0 \<le> b then NInf else PInf)"
| "divide_number x y = NaN"

definition inverse_number :: "number \<Rightarrow> number" where
  "inverse_number x = divide (Fin 1) x"

fun less_number :: "number \<Rightarrow> number \<Rightarrow> bool" where
  "less_number NaN y = False"
| "less_number x NaN = False"
| "less_number (Fin a) (Fin b) = (a < b)"
| "less_number x NInf = False"
| "less_number NInf y = True"
| "less_number PInf y = False"
| "less_number x PInf = True"

fun less_eq_number :: "number \<Rightarrow> number \<Rightarrow> bool" where
  "less_eq_number NaN y = False"
| "less_eq_number x NaN = False"
| "less_eq_number (Fin a) (Fin b) = (a \<le> b)"
| "less_eq_number NInf y = True"
| "less_eq_number x PInf = True"
| "less_eq_number x y = False"

lemma number_add_commute: "x + y = y + x" for x y :: number
  by (cases x; cases y; simp)

lemma number_add_assoc: "x + y + z = x + (y + z)" for x y z :: number
proof (cases x)
  case (Fin r)
  then show ?thesis by (cases y; cases z; simp)
next
  case PInf
  then show ?thesis by (cases y; cases z; simp)
next
  case NInf
  then show ?thesis by (cases y; cases z; simp)
next
  case NaN
  then show ?thesis by simp
qed

lemma number_zero_add: "0 + x = x" for x :: number
  unfolding zero_number_def by (cases x; simp)

instance
  by standard (rule number_add_assoc number_add_commute number_zero_add)+

end

text \<open>\<^verbatim>\<open>a === b\<close> on numbers: NaN equals nothing, not even itself.\<close>

definition strict_eq :: "number \<Rightarrow> number \<Rightarrow> bool" where
  "strict_eq a b = (a \<noteq> NaN \<and> b \<noteq> NaN \<and> a = b)"

text \<open>\<^verbatim>\<open>x || 0\<close>: the falsy numbers are zero and NaN.\<close>

definition or_zero :: "number \<Rightarrow> number" where
  "or_zero x = (if x = NaN \<or> x = Fin 0 then Fin 0 else x)"

fun Math_abs :: "number \<Rightarrow> number" where
  "Math_abs (Fin a) = Fin \<bar>a\<bar>"
| "Math_abs PInf = PInf"
| "Math_abs NInf = PInf"
| "Math_abs NaN = NaN"

fun Math_exp :: "number \<Rightarrow> number" where
  "Math_exp (Fin a) = Fin (exp a)"
| "Math_exp PInf = PInf"
| "Math_exp NInf = Fin 0"
| "Math_exp NaN = NaN"

fun Math_log :: "number \<Rightarrow> number" where
  "Math_log (Fin a) = (if a < 0 then NaN else if a = 0 then NInf else Fin (ln a))"
| "Math_log PInf = PInf"
| "Math_log NInf = NaN"
| "Math_log NaN = NaN"

text \<open>
  \<^verbatim>\<open>Math.max(...xs)\<close> and \<^verbatim>\<open>Math.min(...xs)\<close>: NaN as soon as one argument is
  NaN, and \<open>-Infinity\<close> resp. \<open>+Infinity\<close> without arguments.
\<close>

definition max2 :: "number \<Rightarrow> number \<Rightarrow> number" where
  "max2 a b = (if a = NaN \<or> b = NaN then NaN else if a < b then b else a)"

definition min2 :: "number \<Rightarrow> number \<Rightarrow> number" where
  "min2 a b = (if a = NaN \<or> b = NaN then NaN else if b < a then b else a)"

definition Math_max :: "number list \<Rightarrow> number" where
  "Math_max xs = fold (\<lambda>x acc. max2 acc x) xs NInf"

definition Math_min :: "number list \<Rightarrow> number" where
  "Math_min xs = fold (\<lambda>x acc. min2 acc x) xs PInf"

text \<open>\<^verbatim>\<open>xs[i]\<close> read in an arithmetic context.\<close>

definition nth_num :: "number list \<Rightarrow> nat \<Rightarrow> number" where
  "nth_num xs i = (if i < length xs then xs ! i else NaN)"

text \<open>\<^verbatim>\<open>xs.indexOf(v)\<close>: the first index whose element is \<open>===\<close> to \<open>v\<close>, else -1.\<close>

fun indexOf_from :: "int \<Rightarrow> number list \<Rightarrow> number \<Rightarrow> int" where
  "indexOf_from k [] v = - 1"
| "indexOf_from k (x # xs) v = (if strict_eq x v then k else indexOf_from (k + 1) xs v)"

definition indexOf :: "number list \<Rightarrow> number \<Rightarrow> int" where
  "indexOf xs v = indexOf_from 0 xs v"

text \<open>\<^verbatim>\<open>xs.map((x, i) => f(x, i))\<close> and \<^verbatim>\<open>xs.reduce((acc, x, i) => f(acc, x, i), init)\<close>.\<close>

definition mapi :: "('a \<Rightarrow> nat \<Rightarrow> 'b) \<Rightarrow> 'a list \<Rightarrow> 'b list" where
  "mapi f xs = map (\<lambda>(i, x). f x i) (enumerate 0 xs)"

definition reducei :: "('b \<Rightarrow> 'a \<Rightarrow> nat \<Rightarrow> 'b) \<Rightarrow> 'a list \<Rightarrow> 'b \<Rightarrow> 'b" where
  "reducei f xs init = fold (\<lambda>(i, x) acc. f acc x i) (enumerate 0 xs) init"

text \<open>
  \<^verbatim>\<open>xs.sort(cmp)\<close>: a stable sort that puts \<open>b\<close> before \<open>a\<close> when \<open>cmp(a, b) > 0\<close>.
  Where the comparator returns NaN the order is left to the implementation by the
  language; the model then keeps the elements in insertion order.
\<close>

fun insert_sorted :: "('a \<Rightarrow> 'a \<Rightarrow> number) \<Rightarrow> 'a \<Rightarrow> 'a list \<Rightarrow> 'a list" where
  "insert_sorted cmp x [] = [x]"
| "insert_sorted cmp x (y # ys) =
     (if Fin 0 < cmp x y then y # insert_sorted cmp x ys else x # y # ys)"

definition array_sort :: "('a \<Rightarrow> 'a \<Rightarrow> number) \<Rightarrow> 'a list \<Rightarrow> 'a list" where
  "array_sort cmp xs = foldr (insert_sorted cmp) xs []"

section \<open>Data model (\<^verbatim>\<open>types.ts\<close>)\<close>

datatype error = TypeError

record SmogLevel =
  level :: string
  smogValue :: int  \<comment> \<open>\<^verbatim>\<open>value: number; // 0-5 for logistic regression\<close>\<close>
  color :: string
  description :: string

record PredictionInput =
  pm25 :: number
  temperature :: number
  humidity :: number
  windSpeed :: number
  visibility :: number
  pressure :: number

text \<open>
  \<^verbatim>\<open>AirQualityData\<close> has the six readings of a \<^verbatim>\<open>PredictionInput\<close> and more, so
  it is the record extension; the \<^verbatim>\<open>timestamp\<close> is milliseconds since the epoch.
  The fields \<^verbatim>\<open>id\<close> and \<^verbatim>\<open>value\<close> are \<open>ident\<close> and \<open>smogValue\<close> here.  The class
  label \<^verbatim>\<open>smogLevel.value\<close> is an integer: the generator only produces 0 to 5.
\<close>

record AirQualityData = PredictionInput +
  ident :: string
  timestamp :: int
  city :: string
  pm10 :: number
  smogLevel :: SmogLevel
  aqi :: number

record LogisticRegressionModel =
  weights :: "number list"
  bias :: number
  trained :: bool

record roc_point =
  fpr :: number
  tpr :: number

record ModelMetrics =
  accuracy :: number
  precision :: number
  recall :: number
  f1Score :: number
  confusionMatrix :: "nat list list"
  rocCurve :: "roc_point list"

record prediction_result =
  prediction :: int
  probabilities :: "number list"
  confidence :: number

record feature_importance =
  feature :: string
  importance :: number

text \<open>The private fields of class \<^verbatim>\<open>MultiClassLogisticRegression\<close>.\<close>

record MultiClassLogisticRegression =
  models :: "LogisticRegressionModel list"
  numClasses :: nat
  featureMins :: "number list"
  featureMaxs :: "number list"
  featureNames :: "string list"

definition new_MultiClassLogisticRegression :: MultiClassLogisticRegression where
  "new_MultiClassLogisticRegression =
     \<lparr>models = [], numClasses = 6, featureMins = [], featureMaxs = [],
      featureNames = [''PM2.5'', ''Temperature'', ''Humidity'', ''Wind Speed'',
                      ''Visibility'', ''Pressure'']\<rparr>"

section \<open>Feature extraction and normalisation\<close>

text \<open>
  The array \<^verbatim>\<open>[d.pm25, d.temperature, d.humidity, d.windSpeed, d.visibility, d.pressure]\<close>,
  built from a record by \<^verbatim>\<open>extractFeatures\<close> and from an input by \<^verbatim>\<open>predict\<close>.
\<close>

definition readings :: "'a PredictionInput_scheme \<Rightarrow> number list" where
  "readings d = [pm25 d, temperature d, humidity d, windSpeed d, visibility d, pressure d]"

definition sigmoid :: "number \<Rightarrow> number" where
  "sigmoid z = Fin 1 / (Fin 1 + Math_exp (- Math_max [Fin (- 500), Math_min [Fin 500, z]]))"

definition normalizeFeatures ::
  "number list list \<Rightarrow> number list \<Rightarrow> number list \<Rightarrow> number list list" where
  "normalizeFeatures data mins maxs =
     map (\<lambda>row. mapi (\<lambda>v i. (v - nth_num mins i) / (nth_num maxs i - nth_num mins i)) row)
       data"

text \<open>
  \<^verbatim>\<open>features[0].map\<close> is a property read on \<^verbatim>\<open>undefined\<close> when there is no
  record: a TypeError.
\<close>

definition extractFeatures ::
  "AirQualityData list \<Rightarrow>
     error + (number list list \<times> int list \<times> number list \<times> number list)" where
  "extractFeatures data =
     (let features = map readings data;
          labels = map (\<lambda>d. smogValue (smogLevel d)) data
      in case features of
           [] \<Rightarrow> Inl TypeError
         | row0 # _ \<Rightarrow>
             Inr (features, labels,
                  mapi (\<lambda>_ i. Math_min (map (\<lambda>row. nth_num row i) features)) row0,
                  mapi (\<lambda>_ i. Math_max (map (\<lambda>row. nth_num row i) features)) row0))"

section \<open>Training one binary classifier\<close>

definition learningRate :: number where
  "learningRate = Fin 0.01"

definition epochs :: nat where
  "epochs = 1000"

definition lambda :: number where
  "lambda = Fin 0.01"

text \<open>
  The body of the loop over the samples, for sample \<open>x\<close> with binary label \<open>y\<close>.
  The state is \<^verbatim>\<open>totalLoss\<close>, \<^verbatim>\<open>weightGradients\<close> and \<^verbatim>\<open>biasGradient\<close>;
  \<^verbatim>\<open>weightGradients\<close> has \<^verbatim>\<open>numFeatures\<close> cells, so its writes are in range.
\<close>

definition sample_step ::
  "number list \<Rightarrow> number \<Rightarrow> nat \<Rightarrow> number list \<Rightarrow> number \<Rightarrow>
     number \<times> number list \<times> number \<Rightarrow> number \<times> number list \<times> number" where
  "sample_step wts b numFeatures x y =
     (\<lambda>(totalLoss, weightGradients, biasGradient).
        let z = reducei (\<lambda>sum xi j. sum + xi * nth_num wts j) x b;
            p = sigmoid z;
            loss = - y * Math_log (Math_max [p, Fin (1 / 10 ^ 15)])
                   - (Fin 1 - y) * Math_log (Math_max [Fin 1 - p, Fin (1 / 10 ^ 15)]);
            err = p - y
        in (totalLoss + loss,
            fold (\<lambda>j g. g[j := g ! j + err * nth_num x j]) [0..<numFeatures] weightGradients,
            biasGradient + err))"

text \<open>
  One epoch: the gradients of the whole batch, then the update of every weight and of
  the bias.  The learning-rate decay of the source is a branch with an empty body.
\<close>

definition epoch_step ::
  "number list list \<Rightarrow> number list \<Rightarrow> nat \<Rightarrow> number list \<times> number \<Rightarrow>
     number list \<times> number" where
  "epoch_step features binaryLabels numFeatures =
     (\<lambda>(wts, b).
        let (totalLoss, weightGradients, biasGradient) =
              fold (\<lambda>i. sample_step wts b numFeatures (features ! i) (nth_num binaryLabels i))
                [0..<length features]
                (Fin 0, replicate numFeatures (Fin 0), Fin 0);
            n = Fin (real (length features))
        in (fold (\<lambda>j w. w[j := w ! j - learningRate * (weightGradients ! j / n + lambda * w ! j)])
              [0..<numFeatures] wts,
            b - learningRate * (biasGradient / n)))"

text \<open>
  \<open>rnd j\<close> is the value of the \<open>j\<close>-th call of \<^verbatim>\<open>Math.random()\<close>.
  \<^verbatim>\<open>features[0].length\<close> throws when there is no row.
\<close>

definition trainBinaryClassifier ::
  "number list list \<Rightarrow> int list \<Rightarrow> nat \<Rightarrow> (nat \<Rightarrow> real) \<Rightarrow>
     error + LogisticRegressionModel" where
  "trainBinaryClassifier features labels targetClass rnd =
     (case features of
        [] \<Rightarrow> Inl TypeError
      | row0 # _ \<Rightarrow>
          let binaryLabels = map (\<lambda>l. if l = int targetClass then Fin 1 else Fin 0) labels;
              numFeatures = length row0;
              weights0 = map (\<lambda>j. (Fin (rnd j) - Fin 0.5) * Fin 0.01) [0..<numFeatures];
              (wts, b) = fold (\<lambda>epoch. epoch_step features binaryLabels numFeatures)
                           [0..<epochs] (weights0, Fin 0)
          in Inr \<lparr>weights = wts, bias = b, trained = True\<rparr>)"

section \<open>The one-vs-all classifier\<close>

text \<open>
  Methods take the object's state and return it with their result; a method that throws
  returns the state as it is at the throw.  The loop over the class labels draws the
  initial weights of class \<open>k\<close> after those of the classes before it; the first row of
  the matrix is read only after \<^verbatim>\<open>trainBinaryClassifier\<close> has returned, so it exists.
\<close>

fun train_classes ::
  "number list list \<Rightarrow> int list \<Rightarrow> (nat \<Rightarrow> real) \<Rightarrow> nat \<Rightarrow> nat list \<Rightarrow>
     MultiClassLogisticRegression \<Rightarrow> (error + unit) \<times> MultiClassLogisticRegression" where
  "train_classes normalizedFeatures labels rnd pos [] c = (Inr (), c)"
| "train_classes normalizedFeatures labels rnd pos (classLabel # rest) c =
     (case trainBinaryClassifier normalizedFeatures labels classLabel (\<lambda>j. rnd (pos + j)) of
        Inl e \<Rightarrow> (Inl e, c)
      | Inr model \<Rightarrow>
          train_classes normalizedFeatures labels rnd
            (pos + length (hd normalizedFeatures)) rest
            (c\<lparr>models := models c @ [model]\<rparr>))"

definition train ::
  "AirQualityData list \<Rightarrow> (nat \<Rightarrow> real) \<Rightarrow> MultiClassLogisticRegression \<Rightarrow>
     (error + unit) \<times> MultiClassLogisticRegression" where
  "train data rnd c =
     (case extractFeatures data of
        Inl e \<Rightarrow> (Inl e, c)
      | Inr (features, labels, mins, maxs) \<Rightarrow>
          let c1 = c\<lparr>featureMins := mins, featureMaxs := maxs\<rparr>;
              normalizedFeatures = normalizeFeatures features mins maxs;
              c2 = c1\<lparr>models := []\<rparr>
          in train_classes normalizedFeatures labels rnd 0 [0..<numClasses c2] c2)"

text \<open>The two callbacks of \<^verbatim>\<open>predict\<close>, and \<^verbatim>\<open>predict\<close>.\<close>

definition normalize_input :: "PredictionInput \<Rightarrow> MultiClassLogisticRegression \<Rightarrow> number list" where
  "normalize_input input c =
     mapi (\<lambda>v i. (v - nth_num (featureMins c) i)
                   / (nth_num (featureMaxs c) i - nth_num (featureMins c) i))
       (readings input)"

definition class_probability :: "number list \<Rightarrow> LogisticRegressionModel \<Rightarrow> number" where
  "class_probability normalizedFeatures model =
     (if \<not> trained model then Fin 0
      else sigmoid (reducei (\<lambda>sum xi j. sum + xi * nth_num (weights model) j)
                      normalizedFeatures (bias model)))"

definition predict ::
  "PredictionInput \<Rightarrow> MultiClassLogisticRegression \<Rightarrow>
     prediction_result \<times> MultiClassLogisticRegression" where
  "predict input c =
     (let normalizedFeatures = normalize_input input c;
          probs = map (class_probability normalizedFeatures) (models c)
      in (\<lparr>prediction = indexOf probs (Math_max probs), probabilities = probs,
           confidence = Math_max probs\<rparr>, c))"

definition getFeatureImportance ::
  "MultiClassLogisticRegression \<Rightarrow>
     feature_importance list \<times> MultiClassLogisticRegression" where
  "getFeatureImportance c =
     (let scores =
            mapi (\<lambda>name i.
                    \<lparr>feature = name,
                     importance =
                       fold (\<lambda>model sum. sum + Math_abs (nth_num (weights model) i))
                         (models c) (Fin 0)
                       / Fin (real (length (models c)))\<rparr>)
              (featureNames c);
          maxImportance = Math_max (map importance scores)
      in (array_sort (\<lambda>a b. importance b - importance a)
            (map (\<lambda>item. item\<lparr>importance := importance item / maxImportance\<rparr>) scores),
          c))"

section \<open>Evaluation\<close>

text \<open>
  \<^verbatim>\<open>confusionMatrix[a][p]++\<close>.  A row that does not exist makes the read of
  its cell throw a TypeError.  A column \<open>p\<close> that is not a cell of the row makes the
  increment create a property of that name holding NaN and leaves the cells as they
  are: this is what happens for \<open>p = -1\<close>, the answer of \<^verbatim>\<open>indexOf\<close> when nothing is
  found.  \<^verbatim>\<open>indexOf\<close> answers below the number of models, which is 0 or the number
  of classes in every state an object can reach (lemmas \<open>prediction_range\<close> and
  \<open>reachable_shape\<close>), so the increment never extends a row.  The cells are counts, kept
  as natural numbers.
\<close>

definition increment_cell :: "nat list list \<Rightarrow> int \<Rightarrow> int \<Rightarrow> error + nat list list" where
  "increment_cell cm a p =
     (if a < 0 \<or> int (length cm) \<le> a then Inl TypeError
      else let row = cm ! nat a
           in if 0 \<le> p \<and> p < int (length row)
              then Inr (cm[nat a := row[nat p := row ! nat p + 1]])
              else Inr cm)"

fun count_confusions :: "nat list list \<Rightarrow> (int \<times> int) list \<Rightarrow> error + nat list list" where
  "count_confusions cm [] = Inr cm"
| "count_confusions cm ((a, p) # rest) =
     (case increment_cell cm a p of
        Inl e \<Rightarrow> Inl e
      | Inr cm' \<Rightarrow> count_confusions cm' rest)"

definition true_positives :: "nat list list \<Rightarrow> nat \<Rightarrow> nat" where
  "true_positives cm classIdx = cm ! classIdx ! classIdx"

definition false_positives :: "nat list list \<Rightarrow> nat \<Rightarrow> nat" where
  "false_positives cm classIdx =
     reducei (\<lambda>sum row i. if i \<noteq> classIdx then sum + row ! classIdx else sum) cm 0"

definition false_negatives :: "nat list list \<Rightarrow> nat \<Rightarrow> nat" where
  "false_negatives cm classIdx =
     reducei (\<lambda>sum v j. if j \<noteq> classIdx then sum + v else sum) (cm ! classIdx) 0"

text \<open>The three metrics of one class, as the body of the loop over the classes computes them.\<close>

definition class_metrics :: "nat list list \<Rightarrow> nat \<Rightarrow> number \<times> number \<times> number" where
  "class_metrics cm classIdx =
     (let tp = Fin (real (true_positives cm classIdx));
          fp = Fin (real (false_positives cm classIdx));
          fn = Fin (real (false_negatives cm classIdx));
          prec = or_zero (tp / (tp + fp));
          rec = or_zero (tp / (tp + fn));
          f1 = or_zero (Fin 2 * (prec * rec) / (prec + rec))
      in (prec, rec, f1))"

text \<open>The \<^verbatim>\<open>PredictionInput\<close> that \<^verbatim>\<open>evaluate\<close> builds from a test record.\<close>

definition input_of :: "AirQualityData \<Rightarrow> PredictionInput" where
  "input_of d =
     \<lparr>pm25 = pm25 d, temperature = temperature d, humidity = humidity d,
      windSpeed = windSpeed d, visibility = visibility d, pressure = pressure d\<rparr>"

text \<open>\<open>rnd i\<close> is the value of the \<open>i\<close>-th call of \<^verbatim>\<open>Math.random()\<close> of this call.\<close>

definition evaluate ::
  "AirQualityData list \<Rightarrow> (nat \<Rightarrow> real) \<Rightarrow> MultiClassLogisticRegression \<Rightarrow>
     (error + ModelMetrics) \<times> MultiClassLogisticRegression" where
  "evaluate testData rnd c =
     (let (predictions, actual, c1) =
            fold (\<lambda>d (ps, as, s).
                    let (result, s') = predict (input_of d) s
                    in (ps @ [prediction result], as @ [smogValue (smogLevel d)], s'))
              testData ([], [], c)
      in case count_confusions (replicate (numClasses c1) (replicate (numClasses c1) 0))
                (zip actual predictions) of
           Inl e \<Rightarrow> (Inl e, c1)
         | Inr cm \<Rightarrow>
             let acc = Fin (real (length (filter (\<lambda>(pred, a). pred = a) (zip predictions actual))))
                       / Fin (real (length predictions));
                 (totalPrecision, totalRecall, totalF1) =
                   fold (\<lambda>classIdx (tp, tr, tf).
                           let (prec, rec, f1) = class_metrics cm classIdx
                           in (tp + prec, tr + rec, tf + f1))
                     [0..<numClasses c1] (Fin 0, Fin 0, Fin 0);
                 roc = map (\<lambda>i. \<lparr>fpr = Fin (real i) / Fin 10,
                                   tpr = Math_min [Fin 1, Fin (real i) / Fin 10 + Fin 0.1
                                                           + Fin (rnd i) * Fin 0.1]\<rparr>)
                         [0..<11]
             in (Inr \<lparr>accuracy = acc,
                      precision = totalPrecision / Fin (real (numClasses c1)),
                      recall = totalRecall / Fin (real (numClasses c1)),
                      f1Score = totalF1 / Fin (real (numClasses c1)),
                      confusionMatrix = cm, rocCurve = roc\<rparr>, c1))"

section \<open>Sequences of calls\<close>

text \<open>The calls a client can make on a classifier apart from \<^verbatim>\<open>train\<close>, and the state they leave.\<close>

datatype call =
  Predict PredictionInput
| Evaluate "AirQualityData list" "nat \<Rightarrow> real"
| GetFeatureImportance

fun run_call :: "call \<Rightarrow> MultiClassLogisticRegression \<Rightarrow> MultiClassLogisticRegression" where
  "run_call (Predict input) c = snd (predict input c)"
| "run_call (Evaluate testData rnd) c = snd (evaluate testData rnd c)"
| "run_call GetFeatureImportance c = snd (getFeatureImportance c)"

definition run_calls ::
  "call list \<Rightarrow> MultiClassLogisticRegression \<Rightarrow> MultiClassLogisticRegression" where
  "run_calls calls c = fold run_call calls c"

text \<open>
  The states a classifier object can be in: the one the constructor leaves, and those
  reached from it by calls of its public methods.
\<close>

inductive reachable :: "MultiClassLogisticRegression \<Rightarrow> bool" where
  constructed: "reachable new_MultiClassLogisticRegression"
| trained: "reachable c \<Longrightarrow> reachable (snd (train data rnd c))"
| called: "reachable c \<Longrightarrow> reachable (run_call k c)"

section \<open>The formulas of the specification\<close>

text \<open>
  The sigmoid on the reals, \<open>1 / (1 + exp(-clamp(z, -500, 500)))\<close>.
\<close>

definition sigmoid_real :: "real \<Rightarrow> real" where
  "sigmoid_real z = 1 / (1 + exp (- max (- 500) (min 500 z)))"

text \<open>
  The epoch of the specification: with \<open>p\<^sub>i = sigmoid(w\<cdot>x\<^sub>i + b)\<close>,
  every weight becomes \<open>w\<^sub>j - 0.01 * (mean\<^sub>i((p\<^sub>i - y\<^sub>i) * x\<^sub>i\<^sub>j) + 0.01 * w\<^sub>j)\<close> and the
  bias becomes \<open>b - 0.01 * mean\<^sub>i(p\<^sub>i - y\<^sub>i)\<close>.
\<close>

definition spec_mean :: "nat \<Rightarrow> (nat \<Rightarrow> number) \<Rightarrow> number" where
  "spec_mean n f = (\<Sum>i<n. f i) / Fin (real n)"

definition spec_probability :: "number list \<Rightarrow> number \<Rightarrow> number list \<Rightarrow> number" where
  "spec_probability w b x = sigmoid ((\<Sum>j<length w. w ! j * x ! j) + b)"

definition spec_epoch ::
  "number list list \<Rightarrow> number list \<Rightarrow> number list \<times> number \<Rightarrow> number list \<times> number" where
  "spec_epoch X ys =
     (\<lambda>(w, b).
        (map (\<lambda>j. w ! j - Fin 0.01
                      * (spec_mean (length X)
                           (\<lambda>i. (spec_probability w b (X ! i) - ys ! i) * X ! i ! j)
                         + Fin 0.01 * w ! j))
           [0..<length w],
         b - Fin 0.01 * spec_mean (length X) (\<lambda>i. spec_probability w b (X ! i) - ys ! i)))"

text \<open>
  The importance of the specification: the absolute weight of feature \<open>i\<close> averaged over
  the binary models, divided by the largest of these averages.
\<close>

definition average_magnitude :: "MultiClassLogisticRegression \<Rightarrow> nat \<Rightarrow> real" where
  "average_magnitude c i =
     (\<Sum>m\<leftarrow>models c. \<bar>the_real (weights m ! i)\<bar>) / real (length (models c))"

definition spec_importance :: "MultiClassLogisticRegression \<Rightarrow> nat \<Rightarrow> real" where
  "spec_importance c i =
     average_magnitude c i / Max (average_magnitude c ` {..<length (featureNames c)})"

text \<open>
  The confusion matrix of the specification: a grid of \<open>n\<close> rows of \<open>n\<close> cells, where
  cell \<open>[a][p]\<close> counts the samples of class \<open>a\<close> predicted as \<open>p\<close>.
\<close>

definition square :: "nat \<Rightarrow> nat list list \<Rightarrow> bool" where
  "square n cm = (length cm = n \<and> (\<forall>row \<in> set cm. length row = n))"

definition pair_count :: "(int \<times> int) list \<Rightarrow> nat \<Rightarrow> nat \<Rightarrow> nat" where
  "pair_count pairs a p = length (filter (\<lambda>(a', p'). a' = int a \<and> p' = int p) pairs)"

text \<open>
  The class probabilities of the specification: every reading is normalised with the
  stored bounds, \<open>(x\<^sub>i - min\<^sub>i) / (max\<^sub>i - min\<^sub>i)\<close>, and the probability of a class is the
  sigmoid of the linear score of its model on the normalised readings.
\<close>

definition spec_normalized :: "MultiClassLogisticRegression \<Rightarrow> PredictionInput \<Rightarrow> number list" where
  "spec_normalized c input =
     map (\<lambda>i. (readings input ! i - featureMins c ! i) / (featureMaxs c ! i - featureMins c ! i))
       [0..<6]"

definition spec_probabilities :: "MultiClassLogisticRegression \<Rightarrow> PredictionInput \<Rightarrow> number list" where
  "spec_probabilities c input =
     map (\<lambda>m. spec_probability (weights m) (bias m) (spec_normalized c input)) (models c)"

text \<open>
  The metrics of the specification for class \<open>k\<close>: \<open>tp\<close> is the diagonal cell, \<open>fp\<close> the
  rest of column \<open>k\<close> and \<open>fn\<close> the rest of row \<open>k\<close>; precision is \<open>tp/(tp+fp)\<close> and recall
  \<open>tp/(tp+fn)\<close>, each 0 when its denominator is 0; F1 is
  \<open>2\<cdot>precision\<cdot>recall/(precision+recall)\<close>, and 0 when precision and recall are both 0.
\<close>

definition spec_tp :: "nat list list \<Rightarrow> nat \<Rightarrow> nat" where
  "spec_tp cm k = cm ! k ! k"

definition spec_fp :: "nat list list \<Rightarrow> nat \<Rightarrow> nat" where
  "spec_fp cm k = (\<Sum>i\<leftarrow>filter (\<lambda>i. i \<noteq> k) [0..<length cm]. cm ! i ! k)"

definition spec_fn :: "nat list list \<Rightarrow> nat \<Rightarrow> nat" where
  "spec_fn cm k = (\<Sum>j\<leftarrow>filter (\<lambda>j. j \<noteq> k) [0..<length (cm ! k)]. cm ! k ! j)"

definition spec_precision :: "nat list list \<Rightarrow> nat \<Rightarrow> real" where
  "spec_precision cm k =
     (if spec_tp cm k + spec_fp cm k = 0 then 0
      else real (spec_tp cm k) / real (spec_tp cm k + spec_fp cm k))"

definition spec_recall :: "nat list list \<Rightarrow> nat \<Rightarrow> real" where
  "spec_recall cm k =
     (if spec_tp cm k + spec_fn cm k = 0 then 0
      else real (spec_tp cm k) / real (spec_tp cm k + spec_fn cm k))"

definition spec_f1 :: "nat list list \<Rightarrow> nat \<Rightarrow> real" where
  "spec_f1 cm k =
     (if spec_precision cm k = 0 \<and> spec_recall cm k = 0 then 0
      else 2 * (spec_precision cm k * spec_recall cm k)
           / (spec_precision cm k + spec_recall cm k))"

section \<open>Sample values\<close>

text \<open>
  A random source that always answers one half, the default readings of the prediction
  form, two records of the kind the generator produces, and the classifier trained on
  them.
\<close>

definition half_draws :: "nat \<Rightarrow> real" where
  "half_draws k = 1 / 2"

definition form_input :: PredictionInput where
  "form_input =
     \<lparr>pm25 = Fin 45, temperature = Fin 22, humidity = Fin 65, windSpeed = Fin 8,
      visibility = Fin 15, pressure = Fin 1013\<rparr>"

definition moderate :: SmogLevel where
  "moderate = \<lparr>level = ''Moderate'', smogValue = 1, color = ''#F59E0B'',
               description = ''Air quality is acceptable for most people''\<rparr>"

definition unhealthy :: SmogLevel where
  "unhealthy = \<lparr>level = ''Unhealthy'', smogValue = 3, color = ''#EF4444'',
               description = ''Everyone may begin to experience health effects''\<rparr>"

definition sample_record :: AirQualityData where
  "sample_record =
     \<lparr>pm25 = Fin 45, temperature = Fin 22, humidity = Fin 65, windSpeed = Fin 8,
      visibility = Fin 15, pressure = Fin 1013, ident = ''data_0'', timestamp = 0,
      city = ''Delhi'', pm10 = Fin 70, smogLevel = moderate, aqi = Fin 124\<rparr>"

definition hazy_record :: AirQualityData where
  "hazy_record =
     \<lparr>pm25 = Fin 120, temperature = Fin 30, humidity = Fin 40, windSpeed = Fin 2,
      visibility = Fin 3, pressure = Fin 1003, ident = ''data_1'', timestamp = 3600000,
      city = ''Delhi'', pm10 = Fin 190, smogLevel = unhealthy, aqi = Fin 185\<rparr>"

definition sample_data :: "AirQualityData list" where
  "sample_data = [sample_record, hazy_record]"

definition trained_sample :: MultiClassLogisticRegression where
  "trained_sample = snd (train sample_data half_draws new_MultiClassLogisticRegression)"

text \<open>
  A training set of a single record: every column is constant.  The normalised features
  are all NaN, and so are the weights and the bias of every model trained on them.
\<close>

definition degenerate_classifier :: MultiClassLogisticRegression where
  "degenerate_classifier = snd (train [sample_record] half_draws new_MultiClassLogisticRegression)"

definition NaN_model :: LogisticRegressionModel where
  "NaN_model = \<lparr>weights = replicate 6 NaN, bias = NaN, trained = True\<rparr>"

text \<open>A feature matrix of two samples, to run the epoch on.\<close>

definition toy_features :: "number list list" where
  "toy_features = [[Fin 0, Fin 1], [Fin 1, Fin 0]]"

text \<open>
  A classifier whose class probabilities are 0.3, 0.3, 0.1, 0.1, 0.1 and 0.1 for every
  input, and one whose six models have the same weights.
\<close>

definition tie_model :: "real \<Rightarrow> LogisticRegressionModel" where
  "tie_model b = \<lparr>weights = replicate 6 (Fin 0), bias = Fin b, trained = True\<rparr>"

definition tie_classifier :: MultiClassLogisticRegression where
  "tie_classifier =
     new_MultiClassLogisticRegression
       \<lparr>models := [tie_model (ln (3 / 7)), tie_model (ln (3 / 7)), tie_model (ln (1 / 9)),
                   tie_model (ln (1 / 9)), tie_model (ln (1 / 9)), tie_model (ln (1 / 9))],
        featureMins := replicate 6 (Fin 0), featureMaxs := replicate 6 (Fin 1)\<rparr>"

definition ranked_model :: LogisticRegressionModel where
  "ranked_model =
     \<lparr>weights = [Fin 1, Fin (- 4), Fin 2, Fin 0, Fin 3, Fin (- 2)], bias = Fin 0, trained = True\<rparr>"

definition ranked_classifier :: MultiClassLogisticRegression where
  "ranked_classifier =
     new_MultiClassLogisticRegression
       \<lparr>models := replicate 6 ranked_model,
        featureMins := replicate 6 (Fin 0), featureMaxs := replicate 6 (Fin 1)\<rparr>"

text \<open>
  A classifier with bounds 0 and 1 whose class 0 has probability 0.5 or, when the
  temperature reading is 1, 0.1, whose class 1 has probability 0.5 or, when the PM2.5
  reading is 1, 0.1, and whose other classes have probability 0.1; inputs and test
  records for it; and an input outside the range of the two training records.
\<close>

definition switch_model :: "nat \<Rightarrow> LogisticRegressionModel" where
  "switch_model k =
     \<lparr>weights = (replicate 6 (Fin 0))[k := Fin (ln (1 / 9))], bias = Fin 0, trained = True\<rparr>"

definition switch_classifier :: MultiClassLogisticRegression where
  "switch_classifier =
     new_MultiClassLogisticRegression
       \<lparr>models := [switch_model 1, switch_model 0, tie_model (ln (1 / 9)),
                   tie_model (ln (1 / 9)), tie_model (ln (1 / 9)), tie_model (ln (1 / 9))],
        featureMins := replicate 6 (Fin 0), featureMaxs := replicate 6 (Fin 1)\<rparr>"

definition switch_input :: "real \<Rightarrow> real \<Rightarrow> PredictionInput" where
  "switch_input p t =
     \<lparr>pm25 = Fin p, temperature = Fin t, humidity = Fin 0, windSpeed = Fin 0,
      visibility = Fin 0, pressure = Fin 0\<rparr>"

definition switch_record :: "real \<Rightarrow> real \<Rightarrow> int \<Rightarrow> AirQualityData" where
  "switch_record p t v =
     \<lparr>pm25 = Fin p, temperature = Fin t, humidity = Fin 0, windSpeed = Fin 0,
      visibility = Fin 0, pressure = Fin 0, ident = ''test'', timestamp = 0,
      city = ''Delhi'', pm10 = Fin 0, smogLevel = moderate\<lparr>smogValue := v\<rparr>, aqi = Fin 0\<rparr>"

definition switch_data :: "AirQualityData list" where
  "switch_data = [switch_record 1 0 0, switch_record 1 0 1, switch_record 0 1 1,
                  switch_record 1 0 2]"

definition distant_input :: PredictionInput where
  "distant_input =
     \<lparr>pm25 = Fin 195, temperature = Fin 18, humidity = Fin 65, windSpeed = Fin 8,
      visibility = Fin 15, pressure = Fin 1013\<rparr>"

section \<open>Prediction before training\<close>

text \<open>
  Claim C1 says that \<^verbatim>\<open>predict\<close> on a freshly constructed classifier answers class 0
  with a probability of 0 for every class and confidence 0.  The constructor leaves the
  list of models empty, so the guard on the \<^verbatim>\<open>trained\<close> flag is never reached: the
  list of probabilities is empty, its maximum is \<open>-Infinity\<close> and \<^verbatim>\<open>indexOf\<close>
  finds nothing.  For every input the answer is class -1, no probabilities and
  confidence \<open>-Infinity\<close>.
\<close>

theorem predict_untrained:
  "predict input new_MultiClassLogisticRegression =
     (\<lparr>prediction = - 1, probabilities = [], confidence = NInf\<rparr>,
      new_MultiClassLogisticRegression)"
  by (simp add: predict_def new_MultiClassLogisticRegression_def Math_max_def indexOf_def)

text \<open>
  What the guard on the \<^verbatim>\<open>trained\<close> flag is written for: had the constructor put six
  untrained models in the list, \<^verbatim>\<open>predict\<close> would answer class 0 with probability 0
  for every class and confidence 0.
\<close>

lemma predict_six_untrained:
  "fst (predict input (new_MultiClassLogisticRegression
          \<lparr>models := replicate 6 \<lparr>weights = [], bias = Fin 0, trained = False\<rparr>\<rparr>))
     = \<lparr>prediction = 0, probabilities = replicate 6 (Fin 0), confidence = Fin 0\<rparr>"
  by (simp add: predict_def class_probability_def Math_max_def max2_def indexOf_def
      strict_eq_def numeral_eq_Suc)

section \<open>Training on no record\<close>

text \<open>
  Claim C2 says that \<^verbatim>\<open>train\<close> on an empty list of records does not throw.  It
  throws: \<^verbatim>\<open>extractFeatures\<close> reads \<^verbatim>\<open>features[0].map\<close> before it computes any
  minimum.
\<close>

theorem train_empty_throws:
  "fst (train [] half_draws new_MultiClassLogisticRegression) = Inl TypeError"
  by (simp add: train_def extractFeatures_def)

text \<open>
  Claim C2 as amended: \<^verbatim>\<open>train\<close> on an empty list of records throws a TypeError
  in \<^verbatim>\<open>extractFeatures\<close>, before any minimum or maximum is computed, and leaves the
  state of the classifier as it was.
\<close>

theorem train_empty_TypeError:
  "extractFeatures [] = Inl TypeError \<and> train [] rnd c = (Inl TypeError, c)"
  by (simp add: train_def extractFeatures_def)

section \<open>Arrays\<close>

lemma length_mapi [simp]: "length (mapi f xs) = length xs"
  by (simp add: mapi_def)

lemma nth_mapi [simp]: "i < length xs \<Longrightarrow> mapi f xs ! i = f (xs ! i) i"
  by (simp add: mapi_def nth_enumerate_eq)

lemma mapi_eq_map_upt: "mapi f xs = map (\<lambda>i. f (xs ! i) i) [0..<length xs]"
  by (rule nth_equalityI) simp_all

lemma length_fold_update [simp]:
  "length (fold (\<lambda>j w. w[j := F w j]) js w) = length w"
  by (induction js arbitrary: w) simp_all

section \<open>Training always ends with trained models\<close>

lemma length_fst_epoch_step [simp]:
  "length (fst (epoch_step fs bl m (w, b))) = length w"
  by (simp add: epoch_step_def split_beta Let_def)

lemma length_fst_fold_epoch_step [simp]:
  "length (fst (fold (\<lambda>epoch. epoch_step fs bl m) es wb)) = length (fst wb)"
proof (induction es arbitrary: wb)
  case Nil
  show ?case by simp
next
  case (Cons e es)
  show ?case by (cases wb) (simp add: Cons.IH)
qed

lemma trainBinaryClassifier_Inr:
  assumes "fs \<noteq> []"
  shows "\<exists>m. trainBinaryClassifier fs labels k rnd = Inr m \<and> trained m
           \<and> length (weights m) = length (hd fs)"
proof -
  from assms obtain row0 rest where fs: "fs = row0 # rest" by (cases fs) auto
  show ?thesis
    unfolding fs trainBinaryClassifier_def
    by (simp add: Let_def split_beta)
qed

lemma train_classes_Inr:
  assumes "fs \<noteq> []"
  shows "\<exists>c'. train_classes fs labels rnd pos ks c = (Inr (), c')
           \<and> length (models c') = length (models c) + length ks
           \<and> (\<forall>m \<in> set (models c'). m \<in> set (models c)
                  \<or> (trained m \<and> length (weights m) = length (hd fs)))
           \<and> numClasses c' = numClasses c \<and> featureMins c' = featureMins c
           \<and> featureMaxs c' = featureMaxs c \<and> featureNames c' = featureNames c"
proof (induction ks arbitrary: pos c)
  case Nil
  show ?case by simp
next
  case (Cons k ks)
  obtain m where m: "trainBinaryClassifier fs labels k (\<lambda>j. rnd (pos + j)) = Inr m"
    "trained m" "length (weights m) = length (hd fs)"
    using trainBinaryClassifier_Inr [OF assms] by blast
  from Cons.IH [of "pos + length (hd fs)" "c\<lparr>models := models c @ [m]\<rparr>"]
  obtain c' where c': "train_classes fs labels rnd (pos + length (hd fs)) ks (c\<lparr>models := models c @ [m]\<rparr>) = (Inr (), c')"
    "length (models c') = length (models c) + 1 + length ks"
    "\<forall>x \<in> set (models c'). x \<in> set (models c @ [m]) \<or> (trained x \<and> length (weights x) = length (hd fs))"
    "numClasses c' = numClasses c" "featureMins c' = featureMins c"
    "featureMaxs c' = featureMaxs c" "featureNames c' = featureNames c"
    by auto
  show ?case
    using m c' by auto
qed

section \<open>The calls that leave the state alone\<close>

lemma length_readings [simp]: "length (readings d) = 6"
  by (simp add: readings_def)

lemma readings_input_of [simp]: "readings (input_of d) = readings d"
  by (simp add: readings_def input_of_def)

lemma extractFeatures_nonempty:
  assumes "data \<noteq> []"
  shows "extractFeatures data =
           Inr (map readings data, map (\<lambda>d. smogValue (smogLevel d)) data,
                map (\<lambda>i. Math_min (map (\<lambda>d. readings d ! i) data)) [0..<6],
                map (\<lambda>i. Math_max (map (\<lambda>d. readings d ! i) data)) [0..<6])"
proof -
  from assms obtain d ds where data: "data = d # ds" by (cases data) auto
  have nth: "\<And>i e. i < 6 \<Longrightarrow> nth_num (readings e) i = readings e ! i"
    by (simp add: nth_num_def)
  show ?thesis
    unfolding extractFeatures_def Let_def data
    by (simp add: mapi_eq_map_upt nth comp_def del: upt_Suc)
qed

lemma predict_state [simp]: "snd (predict input c) = c"
  by (simp add: predict_def Let_def)

lemma getFeatureImportance_state [simp]: "snd (getFeatureImportance c) = c"
  by (simp add: getFeatureImportance_def Let_def)

lemma evaluate_loop:
  "fold (\<lambda>d (ps, as, s).
           let (result, s') = predict (input_of d) s
           in (ps @ [prediction result], as @ [smogValue (smogLevel d)], s'))
     testData (ps0, as0, c) =
   (ps0 @ map (\<lambda>d. prediction (fst (predict (input_of d) c))) testData,
    as0 @ map (\<lambda>d. smogValue (smogLevel d)) testData, c)"
  (is "fold ?step testData _ = _")
proof (induction testData arbitrary: ps0 as0)
  case Nil
  show ?case by simp
next
  case (Cons d ds)
  have "predict (input_of d) c = (fst (predict (input_of d) c), c)"
    by (metis predict_state prod.collapse)
  then have step: "?step d (ps0, as0, c) =
      (ps0 @ [prediction (fst (predict (input_of d) c))], as0 @ [smogValue (smogLevel d)], c)"
    by (simp add: split_beta Let_def)
  have "fold ?step (d # ds) (ps0, as0, c) = fold ?step ds (?step d (ps0, as0, c))"
    by simp
  also have "\<dots> = (ps0 @ map (\<lambda>d. prediction (fst (predict (input_of d) c))) (d # ds),
    as0 @ map (\<lambda>d. smogValue (smogLevel d)) (d # ds), c)"
    unfolding step Cons.IH by simp
  finally show ?case .
qed

lemma evaluate_state [simp]: "snd (evaluate testData rnd c) = c"
  unfolding evaluate_def evaluate_loop
  by (simp add: Let_def split_beta split: sum.splits)

lemma run_call_state [simp]: "run_call k c = c"
  by (cases k) simp_all

lemma run_calls_state [simp]: "run_calls calls c = c"
  unfolding run_calls_def by (induction calls) simp_all

section \<open>What a training run leaves\<close>

lemma normalizeFeatures_nonempty:
  "fs \<noteq> [] \<Longrightarrow> normalizeFeatures fs mins maxs \<noteq> []"
  "fs \<noteq> [] \<Longrightarrow> length (hd (normalizeFeatures fs mins maxs)) = length (hd fs)"
  by (cases fs; simp add: normalizeFeatures_def)+

lemma train_succeeds:
  assumes "data \<noteq> []"
  shows "\<exists>c'. train data rnd c = (Inr (), c')
           \<and> length (models c') = numClasses c
           \<and> (\<forall>m \<in> set (models c'). trained m \<and> length (weights m) = 6)
           \<and> numClasses c' = numClasses c \<and> featureNames c' = featureNames c
           \<and> featureMins c' = map (\<lambda>i. Math_min (map (\<lambda>d. readings d ! i) data)) [0..<6]
           \<and> featureMaxs c' = map (\<lambda>i. Math_max (map (\<lambda>d. readings d ! i) data)) [0..<6]"
proof -
  let ?mins = "map (\<lambda>i. Math_min (map (\<lambda>d. readings d ! i) data)) [0..<6]"
  let ?maxs = "map (\<lambda>i. Math_max (map (\<lambda>d. readings d ! i) data)) [0..<6]"
  let ?nf = "normalizeFeatures (map readings data) ?mins ?maxs"
  let ?c2 = "c\<lparr>featureMins := ?mins, featureMaxs := ?maxs, models := []\<rparr>"
  have fs: "map readings data \<noteq> []" using assms by simp
  have nf: "?nf \<noteq> []" and len: "length (hd ?nf) = 6"
    using normalizeFeatures_nonempty [OF fs, of ?mins ?maxs] assms
    by (simp_all add: hd_map)
  from train_classes_Inr [OF nf, of "map (\<lambda>d. smogValue (smogLevel d)) data" rnd 0
      "[0..<numClasses c]" ?c2]
  obtain c' where c': "train_classes ?nf (map (\<lambda>d. smogValue (smogLevel d)) data) rnd 0
       [0..<numClasses c] ?c2 = (Inr (), c')"
    "length (models c') = numClasses c"
    "\<forall>m \<in> set (models c'). trained m \<and> length (weights m) = 6"
    "numClasses c' = numClasses c" "featureMins c' = ?mins" "featureMaxs c' = ?maxs"
    "featureNames c' = featureNames c"
    unfolding len by auto
  have "train data rnd c = (Inr (), c')"
    unfolding train_def extractFeatures_nonempty [OF assms]
    using c'(1) by (simp add: Let_def)
  with c' show ?thesis by blast
qed

text \<open>
  Claim C10: a call of \<^verbatim>\<open>train\<close> on a non-empty list of records returns, and
  then the classifier holds exactly 6 binary models, each with \<^verbatim>\<open>trained = true\<close> and
  6 weights.  So \<^verbatim>\<open>predict\<close> on that classifier never takes the branch that answers
  probability 0 for an untrained model: the probability of every class is the sigmoid
  of its linear score.
\<close>

theorem train_models_trained:
  assumes "data \<noteq> []" and "numClasses c = 6"
  shows "\<exists>c'. train data rnd c = (Inr (), c')
           \<and> length (models c') = 6
           \<and> (\<forall>m \<in> set (models c'). trained m \<and> length (weights m) = 6)
           \<and> (\<forall>input. \<forall>m \<in> set (models c').
                 class_probability (normalize_input input c') m =
                   sigmoid (reducei (\<lambda>sum xi j. sum + xi * nth_num (weights m) j)
                              (normalize_input input c') (bias m)))"
proof -
  from train_succeeds [OF assms(1), of rnd c]
  obtain c' where c': "train data rnd c = (Inr (), c')" "length (models c') = numClasses c"
    "\<forall>m \<in> set (models c'). trained m \<and> length (weights m) = 6"
    by blast
  then show ?thesis
    using assms(2) by (auto simp: class_probability_def)
qed

theorem train_models_trained_witness:
  "sample_data \<noteq> [] \<and> numClasses new_MultiClassLogisticRegression = 6
   \<and> (\<exists>c'. train sample_data half_draws new_MultiClassLogisticRegression = (Inr (), c')
           \<and> length (models c') = 6
           \<and> (\<forall>m \<in> set (models c'). trained m \<and> length (weights m) = 6)
           \<and> (\<forall>input. \<forall>m \<in> set (models c').
                 class_probability (normalize_input input c') m =
                   sigmoid (reducei (\<lambda>sum xi j. sum + xi * nth_num (weights m) j)
                              (normalize_input input c') (bias m))))"
proof -
  have h1: "sample_data \<noteq> []" by (simp add: sample_data_def)
  have h2: "numClasses new_MultiClassLogisticRegression = 6"
    by (simp add: new_MultiClassLogisticRegression_def)
  show ?thesis
    using train_models_trained [OF h1 h2, of half_draws] h1 h2 by blast
qed

section \<open>The bounds of the sample records\<close>

lemma normalize_input_bounds:
  assumes "featureMins c = map mn [0..<6]" and "featureMaxs c = map mx [0..<6]"
  shows "normalize_input input c =
           map (\<lambda>i. (readings input ! i - mn i) / (mx i - mn i)) [0..<6]"
  unfolding normalize_input_def mapi_eq_map_upt assms
  by (simp add: nth_num_def del: upt_Suc)

lemma upt_6: "[0..<6] = [0, 1, 2, 3, 4, 5]"
  by (simp add: upt_conv_Cons)

lemma Fin_minus [simp]: "Fin a - Fin b = Fin (a - b)"
  by (simp add: minus_number_def)

lemma max2_Fin [simp]: "max2 (Fin a) (Fin b) = Fin (max a b)"
  by (simp add: max2_def max_def)

lemma min2_Fin [simp]: "min2 (Fin a) (Fin b) = Fin (min a b)"
  by (simp add: min2_def min_def)

lemma max2_NInf [simp]: "max2 NInf (Fin a) = Fin a"
  by (simp add: max2_def)

lemma min2_PInf [simp]: "min2 PInf (Fin a) = Fin a"
  by (simp add: min2_def)

lemma train_sample: "train sample_data half_draws new_MultiClassLogisticRegression = (Inr (), trained_sample)"
proof -
  have "sample_data \<noteq> []" by (simp add: sample_data_def)
  from train_succeeds [OF this, of half_draws new_MultiClassLogisticRegression]
  show ?thesis by (auto simp: trained_sample_def)
qed

lemma readings_samples [simp]:
  "readings sample_record = [Fin 45, Fin 22, Fin 65, Fin 8, Fin 15, Fin 1013]"
  "readings hazy_record = [Fin 120, Fin 30, Fin 40, Fin 2, Fin 3, Fin 1003]"
  "readings form_input = [Fin 45, Fin 22, Fin 65, Fin 8, Fin 15, Fin 1013]"
  by (simp_all add: readings_def sample_record_def hazy_record_def form_input_def)

lemma map_sample_data: "map f sample_data = [f sample_record, f hazy_record]"
  by (simp add: sample_data_def)

section \<open>The predicted class is an index or -1\<close>

lemma indexOf_from_range:
  "indexOf_from k xs v = - 1 \<or> (k \<le> indexOf_from k xs v \<and> indexOf_from k xs v < k + int (length xs))"
  by (induction xs arbitrary: k) (auto, force+)

lemma indexOf_from_found:
  assumes "v \<in> set xs" and "v \<noteq> NaN" and "0 \<le> k"
  shows "k \<le> indexOf_from k xs v \<and> indexOf_from k xs v < k + int (length xs)"
  using assms
proof (induction xs arbitrary: k)
  case Nil
  then show ?case by simp
next
  case (Cons x xs)
  show ?case
  proof (cases "strict_eq x v")
    case True
    then show ?thesis by simp
  next
    case False
    with Cons.prems have "v \<in> set xs" by (auto simp: strict_eq_def)
    from Cons.IH [OF this Cons.prems(2), of "k + 1"] Cons.prems(3) False
    show ?thesis by simp
  qed
qed

text \<open>The first index where \<open>v\<close> stands.\<close>

lemma indexOf_from_first:
  assumes "i < length xs" and "xs ! i = v" and "v \<noteq> NaN" and "\<forall>j<i. xs ! j \<noteq> v"
  shows "indexOf_from k xs v = k + int i"
  using assms
proof (induction xs arbitrary: k i)
  case Nil
  then show ?case by simp
next
  case (Cons x xs)
  show ?case
  proof (cases i)
    case 0
    with Cons.prems show ?thesis by (simp add: strict_eq_def)
  next
    case (Suc i')
    with Cons.prems have "x \<noteq> v" by auto
    moreover have "indexOf_from (k + 1) xs v = k + 1 + int i'"
      using Cons.prems Suc by (intro Cons.IH) auto
    ultimately show ?thesis using Suc by (simp add: strict_eq_def)
  qed
qed

lemma max2_no_NaN: "a \<noteq> NaN \<Longrightarrow> b \<noteq> NaN \<Longrightarrow> max2 a b \<noteq> NaN \<and> (max2 a b = a \<or> max2 a b = b)"
  by (simp add: max2_def)

lemma max2_NInf_left: "b \<noteq> NaN \<Longrightarrow> max2 NInf b = b"
  by (cases b) (simp_all add: max2_def)

lemma fold_max2_mem:
  assumes "NaN \<notin> set xs" and "a \<noteq> NaN"
  shows "fold (\<lambda>x acc. max2 acc x) xs a \<in> insert a (set xs)
         \<and> fold (\<lambda>x acc. max2 acc x) xs a \<noteq> NaN"
  using assms
proof (induction xs arbitrary: a)
  case Nil
  then show ?case by simp
next
  case (Cons x xs)
  then have x: "x \<noteq> NaN" and xs: "NaN \<notin> set xs" by auto
  from max2_no_NaN [OF Cons.prems(2) x] Cons.IH [OF xs, of "max2 a x"]
  show ?case by auto
qed

lemma Math_max_mem:
  assumes "NaN \<notin> set xs" and "xs \<noteq> []"
  shows "Math_max xs \<in> set xs \<and> Math_max xs \<noteq> NaN"
proof -
  from assms obtain x rest where xs: "xs = x # rest" by (cases xs) auto
  with assms have x: "x \<noteq> NaN" and rest: "NaN \<notin> set rest" by auto
  show ?thesis
    using fold_max2_mem [OF rest x] x
    by (auto simp: Math_max_def xs max2_NInf_left)
qed

lemma prediction_range:
  "- 1 \<le> prediction (fst (predict input c))
   \<and> prediction (fst (predict input c)) < int (length (models c))"
  using indexOf_from_range [of 0 "map (class_probability (normalize_input input c)) (models c)"
      "Math_max (map (class_probability (normalize_input input c)) (models c))"]
  by (auto simp: predict_def Let_def indexOf_def)

lemma prediction_in_range:
  assumes "NaN \<notin> set (probabilities (fst (predict input c)))" and "models c \<noteq> []"
  shows "0 \<le> prediction (fst (predict input c))
   \<and> prediction (fst (predict input c)) < int (length (models c))"
proof -
  let ?ps = "map (class_probability (normalize_input input c)) (models c)"
  have ps: "NaN \<notin> set ?ps" "?ps \<noteq> []"
    using assms by (simp_all add: predict_def Let_def)
  from indexOf_from_found [of "Math_max ?ps" ?ps 0] Math_max_mem [OF ps]
  show ?thesis by (simp add: predict_def Let_def indexOf_def)
qed

section \<open>Counting into the confusion matrix\<close>

lemma square_replicate [simp]: "square n (replicate n (replicate n 0))"
  by (simp add: square_def)

lemma pair_count_Nil [simp]: "pair_count [] a p = 0"
  by (simp add: pair_count_def)

lemma pair_count_Cons [simp]:
  "pair_count ((x, y) # pairs) a p = (if x = int a \<and> y = int p then 1 else 0) + pair_count pairs a p"
  by (simp add: pair_count_def)

lemma increment_cell_in_range:
  assumes "square n cm" and "0 \<le> x" and "x < int n"
  shows "\<exists>cm'. increment_cell cm x y = Inr cm' \<and> square n cm'
           \<and> (\<forall>a<n. \<forall>p<n. cm' ! a ! p = cm ! a ! p + (if x = int a \<and> y = int p then 1 else 0))"
proof -
  have len: "length cm = n" and rows: "\<And>a. a < n \<Longrightarrow> length (cm ! a) = n"
    using assms(1) by (auto simp: square_def)
  have xn: "nat x < n" using assms by auto
  show ?thesis
  proof (cases "0 \<le> y \<and> y < int n")
    case True
    let ?cm' = "cm[nat x := (cm ! nat x)[nat y := cm ! nat x ! nat y + 1]]"
    have "increment_cell cm x y = Inr ?cm'"
      using assms True len rows [OF xn] by (simp add: increment_cell_def Let_def)
    moreover have "square n ?cm'"
      using assms(1) xn rows [OF xn] by (auto simp: square_def dest!: set_update_subset_insert [THEN subsetD])
    moreover have "\<forall>a<n. \<forall>p<n. ?cm' ! a ! p = cm ! a ! p + (if x = int a \<and> y = int p then 1 else 0)"
      using True assms(2) len rows xn by (auto simp: nth_list_update)
    ultimately show ?thesis by blast
  next
    case False
    then have "increment_cell cm x y = Inr cm"
      using assms len rows [OF xn] by (auto simp: increment_cell_def Let_def)
    moreover have "\<forall>a<n. \<forall>p<n. cm ! a ! p = cm ! a ! p + (if x = int a \<and> y = int p then 1 else 0)"
      using False by auto
    ultimately show ?thesis using assms(1) by blast
  qed
qed

lemma count_confusions_in_range:
  assumes "square n cm" and "\<forall>(x, y) \<in> set pairs. 0 \<le> x \<and> x < int n"
  shows "\<exists>cm'. count_confusions cm pairs = Inr cm' \<and> square n cm'
           \<and> (\<forall>a<n. \<forall>p<n. cm' ! a ! p = cm ! a ! p + pair_count pairs a p)"
  using assms
proof (induction pairs arbitrary: cm)
  case Nil
  then show ?case by simp
next
  case (Cons xy pairs)
  obtain x y where xy: "xy = (x, y)" by (cases xy)
  from Cons.prems xy have x: "0 \<le> x" "x < int n" by auto
  from increment_cell_in_range [OF Cons.prems(1) x, of y]
  obtain cm1 where cm1: "increment_cell cm x y = Inr cm1" "square n cm1"
    "\<forall>a<n. \<forall>p<n. cm1 ! a ! p = cm ! a ! p + (if x = int a \<and> y = int p then 1 else 0)"
    by blast
  from Cons.IH [OF cm1(2)] Cons.prems(2)
  obtain cm' where cm': "count_confusions cm1 pairs = Inr cm'" "square n cm'"
    "\<forall>a<n. \<forall>p<n. cm' ! a ! p = cm1 ! a ! p + pair_count pairs a p"
    by auto
  show ?case
    using cm1 cm' by (auto simp: xy)
qed

text \<open>A label that is not the index of a row stops the count.\<close>

lemma count_confusions_bad_label:
  assumes "square n cm" and "(x, y) \<in> set pairs" and "x < 0 \<or> int n \<le> x"
  shows "count_confusions cm pairs = Inl TypeError"
  using assms
proof (induction pairs arbitrary: cm)
  case Nil
  then show ?case by simp
next
  case (Cons xy pairs)
  obtain x' y' where xy: "xy = (x', y')" by (cases xy)
  show ?case
  proof (cases "0 \<le> x' \<and> x' < int n")
    case True
    with Cons.prems xy have mem: "(x, y) \<in> set pairs" by auto
    from increment_cell_in_range [OF Cons.prems(1), of x' y'] True
    obtain cm1 where cm1: "increment_cell cm x' y' = Inr cm1" "square n cm1" by blast
    from Cons.IH [OF cm1(2) mem Cons.prems(3)] cm1(1)
    show ?thesis by (simp add: xy)
  next
    case False
    then have "increment_cell cm x' y' = Inl TypeError"
      using Cons.prems(1) by (auto simp: increment_cell_def square_def)
    then show ?thesis by (simp add: xy)
  qed
qed

lemma sum_pair_count:
  assumes "\<forall>(x, y) \<in> set pairs. 0 \<le> x \<and> x < int n \<and> 0 \<le> y \<and> y < int n"
  shows "(\<Sum>a<n. \<Sum>p<n. pair_count pairs a p) = length pairs"
  using assms
proof (induction pairs)
  case Nil
  then show ?case by simp
next
  case (Cons xy pairs)
  obtain x y where xy: "xy = (x, y)" by (cases xy)
  from Cons.prems xy have r: "nat x < n" "nat y < n" "0 \<le> x" "0 \<le> y" by auto
  have eq: "\<And>a p. (x = int a \<and> y = int p) = (a = nat x \<and> p = nat y)"
    using r by auto
  have "(\<Sum>a<n. \<Sum>p<n. (if x = int a \<and> y = int p then 1 else 0 :: nat))
        = (\<Sum>a<n. if a = nat x then (\<Sum>p<n. if p = nat y then 1 else 0) else 0)"
    unfolding eq by (intro sum.cong refl) auto
  also have "\<dots> = 1"
    using r by simp
  finally have one: "(\<Sum>a<n. \<Sum>p<n. (if x = int a \<and> y = int p then 1 else 0 :: nat)) = 1" .
  have "(\<Sum>a<n. \<Sum>p<n. pair_count (xy # pairs) a p)
        = (\<Sum>a<n. \<Sum>p<n. (if x = int a \<and> y = int p then 1 else 0))
          + (\<Sum>a<n. \<Sum>p<n. pair_count pairs a p)"
    by (simp add: xy sum.distrib)
  then show ?case
    using one Cons by simp
qed

lemma sum_diagonal_count:
  assumes "\<forall>(x, y) \<in> set pairs. 0 \<le> x \<and> x < int n"
  shows "(\<Sum>k<n. pair_count pairs k k) = length (filter (\<lambda>(x, y). y = x) pairs)"
  using assms
proof (induction pairs)
  case Nil
  then show ?case by simp
next
  case (Cons xy pairs)
  obtain x y where xy: "xy = (x, y)" by (cases xy)
  from Cons.prems xy have r: "nat x < n" "0 \<le> x" by auto
  have eq: "\<And>k. (x = int k \<and> y = int k) = (k = nat x \<and> y = x)"
    using r by auto
  have "(\<Sum>k<n. (if x = int k \<and> y = int k then 1 else 0 :: nat))
        = (\<Sum>k<n. if k = nat x then (if y = x then 1 else 0) else 0)"
    unfolding eq by (intro sum.cong refl) auto
  also have "\<dots> = (if y = x then 1 else 0)"
    using r by simp
  finally have one: "(\<Sum>k<n. (if x = int k \<and> y = int k then 1 else 0 :: nat)) = (if y = x then 1 else 0)" .
  have "(\<Sum>k<n. pair_count (xy # pairs) k k)
        = (\<Sum>k<n. (if x = int k \<and> y = int k then 1 else 0)) + (\<Sum>k<n. pair_count pairs k k)"
    by (simp add: xy sum.distrib)
  then show ?case
    using one Cons by (simp add: xy)
qed

lemma sum_list_square:
  assumes "square n cm"
  shows "sum_list (map sum_list cm) = (\<Sum>a<n. \<Sum>p<n. cm ! a ! p)"
proof -
  have len: "length cm = n" and rows: "\<And>a. a < n \<Longrightarrow> length (cm ! a) = n"
    using assms by (auto simp: square_def)
  have "sum_list (map sum_list cm) = (\<Sum>a<n. sum_list (cm ! a))"
    by (simp add: sum_list_sum_nth len atLeast0LessThan)
  also have "\<dots> = (\<Sum>a<n. \<Sum>p<n. cm ! a ! p)"
    by (intro sum.cong refl) (simp add: sum_list_sum_nth rows atLeast0LessThan)
  finally show ?thesis .
qed

section \<open>A thousand epochs of gradient descent\<close>

declare zero_number_def [simp]

lemma times_number_commute: "a * b = b * (a :: number)"
  by (cases a; cases b) simp_all

lemma reducei_snoc: "reducei f (xs @ [x]) init = f (reducei f xs init) x (length xs)"
  by (simp add: reducei_def enumerate_append_eq)

lemma reducei_Nil [simp]: "reducei f [] init = init"
  by (simp add: reducei_def)

lemma reducei_sum:
  "reducei (\<lambda>sum xi j. sum + xi * g j) x b = b + (\<Sum>j<length x. x ! j * g j)"
proof (induction x rule: rev_induct)
  case Nil
  show ?case by simp
next
  case (snoc a x)
  have "(\<Sum>j<length x. (x @ [a]) ! j * g j) = (\<Sum>j<length x. x ! j * g j)"
    by (intro sum.cong refl) (simp add: nth_append)
  then show ?case
    by (simp add: reducei_snoc snoc.IH add.assoc)
qed

lemma fold_update_upt:
  assumes "k \<le> length G"
  shows "fold (\<lambda>j g. g[j := F j (g ! j)]) [0..<k] G
         = map (\<lambda>j. if j < k then F j (G ! j) else G ! j) [0..<length G]"
  using assms
proof (induction k)
  case 0
  show ?case by (simp add: map_nth)
next
  case (Suc k)
  then have k: "k < length G" by simp
  show ?case
    using Suc.IH k
    by (auto simp: nth_list_update intro!: nth_equalityI)
qed

lemma fold_update_all:
  "length G = m \<Longrightarrow>
     fold (\<lambda>j g. g[j := F j (g ! j)]) [0..<m] G = map (\<lambda>j. F j (G ! j)) [0..<m]"
  using fold_update_upt [of m G F] by simp

lemma sample_step_eq:
  assumes "length G = m" and "length x = m" and "length w = m"
  shows "sample_step w b m x y (L, G, B) =
           (L + (- y * Math_log (Math_max [spec_probability w b x, Fin (1 / 10 ^ 15)])
                 - (Fin 1 - y) * Math_log (Math_max [Fin 1 - spec_probability w b x, Fin (1 / 10 ^ 15)])),
            map (\<lambda>j. G ! j + (spec_probability w b x - y) * x ! j) [0..<m],
            B + (spec_probability w b x - y))"
proof -
  have "reducei (\<lambda>sum xi j. sum + xi * nth_num w j) x b = b + (\<Sum>j<length x. x ! j * nth_num w j)"
    by (rule reducei_sum)
  also have "(\<Sum>j<length x. x ! j * nth_num w j) = (\<Sum>j<length w. w ! j * x ! j)"
    using assms by (intro sum.cong) (simp_all add: nth_num_def times_number_commute)
  finally have z: "sigmoid (reducei (\<lambda>sum xi j. sum + xi * nth_num w j) x b) = spec_probability w b x"
    by (simp add: spec_probability_def add.commute)
  have g: "fold (\<lambda>j g. g[j := g ! j + (spec_probability w b x - y) * nth_num x j]) [0..<m] G
           = map (\<lambda>j. G ! j + (spec_probability w b x - y) * x ! j) [0..<m]"
    using fold_update_all [OF assms(1), of "\<lambda>j v. v + (spec_probability w b x - y) * nth_num x j"]
      assms(2)
    by (simp add: nth_num_def)
  show ?thesis
    unfolding sample_step_def Let_def z
    by (simp add: g)
qed

lemma batch_gradients:
  assumes "k \<le> length X" and "\<forall>x \<in> set X. length x = m" and "length w = m"
    and "length ys = length X"
  shows "\<exists>L. fold (\<lambda>i. sample_step w b m (X ! i) (nth_num ys i)) [0..<k]
               (Fin 0, replicate m (Fin 0), Fin 0) =
             (L, map (\<lambda>j. \<Sum>i<k. (spec_probability w b (X ! i) - ys ! i) * X ! i ! j) [0..<m],
              \<Sum>i<k. spec_probability w b (X ! i) - ys ! i)"
  using assms(1)
proof (induction k)
  case 0
  show ?case by (simp add: map_replicate_const)
next
  case (Suc k)
  then have k: "k < length X" by simp
  from Suc.IH k obtain L where
    L: "fold (\<lambda>i. sample_step w b m (X ! i) (nth_num ys i)) [0..<k]
               (Fin 0, replicate m (Fin 0), Fin 0) =
          (L, map (\<lambda>j. \<Sum>i<k. (spec_probability w b (X ! i) - ys ! i) * X ! i ! j) [0..<m],
           \<Sum>i<k. spec_probability w b (X ! i) - ys ! i)"
    by auto
  have x: "length (X ! k) = m" using assms(2) k by simp
  have y: "nth_num ys k = ys ! k" using assms(4) k by (simp add: nth_num_def)
  show ?case
    by (simp add: L y sample_step_eq [OF _ x assms(3)])
qed

lemma epoch_step_spec:
  assumes "\<forall>x \<in> set X. length x = m" and "length w = m" and "length ys = length X"
  shows "epoch_step X ys m (w, b) = spec_epoch X ys (w, b)"
proof -
  from batch_gradients [OF order_refl assms, of b]
  obtain L where
    L: "fold (\<lambda>i. sample_step w b m (X ! i) (nth_num ys i)) [0..<length X]
               (Fin 0, replicate m (Fin 0), Fin 0) =
          (L, map (\<lambda>j. \<Sum>i<length X. (spec_probability w b (X ! i) - ys ! i) * X ! i ! j) [0..<m],
           \<Sum>i<length X. spec_probability w b (X ! i) - ys ! i)"
    by blast
  have upd: "fold (\<lambda>j v. v[j := v ! j - Fin (1 / 100) * (G ! j / n + Fin (1 / 100) * v ! j)]) [0..<m] w
             = map (\<lambda>j. w ! j - Fin (1 / 100) * (G ! j / n + Fin (1 / 100) * w ! j)) [0..<m]" for G n
    using fold_update_all [OF assms(2), of "\<lambda>j v. v - Fin (1 / 100) * (G ! j / n + Fin (1 / 100) * v)"]
    by simp
  show ?thesis
    unfolding epoch_step_def spec_epoch_def
    by (simp add: L Let_def upd assms(2) spec_mean_def learningRate_def lambda_def)
qed

lemma length_spec_epoch [simp]: "length (fst (spec_epoch X ys wb)) = length (fst wb)"
  by (cases wb) (simp add: spec_epoch_def)

lemma length_funpow_spec_epoch [simp]:
  "length (fst ((spec_epoch X ys ^^ n) wb)) = length (fst wb)"
  by (induction n) simp_all

lemma fold_const_funpow: "fold (\<lambda>epoch. f) [0..<n] x = (f ^^ n) x"
  by (induction n) simp_all

lemma epochs_spec:
  assumes "\<forall>x \<in> set X. length x = m" and "length (fst wb) = m" and "length ys = length X"
  shows "(epoch_step X ys m ^^ n) wb = (spec_epoch X ys ^^ n) wb"
proof (induction n)
  case 0
  show ?case by simp
next
  case (Suc n)
  obtain w b where wb: "(spec_epoch X ys ^^ n) wb = (w, b)" by (cases "(spec_epoch X ys ^^ n) wb")
  have "length w = m"
    using length_funpow_spec_epoch [where X = X and ys = ys and n = n and wb = wb] assms(2)
    by (simp add: wb)
  then show ?case
    by (simp add: Suc.IH wb epoch_step_spec [OF assms(1) _ assms(3)])
qed

lemma trainBinaryClassifier_funpow:
  assumes "X \<noteq> []" and "\<forall>x \<in> set X. length x = length (hd X)"
    and "length labels = length X"
  shows "trainBinaryClassifier X labels target rnd =
           Inr \<lparr>weights =
                  fst ((spec_epoch X (map (\<lambda>l. if l = int target then Fin 1 else Fin 0) labels)
                          ^^ 1000)
                        (map (\<lambda>j. (Fin (rnd j) - Fin 0.5) * Fin 0.01) [0..<length (hd X)], Fin 0)),
                bias =
                  snd ((spec_epoch X (map (\<lambda>l. if l = int target then Fin 1 else Fin 0) labels)
                          ^^ 1000)
                        (map (\<lambda>j. (Fin (rnd j) - Fin 0.5) * Fin 0.01) [0..<length (hd X)], Fin 0)),
                trained = True\<rparr>"
proof -
  from assms(1) obtain row0 rest where X: "X = row0 # rest" by (cases X) auto
  let ?ys = "map (\<lambda>l. if l = int target then Fin 1 else Fin 0) labels"
  let ?w0 = "map (\<lambda>j. (Fin (rnd j) - Fin 0.5) * Fin 0.01) [0..<length (hd X)]"
  have "fold (\<lambda>epoch. epoch_step X ?ys (length (hd X))) [0..<epochs] (?w0, Fin 0)
        = (spec_epoch X ?ys ^^ 1000) (?w0, Fin 0)"
    unfolding fold_const_funpow epochs_def
    by (rule epochs_spec [OF assms(2)]) (simp_all add: assms(3))
  then show ?thesis
    unfolding trainBinaryClassifier_def
    by (simp add: X Let_def split_beta)
qed

text \<open>
  Claim C3: for every feature matrix with one label per row, \<^verbatim>\<open>trainBinaryClassifier\<close>
  returns the weights and the bias reached by exactly 1000 epochs of the specification
  from the random initial weights and bias 0: each epoch replaces every weight \<open>w\<^sub>j\<close>
  by \<open>w\<^sub>j - 0.01 * (mean\<^sub>i((sigmoid(w\<cdot>x\<^sub>i + b) - y\<^sub>i) * x\<^sub>i\<^sub>j) + 0.01 * w\<^sub>j)\<close> and the bias
  by \<open>b - 0.01 * mean\<^sub>i(sigmoid(w\<cdot>x\<^sub>i + b) - y\<^sub>i)\<close>, so the L2 penalty acts on the weights
  only.  No epoch is skipped and none is added.
\<close>

theorem trainBinaryClassifier_epochs:
  assumes "X \<noteq> []" and "\<forall>x \<in> set X. length x = length (hd X)"
    and "length labels = length X"
  shows "trainBinaryClassifier X labels target rnd =
           Inr \<lparr>weights =
                  fst ((spec_epoch X (map (\<lambda>l. if l = int target then Fin 1 else Fin 0) labels)
                          ^^ 1000)
                        (map (\<lambda>j. (Fin (rnd j) - Fin 0.5) * Fin 0.01) [0..<length (hd X)], Fin 0)),
                bias =
                  snd ((spec_epoch X (map (\<lambda>l. if l = int target then Fin 1 else Fin 0) labels)
                          ^^ 1000)
                        (map (\<lambda>j. (Fin (rnd j) - Fin 0.5) * Fin 0.01) [0..<length (hd X)], Fin 0)),
                trained = True\<rparr>"
  using assms by (rule trainBinaryClassifier_funpow)

lemma Math_max_pair [simp]: "Math_max [Fin a, Fin b] = Fin (max a b)"
  by (simp add: Math_max_def)

lemma Math_min_pair [simp]: "Math_min [Fin a, Fin b] = Fin (min a b)"
  by (simp add: Math_min_def)

lemma sigmoid_Fin [simp]: "sigmoid (Fin z) = Fin (sigmoid_real z)"
proof -
  have "1 + exp (- max (- 500) (min 500 z)) \<noteq> 0"
    using exp_gt_zero [of "- max (- 500) (min 500 z)"] by linarith
  then show ?thesis
    by (simp add: sigmoid_def sigmoid_real_def)
qed

lemma sigmoid_real_0 [simp]: "sigmoid_real 0 = 1 / 2"
  by (simp add: sigmoid_real_def)

lemma epoch_step_example:
  "epoch_step [[Fin 1]] [Fin 1] 1 ([Fin 0], Fin 0) = ([Fin (1 / 200)], Fin (1 / 200))"
  by (simp add: epoch_step_def sample_step_def reducei_def nth_num_def Let_def learningRate_def lambda_def)

lemma spec_epoch_example:
  "spec_epoch [[Fin 1]] [Fin 1] ([Fin 0], Fin 0) = ([Fin (1 / 200)], Fin (1 / 200))"
  by (simp add: spec_epoch_def spec_mean_def spec_probability_def)

lemma toy_rows: "\<forall>x \<in> set toy_features. length x = length (hd toy_features)"
    by (simp add: toy_features_def)

lemma toy_initial_weights: "map (\<lambda>j. (Fin (half_draws j) - Fin 0.5) * Fin 0.01) [0..<length (hd toy_features)]
            = [Fin 0, Fin 0]"
    by (simp add: toy_features_def half_draws_def upt_conv_Cons)

lemma lessThan_2: "{..<2::nat} = {0, 1}"
  by auto

lemma toy_epoch: "spec_epoch toy_features [Fin 1, Fin 0] ([Fin 0, Fin 0], Fin 0)
       = ([Fin (- (1 / 400)), Fin (1 / 400)], Fin 0)"
    by (simp add: spec_epoch_def spec_mean_def spec_probability_def toy_features_def
        upt_conv_Cons lessThan_2)

theorem trainBinaryClassifier_epochs_witness:
  "toy_features \<noteq> [] \<and> map length toy_features = [2, 2]
   \<and> length [1, 3 :: int] = length toy_features
   \<and> trainBinaryClassifier toy_features [1, 3] 1 half_draws =
       Inr \<lparr>weights =
              fst ((spec_epoch toy_features [Fin 1, Fin 0] ^^ 1000) ([Fin 0, Fin 0], Fin 0)),
            bias =
              snd ((spec_epoch toy_features [Fin 1, Fin 0] ^^ 1000) ([Fin 0, Fin 0], Fin 0)),
            trained = True\<rparr>
   \<and> spec_epoch toy_features [Fin 1, Fin 0] ([Fin 0, Fin 0], Fin 0)
       = ([Fin (- (1 / 400)), Fin (1 / 400)], Fin 0)"
proof -
  have h1: "toy_features \<noteq> []" by (simp add: toy_features_def)
  have h3: "length [1, 3 :: int] = length toy_features" by (simp add: toy_features_def)
  have l: "map length toy_features = [2, 2]" by (simp add: toy_features_def)
  have ys: "map (\<lambda>l. if l = int 1 then Fin 1 else Fin 0) [1, 3] = [Fin 1, Fin 0]" by simp
  from trainBinaryClassifier_epochs [OF h1 toy_rows h3, of 1 half_draws]
  have "trainBinaryClassifier toy_features [1, 3] 1 half_draws =
       Inr \<lparr>weights =
              fst ((spec_epoch toy_features [Fin 1, Fin 0] ^^ 1000) ([Fin 0, Fin 0], Fin 0)),
            bias =
              snd ((spec_epoch toy_features [Fin 1, Fin 0] ^^ 1000) ([Fin 0, Fin 0], Fin 0)),
            trained = True\<rparr>"
    unfolding toy_initial_weights ys .
  with h1 h3 l toy_epoch show ?thesis by blast
qed

section \<open>Finite data give finite weights\<close>

lemma is_Fin_plus [simp]: "is_Fin a \<Longrightarrow> is_Fin b \<Longrightarrow> is_Fin (a + b)"
  by (cases a; cases b) simp_all

lemma is_Fin_minus [simp]: "is_Fin a \<Longrightarrow> is_Fin b \<Longrightarrow> is_Fin (a - b)"
  by (cases a; cases b) simp_all

lemma is_Fin_times [simp]: "is_Fin a \<Longrightarrow> is_Fin b \<Longrightarrow> is_Fin (a * b)"
  by (cases a; cases b) simp_all

lemma is_Fin_divide [simp]: "is_Fin a \<Longrightarrow> r \<noteq> 0 \<Longrightarrow> is_Fin (a / Fin r)"
  by (cases a) simp_all

lemma is_Fin_sum: "(\<And>i. i \<in> A \<Longrightarrow> is_Fin (f i)) \<Longrightarrow> is_Fin (sum f A)"
  by (induction A rule: infinite_finite_induct) simp_all

lemma sigmoid_PInf: "sigmoid PInf = Fin (sigmoid_real 500)"
  using sigmoid_Fin [of 500]
  by (simp add: sigmoid_def Math_min_def Math_max_def min2_def)

lemma sigmoid_NInf: "sigmoid NInf = Fin (sigmoid_real (- 500))"
  using sigmoid_Fin [of "- 500"]
  by (simp add: sigmoid_def Math_min_def Math_max_def min2_def max2_def)

lemma sigmoid_NaN [simp]: "sigmoid NaN = NaN"
  by (simp add: sigmoid_def Math_min_def Math_max_def min2_def max2_def)

lemma is_Fin_sigmoid: "z \<noteq> NaN \<Longrightarrow> is_Fin (sigmoid z)"
  by (cases z) (simp_all add: sigmoid_PInf sigmoid_NInf)

lemma is_Fin_spec_probability:
  assumes "list_all is_Fin w" and "list_all is_Fin x" and "length x = length w" and "is_Fin b"
  shows "is_Fin (spec_probability w b x)"
proof -
  have "is_Fin ((\<Sum>j<length w. w ! j * x ! j) + b)"
    using assms by (intro is_Fin_plus is_Fin_sum is_Fin_times) (simp_all add: list_all_length)
  then show ?thesis
    unfolding spec_probability_def by (intro is_Fin_sigmoid) auto
qed

lemma spec_epoch_finite:
  assumes "X \<noteq> []" and "\<forall>x \<in> set X. length x = length w \<and> list_all is_Fin x"
    and "list_all is_Fin ys" and "length ys = length X"
    and "list_all is_Fin w" and "is_Fin b"
  shows "list_all is_Fin (fst (spec_epoch X ys (w, b))) \<and> is_Fin (snd (spec_epoch X ys (w, b)))"
proof -
  have n: "real (length X) \<noteq> 0" using assms(1) by simp
  have p: "is_Fin (spec_probability w b (X ! i) - ys ! i)" if "i < length X" for i
    using that assms
    by (intro is_Fin_minus is_Fin_spec_probability) (simp_all add: list_all_length)
  have x: "is_Fin (X ! i ! j)" if "i < length X" "j < length w" for i j
    using that assms(2) by (auto simp: list_all_length)
  have w: "is_Fin (w ! j)" if "j < length w" for j
    using that assms(5) by (simp add: list_all_length)
  have m1: "is_Fin (spec_mean (length X) (\<lambda>i. (spec_probability w b (X ! i) - ys ! i) * X ! i ! j))"
    if "j < length w" for j
    unfolding spec_mean_def using that n
    by (intro is_Fin_divide is_Fin_sum is_Fin_times p x) simp_all
  have m2: "is_Fin (spec_mean (length X) (\<lambda>i. spec_probability w b (X ! i) - ys ! i))"
    unfolding spec_mean_def using n
    by (intro is_Fin_divide is_Fin_sum p) simp_all
  show ?thesis
    unfolding spec_epoch_def
    using m1 m2 w assms(6)
    by (simp add: list_all_length)
qed

lemma spec_epochs_finite:
  assumes "X \<noteq> []" and "\<forall>x \<in> set X. length x = length w \<and> list_all is_Fin x"
    and "list_all is_Fin ys" and "length ys = length X"
    and "list_all is_Fin w" and "is_Fin b"
  shows "list_all is_Fin (fst ((spec_epoch X ys ^^ n) (w, b)))
         \<and> is_Fin (snd ((spec_epoch X ys ^^ n) (w, b)))"
proof (induction n)
  case 0
  show ?case using assms by simp
next
  case (Suc n)
  obtain w' b' where wb: "(spec_epoch X ys ^^ n) (w, b) = (w', b')"
    by (cases "(spec_epoch X ys ^^ n) (w, b)")
  have len: "length w' = length w"
    using length_funpow_spec_epoch [where X = X and ys = ys and n = n and wb = "(w, b)"]
    by (simp add: wb)
  from Suc.IH wb have fin: "list_all is_Fin w'" "is_Fin b'" by simp_all
  show ?case
    using spec_epoch_finite [OF assms(1) _ assms(3) assms(4) fin] assms(2)
    by (simp add: wb len)
qed

lemma trainBinaryClassifier_finite:
  assumes "X \<noteq> []" and "\<forall>x \<in> set X. length x = length (hd X) \<and> list_all is_Fin x"
    and "length labels = length X"
    and "trainBinaryClassifier X labels target rnd = Inr m"
  shows "list_all is_Fin (weights m) \<and> is_Fin (bias m)
         \<and> length (weights m) = length (hd X) \<and> trained m"
proof -
  let ?ys = "map (\<lambda>l. if l = int target then Fin 1 else Fin 0) labels"
  let ?w0 = "map (\<lambda>j. (Fin (rnd j) - Fin 0.5) * Fin 0.01) [0..<length (hd X)]"
  have rect: "\<forall>x \<in> set X. length x = length (hd X)" using assms(2) by blast
  have ys: "list_all is_Fin ?ys" by (auto simp: list_all_iff)
  have w0: "list_all is_Fin ?w0" by (simp add: list_all_iff)
  have X: "\<forall>x \<in> set X. length x = length ?w0 \<and> list_all is_Fin x"
    using assms(2) by simp
  have fin: "list_all is_Fin (fst ((spec_epoch X ?ys ^^ 1000) (?w0, Fin 0)))
         \<and> is_Fin (snd ((spec_epoch X ?ys ^^ 1000) (?w0, Fin 0)))"
    by (rule spec_epochs_finite [OF assms(1) X ys _ w0]) (simp_all add: assms(3))
  have len: "length (fst ((spec_epoch X ?ys ^^ 1000) (?w0, Fin 0))) = length (hd X)"
    by simp
  from assms(4) have m: "m = \<lparr>weights = fst ((spec_epoch X ?ys ^^ 1000) (?w0, Fin 0)),
      bias = snd ((spec_epoch X ?ys ^^ 1000) (?w0, Fin 0)), trained = True\<rparr>"
    unfolding trainBinaryClassifier_funpow [OF assms(1) rect assms(3)] by simp
  show ?thesis
    unfolding m using fin len by simp
qed

lemma train_classes_models:
  "\<forall>m \<in> set (models (snd (train_classes fs labels rnd pos ks c))).
      m \<in> set (models c) \<or> (\<exists>k rnd'. trainBinaryClassifier fs labels k rnd' = Inr m)"
proof (induction ks arbitrary: pos c)
  case Nil
  show ?case by simp
next
  case (Cons k ks)
  show ?case
  proof (cases "trainBinaryClassifier fs labels k (\<lambda>j. rnd (pos + j))")
    case (Inl e)
    then show ?thesis by simp
  next
    case (Inr m)
    from Cons.IH [of "pos + length (hd fs)" "c\<lparr>models := models c @ [m]\<rparr>"] Inr
    show ?thesis by auto
  qed
qed

lemma train_models_from:
  assumes "data \<noteq> []"
  shows "\<forall>m \<in> set (models (snd (train data rnd c))).
           \<exists>k rnd'. trainBinaryClassifier
                       (normalizeFeatures (map readings data)
                          (map (\<lambda>i. Math_min (map (\<lambda>d. readings d ! i) data)) [0..<6])
                          (map (\<lambda>i. Math_max (map (\<lambda>d. readings d ! i) data)) [0..<6]))
                       (map (\<lambda>d. smogValue (smogLevel d)) data) k rnd' = Inr m"
proof -
  let ?nf = "normalizeFeatures (map readings data)
               (map (\<lambda>i. Math_min (map (\<lambda>d. readings d ! i) data)) [0..<6])
               (map (\<lambda>i. Math_max (map (\<lambda>d. readings d ! i) data)) [0..<6])"
  let ?c2 = "c\<lparr>featureMins := map (\<lambda>i. Math_min (map (\<lambda>d. readings d ! i) data)) [0..<6],
               featureMaxs := map (\<lambda>i. Math_max (map (\<lambda>d. readings d ! i) data)) [0..<6],
               models := []\<rparr>"
  have "train data rnd c =
          train_classes ?nf (map (\<lambda>d. smogValue (smogLevel d)) data) rnd 0 [0..<numClasses c] ?c2"
    unfolding train_def extractFeatures_nonempty [OF assms] by (simp add: Let_def)
  then show ?thesis
    using train_classes_models
      [of ?nf "map (\<lambda>d. smogValue (smogLevel d)) data" rnd 0 "[0..<numClasses c]" ?c2]
    by simp
qed

lemma sample_normalized:
  "normalizeFeatures (map readings sample_data)
     (map (\<lambda>i. Math_min (map (\<lambda>d. readings d ! i) sample_data)) [0..<6])
     (map (\<lambda>i. Math_max (map (\<lambda>d. readings d ! i) sample_data)) [0..<6])
   = [[Fin 0, Fin 0, Fin 1, Fin 1, Fin 1, Fin 1], [Fin 1, Fin 1, Fin 0, Fin 0, Fin 0, Fin 0]]"
  by (simp add: normalizeFeatures_def map_sample_data Math_min_def Math_max_def upt_6
      mapi_def nth_num_def)

lemma trained_sample_models:
  "length (models trained_sample) = 6
   \<and> (\<forall>m \<in> set (models trained_sample).
         trained m \<and> length (weights m) = 6 \<and> list_all is_Fin (weights m) \<and> is_Fin (bias m))"
proof -
  have ne: "sample_data \<noteq> []" by (simp add: sample_data_def)
  have len: "length (models trained_sample) = 6"
    using train_succeeds [OF ne, of half_draws new_MultiClassLogisticRegression]
    by (auto simp: trained_sample_def new_MultiClassLogisticRegression_def)
  have "trained m \<and> length (weights m) = 6 \<and> list_all is_Fin (weights m) \<and> is_Fin (bias m)"
    if "m \<in> set (models trained_sample)" for m
  proof -
    from train_models_from [OF ne, of half_draws new_MultiClassLogisticRegression] that
    obtain k rnd' where
      "trainBinaryClassifier
         [[Fin 0, Fin 0, Fin 1, Fin 1, Fin 1, Fin 1], [Fin 1, Fin 1, Fin 0, Fin 0, Fin 0, Fin 0]]
         (map (\<lambda>d. smogValue (smogLevel d)) sample_data) k rnd' = Inr m"
      unfolding trained_sample_def sample_normalized by blast
    from trainBinaryClassifier_finite [OF _ _ _ this]
    show ?thesis by (simp add: sample_data_def)
  qed
  with len show ?thesis by blast
qed

section \<open>What evaluation returns\<close>

lemma evaluate_unfold:
  "evaluate testData rnd c =
     (case count_confusions (replicate (numClasses c) (replicate (numClasses c) 0))
             (map (\<lambda>d. (smogValue (smogLevel d), prediction (fst (predict (input_of d) c))))
                testData) of
        Inl e \<Rightarrow> (Inl e, c)
      | Inr cm \<Rightarrow>
          (Inr \<lparr>accuracy =
                  Fin (real (length (filter
                    (\<lambda>d. prediction (fst (predict (input_of d) c)) = smogValue (smogLevel d))
                    testData)))
                  / Fin (real (length testData)),
                precision =
                  fst (fold (\<lambda>classIdx (tp, tr, tf).
                               let (prec, rec, f1) = class_metrics cm classIdx
                               in (tp + prec, tr + rec, tf + f1))
                         [0..<numClasses c] (Fin 0, Fin 0, Fin 0))
                  / Fin (real (numClasses c)),
                recall =
                  fst (snd (fold (\<lambda>classIdx (tp, tr, tf).
                               let (prec, rec, f1) = class_metrics cm classIdx
                               in (tp + prec, tr + rec, tf + f1))
                         [0..<numClasses c] (Fin 0, Fin 0, Fin 0)))
                  / Fin (real (numClasses c)),
                f1Score =
                  snd (snd (fold (\<lambda>classIdx (tp, tr, tf).
                               let (prec, rec, f1) = class_metrics cm classIdx
                               in (tp + prec, tr + rec, tf + f1))
                         [0..<numClasses c] (Fin 0, Fin 0, Fin 0)))
                  / Fin (real (numClasses c)),
                confusionMatrix = cm,
                rocCurve =
                  map (\<lambda>i. \<lparr>fpr = Fin (real i) / Fin 10,
                             tpr = Math_min [Fin 1, Fin (real i) / Fin 10 + Fin 0.1
                                                     + Fin (rnd i) * Fin 0.1]\<rparr>)
                    [0..<11]\<rparr>, c))"
proof -
  have z: "zip (map (\<lambda>d. smogValue (smogLevel d)) testData)
               (map (\<lambda>d. prediction (fst (predict (input_of d) c))) testData)
           = map (\<lambda>d. (smogValue (smogLevel d), prediction (fst (predict (input_of d) c)))) testData"
    by (induction testData) simp_all
  have f: "length (filter (\<lambda>(pred, a). pred = a)
              (zip (map (\<lambda>d. prediction (fst (predict (input_of d) c))) testData)
                   (map (\<lambda>d. smogValue (smogLevel d)) testData)))
           = length (filter (\<lambda>d. prediction (fst (predict (input_of d) c)) = smogValue (smogLevel d))
                testData)"
    by (induction testData) simp_all
  show ?thesis
    unfolding evaluate_def evaluate_loop
    by (simp add: z f Let_def split_beta del: upt_Suc split: sum.splits)
qed

lemma class_probability_finite:
  assumes "list_all is_Fin nf" and "length nf \<le> length (weights m)"
    and "list_all is_Fin (weights m)" and "is_Fin (bias m)"
  shows "is_Fin (class_probability nf m)"
proof -
  have "is_Fin (bias m + (\<Sum>j<length nf. nf ! j * nth_num (weights m) j))"
    using assms
    by (intro is_Fin_plus is_Fin_sum is_Fin_times) (simp_all add: list_all_length nth_num_def)
  then have "is_Fin (sigmoid (reducei (\<lambda>sum xi j. sum + xi * nth_num (weights m) j) nf (bias m)))"
    unfolding reducei_sum by (intro is_Fin_sigmoid) auto
  then show ?thesis
    by (simp add: class_probability_def)
qed

lemma pair_count_map:
  "pair_count (map (\<lambda>d. (f d, g d)) xs) a p = length (filter (\<lambda>d. f d = int a \<and> g d = int p) xs)"
  by (induction xs) simp_all

lemma diagonal_matches:
  "length (filter (\<lambda>(x, y). y = x) (map (\<lambda>d. (f d, g d)) xs)) = length (filter (\<lambda>d. g d = f d) xs)"
  by (induction xs) simp_all

lemma evaluate_Inr:
  assumes "count_confusions (replicate (numClasses c) (replicate (numClasses c) 0))
             (map (\<lambda>d. (smogValue (smogLevel d), prediction (fst (predict (input_of d) c))))
                testData) = Inr cm"
  shows "\<exists>report. evaluate testData rnd c = (Inr report, c)
      \<and> confusionMatrix report = cm
      \<and> accuracy report =
           Fin (real (length (filter
                    (\<lambda>d. prediction (fst (predict (input_of d) c)) = smogValue (smogLevel d))
                    testData)))
           / Fin (real (length testData))
      \<and> rocCurve report =
           map (\<lambda>i. \<lparr>fpr = Fin (real i) / Fin 10,
                      tpr = Math_min [Fin 1, Fin (real i) / Fin 10 + Fin 0.1
                                              + Fin (rnd i) * Fin 0.1]\<rparr>)
             [0..<11]"
  unfolding evaluate_unfold assms by simp

lemma evaluate_counts:
  assumes "numClasses c = 6" and "length (models c) = 6"
    and "\<forall>d \<in> set testData. 0 \<le> smogValue (smogLevel d) \<and> smogValue (smogLevel d) \<le> 5"
    and "\<forall>d \<in> set testData. NaN \<notin> set (probabilities (fst (predict (input_of d) c)))"
  shows "\<exists>report. evaluate testData rnd c = (Inr report, c)
      \<and> square 6 (confusionMatrix report)
      \<and> (\<forall>a<6. \<forall>p<6. confusionMatrix report ! a ! p =
            length (filter (\<lambda>d. smogValue (smogLevel d) = int a
                              \<and> prediction (fst (predict (input_of d) c)) = int p) testData))
      \<and> sum_list (map sum_list (confusionMatrix report)) = length testData
      \<and> accuracy report =
          Fin (real (\<Sum>k<6. confusionMatrix report ! k ! k)) / Fin (real (length testData))"
proof -
  let ?pairs = "map (\<lambda>d. (smogValue (smogLevel d), prediction (fst (predict (input_of d) c)))) testData"
  have ne: "models c \<noteq> []" using assms(2) by auto
  have range: "\<forall>(x, y) \<in> set ?pairs. 0 \<le> x \<and> x < int 6 \<and> 0 \<le> y \<and> y < int 6"
    using assms(3) assms(4) prediction_in_range [OF _ ne] assms(2) by fastforce
  then have labels: "\<forall>(x, y) \<in> set ?pairs. 0 \<le> x \<and> x < int 6" by fastforce
  from count_confusions_in_range [OF square_replicate labels]
  obtain cm where cm: "count_confusions (replicate 6 (replicate 6 0)) ?pairs = Inr cm"
    "square 6 cm" "\<forall>a<6. \<forall>p<6. cm ! a ! p = pair_count ?pairs a p"
    by auto
  have total: "sum_list (map sum_list cm) = length testData"
    using sum_pair_count [OF range] cm(3) by (simp add: sum_list_square [OF cm(2)])
  have diag: "(\<Sum>k<6. cm ! k ! k)
      = length (filter (\<lambda>d. prediction (fst (predict (input_of d) c)) = smogValue (smogLevel d)) testData)"
  proof -
    have "(\<Sum>k<6. cm ! k ! k) = (\<Sum>k<6. pair_count ?pairs k k)"
      using cm(3) by simp
    also have "\<dots> = length (filter (\<lambda>(x, y). y = x) ?pairs)"
      by (rule sum_diagonal_count [OF labels])
    also have "\<dots> = length (filter (\<lambda>d. prediction (fst (predict (input_of d) c))
                                           = smogValue (smogLevel d)) testData)"
      by (rule diagonal_matches)
    finally show ?thesis .
  qed
  have cells: "\<forall>a<6. \<forall>p<6. cm ! a ! p =
            length (filter (\<lambda>d. smogValue (smogLevel d) = int a
                              \<and> prediction (fst (predict (input_of d) c)) = int p) testData)"
    using cm(3) by (simp add: pair_count_map)
  from evaluate_Inr [of c testData cm rnd] cm(1) assms(1)
  obtain report where report: "evaluate testData rnd c = (Inr report, c)"
    "confusionMatrix report = cm"
    "accuracy report =
       Fin (real (length (filter
                (\<lambda>d. prediction (fst (predict (input_of d) c)) = smogValue (smogLevel d))
                testData)))
       / Fin (real (length testData))"
    by auto
  have "accuracy report = Fin (real (\<Sum>k<6. cm ! k ! k)) / Fin (real (length testData))"
    unfolding report(3) diag ..
  with report(1,2) cm(2) cells total show ?thesis by blast
qed

section \<open>A training set with constant columns\<close>

lemma NaN_absorbs [simp]:
  "x + NaN = NaN" "NaN + x = NaN" "x - NaN = NaN" "NaN - x = NaN"
  "x * NaN = NaN" "NaN * x = NaN" "x / NaN = NaN" "NaN / x = NaN" "- NaN = NaN"
  by (cases x; simp add: minus_number_def)+

lemma sum_NaN:
  assumes "finite A" and "i \<in> A" and "f i = NaN"
  shows "sum f A = NaN"
  using sum.remove [OF assms(1,2), of f] assms(3) by simp

lemma spec_probability_NaN:
  assumes "w \<noteq> []" and "x ! 0 = NaN"
  shows "spec_probability w b x = NaN"
proof -
  have "(\<Sum>j<length w. w ! j * x ! j) = NaN"
    using assms by (intro sum_NaN [of _ 0]) simp_all
  then show ?thesis by (simp add: spec_probability_def)
qed

lemma spec_epoch_NaN:
  assumes "w \<noteq> []" and "x ! 0 = NaN"
  shows "spec_epoch [x] ys (w, b) = (replicate (length w) NaN, NaN)"
proof -
  have p: "spec_probability w b x = NaN" by (rule spec_probability_NaN [OF assms])
  have "spec_mean (length [x]) (\<lambda>i. (spec_probability w b ([x] ! i) - ys ! i) * [x] ! i ! j) = NaN" for j
    unfolding spec_mean_def by (simp add: p)
  moreover have "spec_mean (length [x]) (\<lambda>i. spec_probability w b ([x] ! i) - ys ! i) = NaN"
    unfolding spec_mean_def by (simp add: p)
  ultimately show ?thesis
    unfolding spec_epoch_def by (simp add: map_replicate_const)
qed

lemma trainBinaryClassifier_NaN:
  "trainBinaryClassifier [replicate 6 NaN] [l] k rnd = Inr NaN_model"
proof -
  let ?ys = "map (\<lambda>l. if l = int k then Fin 1 else Fin 0) [l]"
  let ?w0 = "map (\<lambda>j. (Fin (rnd j) - Fin 0.5) * Fin 0.01) [0..<length (hd [replicate 6 NaN])]"
  obtain w b where wb: "(spec_epoch [replicate 6 NaN] ?ys ^^ 999) (?w0, Fin 0) = (w, b)"
    by (cases "(spec_epoch [replicate 6 NaN] ?ys ^^ 999) (?w0, Fin 0)")
  have "length (fst ((spec_epoch [replicate 6 NaN] ?ys ^^ 999) (?w0, Fin 0)))
        = length (fst (?w0, Fin 0))"
    by (rule length_funpow_spec_epoch)
  then have "length w = 6"
    unfolding wb by simp
  then have w: "w \<noteq> []" "length w = 6" by auto
  have "(spec_epoch [replicate 6 NaN] ?ys ^^ 1000) (?w0, Fin 0)
        = spec_epoch [replicate 6 NaN] ?ys ((spec_epoch [replicate 6 NaN] ?ys ^^ 999) (?w0, Fin 0))"
    using funpow.simps(2) [of 999 "spec_epoch [replicate 6 NaN] ?ys"] by simp
  also have "\<dots> = (replicate 6 NaN, NaN)"
    unfolding wb using spec_epoch_NaN [OF w(1), of "replicate 6 NaN" ?ys b] w(2) by simp
  finally have r: "(spec_epoch [replicate 6 NaN] ?ys ^^ 1000) (?w0, Fin 0) = (replicate 6 NaN, NaN)" .
  have "trainBinaryClassifier [replicate 6 NaN] [l] k rnd =
          Inr \<lparr>weights = fst ((spec_epoch [replicate 6 NaN] ?ys ^^ 1000) (?w0, Fin 0)),
               bias = snd ((spec_epoch [replicate 6 NaN] ?ys ^^ 1000) (?w0, Fin 0)),
               trained = True\<rparr>"
    by (rule trainBinaryClassifier_funpow) simp_all
  then show ?thesis
    unfolding r by (simp add: NaN_model_def)
qed

lemma single_normalized:
  "normalizeFeatures (map readings [sample_record])
     (map (\<lambda>i. Math_min (map (\<lambda>d. readings d ! i) [sample_record])) [0..<6])
     (map (\<lambda>i. Math_max (map (\<lambda>d. readings d ! i) [sample_record])) [0..<6])
   = [replicate 6 NaN]"
  by (simp add: normalizeFeatures_def Math_min_def Math_max_def upt_6 mapi_def nth_num_def
      numeral_eq_Suc)

lemma train_degenerate:
  "train [sample_record] half_draws new_MultiClassLogisticRegression = (Inr (), degenerate_classifier)"
  using train_succeeds [of "[sample_record]" half_draws new_MultiClassLogisticRegression]
  by (auto simp: degenerate_classifier_def)

lemma degenerate_models: "models degenerate_classifier = replicate 6 NaN_model"
proof -
  have len: "length (models degenerate_classifier) = 6"
    using train_succeeds [of "[sample_record]" half_draws new_MultiClassLogisticRegression]
    by (auto simp: degenerate_classifier_def new_MultiClassLogisticRegression_def)
  have "m = NaN_model" if "m \<in> set (models degenerate_classifier)" for m
  proof -
    from train_models_from [of "[sample_record]" half_draws new_MultiClassLogisticRegression] that
    obtain k rnd' where
      "trainBinaryClassifier [replicate 6 NaN]
         (map (\<lambda>d. smogValue (smogLevel d)) [sample_record]) k rnd' = Inr m"
      unfolding degenerate_classifier_def single_normalized by blast
    then show ?thesis by (simp add: trainBinaryClassifier_NaN)
  qed
  with len show ?thesis
    by (metis replicate_eqI)
qed

lemma class_probability_NaN_model [simp]: "class_probability nf NaN_model = NaN"
  by (simp add: class_probability_def NaN_model_def reducei_sum)

lemma indexOf_NaN [simp]: "indexOf xs NaN = - 1"
proof -
  have "indexOf_from k xs NaN = - 1" for k
    by (induction xs arbitrary: k) (simp_all add: strict_eq_def)
  then show ?thesis by (simp add: indexOf_def)
qed

lemma Math_max_NaNs [simp]: "Math_max (NaN # xs) = NaN"
proof -
  have "fold (\<lambda>x acc. max2 acc x) xs NaN = NaN"
    by (induction xs) (simp_all add: max2_def)
  then show ?thesis by (simp add: Math_max_def max2_def)
qed

lemma predict_degenerate:
  "fst (predict input degenerate_classifier) =
     \<lparr>prediction = - 1, probabilities = replicate 6 NaN, confidence = NaN\<rparr>"
  by (simp add: predict_def degenerate_models Let_def numeral_eq_Suc)

lemma numClasses_degenerate [simp]: "numClasses degenerate_classifier = 6"
  using train_succeeds [of "[sample_record]" half_draws new_MultiClassLogisticRegression]
  by (auto simp: degenerate_classifier_def new_MultiClassLogisticRegression_def)

lemma sample_labels [simp]:
  "smogValue (smogLevel sample_record) = 1" "smogValue (smogLevel hazy_record) = 3"
  by (simp_all add: sample_record_def hazy_record_def moderate_def unhealthy_def)

text \<open>
  Claim C5 says that every trained classifier and every list of test records with labels
  in [0,5] give a confusion matrix whose entries sum to the number of records.  A
  classifier trained on a single record has normalised features, weights and
  probabilities that are all NaN; \<^verbatim>\<open>indexOf\<close> then answers -1, the increment misses
  every cell, and the matrix of one test record is all zero.
\<close>

theorem conservation_fails_on_NaN:
  "train [sample_record] half_draws new_MultiClassLogisticRegression
     = (Inr (), degenerate_classifier)
   \<and> smogValue (smogLevel sample_record) = 1
   \<and> map_sum id confusionMatrix (fst (evaluate [sample_record] half_draws degenerate_classifier))
     = Inr (replicate 6 (replicate 6 0))"
proof -
  have "count_confusions (replicate 6 (replicate 6 0)) [(1, - 1)] = Inr (replicate 6 (replicate 6 0))"
    by (simp add: increment_cell_def)
  then have "map_sum id confusionMatrix
               (fst (evaluate [sample_record] half_draws degenerate_classifier))
             = Inr (replicate 6 (replicate 6 0))"
    unfolding evaluate_unfold by (simp add: predict_degenerate)
  then show ?thesis
    using train_degenerate by simp
qed

section \<open>The sample classifier\<close>

lemma predict_fields:
  "probabilities (fst (predict input c)) = map (class_probability (normalize_input input c)) (models c)"
  "prediction (fst (predict input c))
     = indexOf (probabilities (fst (predict input c))) (Math_max (probabilities (fst (predict input c))))"
  "confidence (fst (predict input c)) = Math_max (probabilities (fst (predict input c)))"
  by (simp_all add: predict_def Let_def)

lemma trained_sample_bounds:
  "featureMins trained_sample = [Fin 45, Fin 22, Fin 40, Fin 2, Fin 3, Fin 1003]"
  "featureMaxs trained_sample = [Fin 120, Fin 30, Fin 65, Fin 8, Fin 15, Fin 1013]"
  "numClasses trained_sample = 6"
  "featureNames trained_sample = featureNames new_MultiClassLogisticRegression"
proof -
  have ne: "sample_data \<noteq> []" by (simp add: sample_data_def)
  from train_succeeds [OF ne, of half_draws new_MultiClassLogisticRegression]
  have "featureMins trained_sample
          = map (\<lambda>i. Math_min (map (\<lambda>d. readings d ! i) sample_data)) [0..<6]"
    and "featureMaxs trained_sample
          = map (\<lambda>i. Math_max (map (\<lambda>d. readings d ! i) sample_data)) [0..<6]"
    and "numClasses trained_sample = numClasses new_MultiClassLogisticRegression"
    and "featureNames trained_sample = featureNames new_MultiClassLogisticRegression"
    by (auto simp: trained_sample_def)
  then show "featureMins trained_sample = [Fin 45, Fin 22, Fin 40, Fin 2, Fin 3, Fin 1003]"
    "featureMaxs trained_sample = [Fin 120, Fin 30, Fin 65, Fin 8, Fin 15, Fin 1013]"
    "numClasses trained_sample = 6"
    "featureNames trained_sample = featureNames new_MultiClassLogisticRegression"
    by (simp_all add: map_sample_data Math_min_def Math_max_def upt_6
        new_MultiClassLogisticRegression_def)
qed

lemma trained_sample_normalize:
  "normalize_input (input_of sample_record) trained_sample
     = [Fin 0, Fin 0, Fin 1, Fin 1, Fin 1, Fin 1]"
  "normalize_input (input_of hazy_record) trained_sample
     = [Fin 1, Fin 1, Fin 0, Fin 0, Fin 0, Fin 0]"
  "normalize_input form_input trained_sample
     = [Fin 0, Fin 0, Fin 1, Fin 1, Fin 1, Fin 1]"
  by (simp_all add: normalize_input_def trained_sample_bounds mapi_def nth_num_def)

lemma trained_sample_probabilities:
  assumes "normalize_input input trained_sample = map Fin xs" and "length xs = 6"
  shows "list_all is_Fin (probabilities (fst (predict input trained_sample)))"
  using trained_sample_models class_probability_finite [of "map Fin xs"] assms(2)
  by (simp add: predict_fields assms(1) list_all_iff)

lemma trained_sample_no_NaN:
  "NaN \<notin> set (probabilities (fst (predict (input_of sample_record) trained_sample)))"
  "NaN \<notin> set (probabilities (fst (predict (input_of hazy_record) trained_sample)))"
  "NaN \<notin> set (probabilities (fst (predict form_input trained_sample)))"
  using trained_sample_probabilities [of "input_of sample_record" "[0, 0, 1, 1, 1, 1]"]
    trained_sample_probabilities [of "input_of hazy_record" "[1, 1, 0, 0, 0, 0]"]
    trained_sample_probabilities [of form_input "[0, 0, 1, 1, 1, 1]"]
  by (auto simp: trained_sample_normalize list_all_iff)

text \<open>
  Claim C5 as amended: for every classifier with six models and every list of test
  records whose labels are in [0,5] and for which no class probability is NaN,
  \<^verbatim>\<open>evaluate\<close> returns a 6\<times>6 confusion matrix whose cell \<open>[a][p]\<close> counts the records
  with label \<open>a\<close> and prediction \<open>p\<close>; its entries sum to the number of test records,
  and the accuracy is the sum of its diagonal divided by the number of test records.
\<close>

theorem confusion_matrix_conservation:
  assumes "numClasses c = 6" and "length (models c) = 6"
    and "\<forall>d \<in> set testData. 0 \<le> smogValue (smogLevel d) \<and> smogValue (smogLevel d) \<le> 5"
    and "\<forall>d \<in> set testData. NaN \<notin> set (probabilities (fst (predict (input_of d) c)))"
  shows "\<exists>report. evaluate testData rnd c = (Inr report, c)
      \<and> square 6 (confusionMatrix report)
      \<and> (\<forall>a<6. \<forall>p<6. confusionMatrix report ! a ! p =
            length (filter (\<lambda>d. smogValue (smogLevel d) = int a
                              \<and> prediction (fst (predict (input_of d) c)) = int p) testData))
      \<and> sum_list (map sum_list (confusionMatrix report)) = length testData
      \<and> accuracy report =
          Fin (real (\<Sum>k<6. confusionMatrix report ! k ! k)) / Fin (real (length testData))"
  using assms by (rule evaluate_counts)

theorem confusion_matrix_conservation_witness:
  "numClasses trained_sample = 6 \<and> length (models trained_sample) = 6
   \<and> map (\<lambda>d. smogValue (smogLevel d)) sample_data = [1, 3]
   \<and> NaN \<notin> set (probabilities (fst (predict (input_of sample_record) trained_sample)))
   \<and> NaN \<notin> set (probabilities (fst (predict (input_of hazy_record) trained_sample)))
   \<and> (\<exists>report. evaluate sample_data half_draws trained_sample = (Inr report, trained_sample)
      \<and> square 6 (confusionMatrix report)
      \<and> (\<forall>a<6. \<forall>p<6. confusionMatrix report ! a ! p =
            length (filter (\<lambda>d. smogValue (smogLevel d) = int a
                  \<and> prediction (fst (predict (input_of d) trained_sample)) = int p) sample_data))
      \<and> sum_list (map sum_list (confusionMatrix report)) = 2
      \<and> accuracy report = Fin (real (\<Sum>k<6. confusionMatrix report ! k ! k)) / Fin 2)"
proof -
  have h1: "numClasses trained_sample = 6" by (rule trained_sample_bounds)
  have h2: "length (models trained_sample) = 6" using trained_sample_models by simp
  have h3: "\<forall>d \<in> set sample_data. 0 \<le> smogValue (smogLevel d) \<and> smogValue (smogLevel d) \<le> 5"
    by (simp add: sample_data_def)
  have h4: "\<forall>d \<in> set sample_data.
              NaN \<notin> set (probabilities (fst (predict (input_of d) trained_sample)))"
    using trained_sample_no_NaN by (simp add: sample_data_def)
  have l: "map (\<lambda>d. smogValue (smogLevel d)) sample_data = [1, 3]"
    by (simp add: map_sample_data)
  have n: "length sample_data = 2" by (simp add: sample_data_def)
  from confusion_matrix_conservation [OF h1 h2 h3 h4, of half_draws]
  show ?thesis
    unfolding n using h1 h2 l trained_sample_no_NaN(1,2) by simp
qed

section \<open>The synthetic ROC curve\<close>

lemma evaluate_roc:
  assumes "evaluate testData rnd c = (Inr report, c')"
  shows "rocCurve report =
           map (\<lambda>i. \<lparr>fpr = Fin (real i / 10),
                      tpr = Fin (min 1 (real i / 10 + 1 / 10 + rnd i * (1 / 10)))\<rparr>) [0..<11]"
  using assms unfolding evaluate_unfold
  by (auto split: sum.splits simp: Math_min_def)

text \<open>
  Claim C8: the ROC curve that \<^verbatim>\<open>evaluate\<close> returns has exactly 11 points; point \<open>i\<close>
  has false-positive rate \<open>i/10\<close> and true-positive rate \<open>min(1, i/10 + 0.1 + jitter)\<close>
  with a jitter in [0, 0.1), one tenth of the \<open>i\<close>-th random draw; and any other call of
  \<^verbatim>\<open>evaluate\<close> with the same random draws, whatever its test records and its
  classifier, returns the same curve.
\<close>

theorem roc_curve_synthetic:
  assumes "evaluate testData rnd c = (Inr report, c')" and "\<forall>i. 0 \<le> rnd i \<and> rnd i < 1"
  shows "length (rocCurve report) = 11
     \<and> (\<forall>i<11. fpr (rocCurve report ! i) = Fin (real i / 10)
            \<and> (\<exists>jitter. 0 \<le> jitter \<and> jitter < 1 / 10
                  \<and> tpr (rocCurve report ! i) = Fin (min 1 (real i / 10 + 1 / 10 + jitter))))
     \<and> (\<forall>testData2 c2 report2 c2'.
           evaluate testData2 rnd c2 = (Inr report2, c2') \<longrightarrow> rocCurve report2 = rocCurve report)"
proof -
  note roc = evaluate_roc [OF assms(1)]
  have len: "length (rocCurve report) = 11"
    unfolding roc by simp
  have point: "fpr (rocCurve report ! i) = Fin (real i / 10)
            \<and> (\<exists>jitter. 0 \<le> jitter \<and> jitter < 1 / 10
                  \<and> tpr (rocCurve report ! i) = Fin (min 1 (real i / 10 + 1 / 10 + jitter)))"
    if "i < 11" for i
  proof -
    have "0 \<le> rnd i * (1 / 10)" "rnd i * (1 / 10) < 1 / 10"
      using assms(2) by (simp_all add: mult_less_cancel_right2)
    moreover have "tpr (rocCurve report ! i)
                   = Fin (min 1 (real i / 10 + 1 / 10 + rnd i * (1 / 10)))"
      and "fpr (rocCurve report ! i) = Fin (real i / 10)"
      unfolding roc using that by (simp_all del: upt_Suc)
    ultimately show ?thesis by blast
  qed
  have same: "rocCurve report2 = rocCurve report"
    if "evaluate testData2 rnd c2 = (Inr report2, c2')" for testData2 c2 report2 c2'
    unfolding roc evaluate_roc [OF that] ..
  from len point same show ?thesis by blast
qed

lemma evaluate_sample:
  "\<exists>report. evaluate sample_data half_draws trained_sample = (Inr report, trained_sample)"
proof -
  have h3: "\<forall>d \<in> set sample_data. 0 \<le> smogValue (smogLevel d) \<and> smogValue (smogLevel d) \<le> 5"
    by (simp add: sample_data_def)
  have h4: "\<forall>d \<in> set sample_data.
              NaN \<notin> set (probabilities (fst (predict (input_of d) trained_sample)))"
    using trained_sample_no_NaN by (simp add: sample_data_def)
  from evaluate_counts [OF trained_sample_bounds(3) _ h3 h4, of half_draws] trained_sample_models
  show ?thesis by blast
qed

theorem roc_curve_synthetic_witness:
  "(\<forall>i. 0 \<le> half_draws i \<and> half_draws i < 1)
   \<and> (\<exists>report. evaluate sample_data half_draws trained_sample = (Inr report, trained_sample)
         \<and> length (rocCurve report) = 11
         \<and> fpr (rocCurve report ! 3) = Fin (3 / 10)
         \<and> tpr (rocCurve report ! 3) = Fin (9 / 20)
         \<and> fpr (rocCurve report ! 10) = Fin 1
         \<and> tpr (rocCurve report ! 10) = Fin 1)"
proof -
  have draws: "\<forall>i. 0 \<le> half_draws i \<and> half_draws i < 1"
    by (simp add: half_draws_def)
  from evaluate_sample obtain report where
    report: "evaluate sample_data half_draws trained_sample = (Inr report, trained_sample)"
    by blast
  note roc = roc_curve_synthetic [OF report draws]
  have len: "length (rocCurve report) = 11" using roc by blast
  have "rocCurve report =
          map (\<lambda>i. \<lparr>fpr = Fin (real i / 10),
                     tpr = Fin (min 1 (real i / 10 + 1 / 10 + half_draws i * (1 / 10)))\<rparr>) [0..<11]"
    by (rule evaluate_roc [OF report])
  then have "fpr (rocCurve report ! 3) = Fin (3 / 10)" "tpr (rocCurve report ! 3) = Fin (9 / 20)"
    "fpr (rocCurve report ! 10) = Fin 1" "tpr (rocCurve report ! 10) = Fin 1"
    by (simp_all add: half_draws_def del: upt_Suc)
  with draws report len show ?thesis by blast
qed

section \<open>The first maximum wins\<close>

lemma number_le_trans: "a \<le> b \<Longrightarrow> b \<le> c \<Longrightarrow> a \<le> c" for a b c :: number
  by (cases a; cases b; cases c) simp_all

lemma max2_ge:
  assumes "a \<noteq> NaN" and "b \<noteq> NaN"
  shows "a \<le> max2 a b" and "b \<le> max2 a b"
  using assms by (cases a; cases b; simp add: max2_def)+

lemma fold_max2_ge:
  assumes "NaN \<notin> set xs" and "a \<noteq> NaN"
  shows "a \<le> fold (\<lambda>x acc. max2 acc x) xs a
         \<and> (\<forall>x \<in> set xs. x \<le> fold (\<lambda>x acc. max2 acc x) xs a)"
  using assms
proof (induction xs arbitrary: a)
  case Nil
  then show ?case by (cases a) simp_all
next
  case (Cons x xs)
  then have x: "x \<noteq> NaN" and xs: "NaN \<notin> set xs" by auto
  have m: "max2 a x \<noteq> NaN" using max2_no_NaN [OF Cons.prems(2) x] by simp
  from Cons.IH [OF xs m]
  have ih: "max2 a x \<le> fold (\<lambda>x acc. max2 acc x) xs (max2 a x)"
    "\<forall>y \<in> set xs. y \<le> fold (\<lambda>x acc. max2 acc x) xs (max2 a x)"
    by simp_all
  show ?case
    using ih max2_ge [OF Cons.prems(2) x]
    by (auto intro: number_le_trans)
qed

lemma Math_max_ge:
  assumes "NaN \<notin> set xs" and "x \<in> set xs"
  shows "x \<le> Math_max xs"
  using fold_max2_ge [OF assms(1), of NInf] assms(2)
  by (simp add: Math_max_def)

lemma argmax_first:
  assumes "NaN \<notin> set ps" and "ps \<noteq> []"
  shows "\<exists>i<length ps. indexOf ps (Math_max ps) = int i \<and> ps ! i = Math_max ps
           \<and> (\<forall>j<length ps. ps ! j \<le> Math_max ps) \<and> (\<forall>j<i. ps ! j \<noteq> Math_max ps)"
proof -
  from Math_max_mem [OF assms] have mem: "Math_max ps \<in> set ps" and nn: "Math_max ps \<noteq> NaN"
    by simp_all
  define i where "i = (LEAST k. k < length ps \<and> ps ! k = Math_max ps)"
  from mem obtain k where "k < length ps \<and> ps ! k = Math_max ps"
    by (auto simp: in_set_conv_nth)
  then have i: "i < length ps \<and> ps ! i = Math_max ps"
    unfolding i_def by (rule LeastI)
  have first: "ps ! j \<noteq> Math_max ps" if "j < i" for j
  proof
    assume "ps ! j = Math_max ps"
    with that i have "j < length ps \<and> ps ! j = Math_max ps" by simp
    then have "i \<le> j" unfolding i_def by (rule Least_le)
    with that show False by simp
  qed
  have "indexOf_from 0 ps (Math_max ps) = 0 + int i"
    using i nn first by (intro indexOf_from_first) auto
  moreover have "\<forall>j<length ps. ps ! j \<le> Math_max ps"
    using Math_max_ge [OF assms(1)] by simp
  ultimately show ?thesis
    using i first by (auto simp: indexOf_def)
qed

lemma is_Fin_no_NaN: "list_all is_Fin xs \<Longrightarrow> NaN \<notin> set xs"
  by (auto simp: list_all_iff)

lemma predict_first_maximum:
  assumes "models c \<noteq> []"
    and "list_all is_Fin (probabilities (fst (predict input c)))"
  shows "(\<exists>i<length (probabilities (fst (predict input c))).
            prediction (fst (predict input c)) = int i
          \<and> probabilities (fst (predict input c)) ! i = confidence (fst (predict input c))
          \<and> (\<forall>j<length (probabilities (fst (predict input c))).
                probabilities (fst (predict input c)) ! j \<le> confidence (fst (predict input c)))
          \<and> (\<forall>j<i. probabilities (fst (predict input c)) ! j
                      \<noteq> confidence (fst (predict input c))))
       \<and> (probabilities (fst (predict input c))
            = [Fin 0.3, Fin 0.3, Fin 0.1, Fin 0.1, Fin 0.1, Fin 0.1]
          \<longrightarrow> prediction (fst (predict input c)) = 0
              \<and> confidence (fst (predict input c)) = Fin 0.3)"
proof -
  let ?ps = "probabilities (fst (predict input c))"
  have ne: "?ps \<noteq> []" using assms(1) by (simp add: predict_fields)
  have tie: "prediction (fst (predict input c)) = 0 \<and> confidence (fst (predict input c)) = Fin 0.3"
    if "?ps = [Fin 0.3, Fin 0.3, Fin 0.1, Fin 0.1, Fin 0.1, Fin 0.1]"
    unfolding predict_fields(2,3) that
    by (simp add: Math_max_def indexOf_def strict_eq_def)
  from argmax_first [OF is_Fin_no_NaN [OF assms(2)] ne] tie
  show ?thesis
    unfolding predict_fields(2,3) by blast
qed

lemma exp_minus_500: "exp (- 500 :: real) \<le> 1 / 501"
proof -
  have "501 \<le> exp (500 :: real)"
    using exp_ge_add_one_self [of "500 :: real"] by simp
  then have "inverse (exp (500 :: real)) \<le> inverse 501"
    by (intro le_imp_inverse_le) simp_all
  then show ?thesis by (simp add: exp_minus inverse_eq_divide)
qed

lemma sigmoid_real_logit:
  assumes "1 / 501 \<le> q" and "q \<le> 1"
  shows "sigmoid_real (ln q) = q / (q + 1)"
proof -
  have q: "0 < q" using assms(1) by (rule less_le_trans [rotated]) simp
  have "exp (- 500) \<le> q" using exp_minus_500 assms(1) by linarith
  then have lo: "- 500 \<le> ln q" using q by (simp add: ln_ge_iff)
  have hi: "ln q \<le> 0" using q assms(2) by simp
  have "max (- 500) (min 500 (ln q)) = ln q" using lo hi by simp
  then have "sigmoid_real (ln q) = 1 / (1 + exp (- ln q))"
    by (simp add: sigmoid_real_def)
  also have "\<dots> = q / (q + 1)"
    using q by (simp add: exp_minus exp_ln field_simps)
  finally show ?thesis .
qed

lemma tie_normalize:
  "normalize_input form_input tie_classifier
     = [Fin 45, Fin 22, Fin 65, Fin 8, Fin 15, Fin 1013]"
  by (simp add: normalize_input_def tie_classifier_def mapi_def nth_num_def numeral_eq_Suc)

lemma tie_probability:
  assumes "1 / 501 \<le> q" and "q \<le> 1"
  shows "class_probability [Fin 45, Fin 22, Fin 65, Fin 8, Fin 15, Fin 1013] (tie_model (ln q))
           = Fin (q / (q + 1))"
  using sigmoid_real_logit [OF assms]
  by (simp add: class_probability_def tie_model_def reducei_def nth_num_def numeral_eq_Suc)

lemma tie_probabilities:
  "probabilities (fst (predict form_input tie_classifier))
     = [Fin 0.3, Fin 0.3, Fin 0.1, Fin 0.1, Fin 0.1, Fin 0.1]"
proof -
  have a: "class_probability [Fin 45, Fin 22, Fin 65, Fin 8, Fin 15, Fin 1013]
             (tie_model (ln (3 / 7))) = Fin 0.3"
    using tie_probability [of "3 / 7"] by simp
  have b: "class_probability [Fin 45, Fin 22, Fin 65, Fin 8, Fin 15, Fin 1013]
             (tie_model (ln (1 / 9))) = Fin 0.1"
    using tie_probability [of "1 / 9"] by simp
  have m: "models tie_classifier =
      [tie_model (ln (3 / 7)), tie_model (ln (3 / 7)), tie_model (ln (1 / 9)),
       tie_model (ln (1 / 9)), tie_model (ln (1 / 9)), tie_model (ln (1 / 9))]"
    by (simp add: tie_classifier_def)
  show ?thesis
    unfolding predict_fields(1) tie_normalize m
    by (simp only: list.map a b)
qed

lemma class_probability_spec:
  assumes "trained m" and "length (weights m) = length nf"
  shows "class_probability nf m = spec_probability (weights m) (bias m) nf"
proof -
  have "(\<Sum>j<length nf. nf ! j * nth_num (weights m) j) = (\<Sum>j<length nf. weights m ! j * nf ! j)"
    using assms(2) by (intro sum.cong refl) (simp add: nth_num_def times_number_commute)
  then show ?thesis
    using assms by (simp add: class_probability_def spec_probability_def reducei_sum add.commute)
qed

lemma normalize_input_spec:
  assumes "length (featureMins c) = 6" and "length (featureMaxs c) = 6"
  shows "normalize_input input c = spec_normalized c input"
  unfolding normalize_input_def spec_normalized_def mapi_eq_map_upt
  using assms by (simp add: nth_num_def del: upt_Suc)

lemma predict_spec_probabilities:
  assumes "\<forall>m \<in> set (models c). trained m \<and> length (weights m) = 6"
    and "length (featureMins c) = 6" and "length (featureMaxs c) = 6"
  shows "probabilities (fst (predict input c)) = spec_probabilities c input"
proof -
  have len: "length (spec_normalized c input) = 6" by (simp add: spec_normalized_def)
  show ?thesis
    unfolding predict_fields(1) normalize_input_spec [OF assms(2,3)] spec_probabilities_def
    using assms(1) len by (intro map_cong refl class_probability_spec) simp_all
qed

lemma predict_spec_argmax:
  assumes "models c \<noteq> []"
    and "\<forall>m \<in> set (models c). trained m \<and> length (weights m) = 6"
    and "length (featureMins c) = 6" and "length (featureMaxs c) = 6"
    and "list_all is_Fin (spec_probabilities c input)"
  shows "probabilities (fst (predict input c)) = spec_probabilities c input
       \<and> (\<exists>i<length (models c).
            prediction (fst (predict input c)) = int i
          \<and> confidence (fst (predict input c)) = spec_probabilities c input ! i
          \<and> (\<forall>j<length (models c).
                spec_probabilities c input ! j \<le> spec_probabilities c input ! i)
          \<and> (\<forall>j<i. spec_probabilities c input ! j \<noteq> spec_probabilities c input ! i))
       \<and> (spec_probabilities c input = [Fin 0.3, Fin 0.3, Fin 0.1, Fin 0.1, Fin 0.1, Fin 0.1]
          \<longrightarrow> prediction (fst (predict input c)) = 0
              \<and> confidence (fst (predict input c)) = Fin 0.3)"
proof -
  have eq: "probabilities (fst (predict input c)) = spec_probabilities c input"
    by (rule predict_spec_probabilities [OF assms(2-4)])
  have fin: "list_all is_Fin (probabilities (fst (predict input c)))"
    unfolding eq by (rule assms(5))
  have len: "length (spec_probabilities c input) = length (models c)"
    by (simp add: spec_probabilities_def)
  from predict_first_maximum [OF assms(1) fin] eq
  show ?thesis
    unfolding eq len by metis
qed

lemma switch_readings [simp]:
  "readings (switch_input p t) = [Fin p, Fin t, Fin 0, Fin 0, Fin 0, Fin 0]"
  by (simp add: readings_def switch_input_def)

lemma switch_normalize:
  "normalize_input (switch_input p t) switch_classifier = [Fin p, Fin t, Fin 0, Fin 0, Fin 0, Fin 0]"
  by (simp add: normalize_input_def switch_classifier_def mapi_def nth_num_def numeral_eq_Suc)

lemma sigmoid_ninth: "sigmoid_real (ln (1 / 9)) = 1 / 10"
  using sigmoid_real_logit [of "1 / 9"] by simp

lemma switch_probabilities:
  "probabilities (fst (predict (switch_input 0 1) switch_classifier))
     = [Fin 0.1, Fin 0.5, Fin 0.1, Fin 0.1, Fin 0.1, Fin 0.1]"
  "probabilities (fst (predict (switch_input 1 0) switch_classifier))
     = [Fin 0.5, Fin 0.1, Fin 0.1, Fin 0.1, Fin 0.1, Fin 0.1]"
  "probabilities (fst (predict (switch_input 0 0) switch_classifier))
     = [Fin 0.5, Fin 0.5, Fin 0.1, Fin 0.1, Fin 0.1, Fin 0.1]"
  unfolding predict_fields(1) switch_normalize
  by (simp_all add: switch_classifier_def switch_model_def tie_model_def class_probability_def
      reducei_def nth_num_def numeral_eq_Suc sigmoid_ninth)

lemma switch_shape:
  "models switch_classifier \<noteq> []"
  "\<forall>m \<in> set (models switch_classifier). trained m \<and> length (weights m) = 6"
  "length (featureMins switch_classifier) = 6" "length (featureMaxs switch_classifier) = 6"
  by (simp_all add: switch_classifier_def switch_model_def tie_model_def)

lemma tie_shape:
  "models tie_classifier \<noteq> []"
  "\<forall>m \<in> set (models tie_classifier). trained m \<and> length (weights m) = 6"
  "length (featureMins tie_classifier) = 6" "length (featureMaxs tie_classifier) = 6"
  by (simp_all add: tie_classifier_def tie_model_def)

text \<open>
  Claim C7: on a classifier whose models are trained, with six weights each and six
  bounds, for an input whose class probabilities are all real numbers, the
  probabilities that \<^verbatim>\<open>predict\<close> returns are those of the specification (the sigmoid of
  the linear score of each model on the readings normalised with the stored bounds);
  the prediction is the first index that holds the largest of them, and the confidence
  is that largest probability; for the probabilities [0.3, 0.3, 0.1, 0.1, 0.1, 0.1] the
  answer is class 0 with confidence 0.3.
\<close>

theorem predict_argmax:
  assumes "models c \<noteq> []"
    and "\<forall>m \<in> set (models c). trained m \<and> length (weights m) = 6"
    and "length (featureMins c) = 6" and "length (featureMaxs c) = 6"
    and "list_all is_Fin (spec_probabilities c input)"
  shows "probabilities (fst (predict input c)) = spec_probabilities c input
       \<and> (\<exists>i<length (models c).
            prediction (fst (predict input c)) = int i
          \<and> confidence (fst (predict input c)) = spec_probabilities c input ! i
          \<and> (\<forall>j<length (models c).
                spec_probabilities c input ! j \<le> spec_probabilities c input ! i)
          \<and> (\<forall>j<i. spec_probabilities c input ! j \<noteq> spec_probabilities c input ! i))
       \<and> (spec_probabilities c input = [Fin 0.3, Fin 0.3, Fin 0.1, Fin 0.1, Fin 0.1, Fin 0.1]
          \<longrightarrow> prediction (fst (predict input c)) = 0
              \<and> confidence (fst (predict input c)) = Fin 0.3)"
  using assms by (rule predict_spec_argmax)

theorem predict_argmax_witness:
  "spec_probabilities tie_classifier form_input
     = [Fin 0.3, Fin 0.3, Fin 0.1, Fin 0.1, Fin 0.1, Fin 0.1]
   \<and> probabilities (fst (predict form_input tie_classifier))
       = [Fin 0.3, Fin 0.3, Fin 0.1, Fin 0.1, Fin 0.1, Fin 0.1]
   \<and> prediction (fst (predict form_input tie_classifier)) = 0
   \<and> confidence (fst (predict form_input tie_classifier)) = Fin 0.3
   \<and> spec_probabilities switch_classifier (switch_input 0 1)
       = [Fin 0.1, Fin 0.5, Fin 0.1, Fin 0.1, Fin 0.1, Fin 0.1]
   \<and> probabilities (fst (predict (switch_input 0 1) switch_classifier))
       = [Fin 0.1, Fin 0.5, Fin 0.1, Fin 0.1, Fin 0.1, Fin 0.1]
   \<and> prediction (fst (predict (switch_input 0 1) switch_classifier)) = 1
   \<and> confidence (fst (predict (switch_input 0 1) switch_classifier)) = Fin 0.5
   \<and> spec_probabilities switch_classifier (switch_input 0 0)
       = [Fin 0.5, Fin 0.5, Fin 0.1, Fin 0.1, Fin 0.1, Fin 0.1]
   \<and> prediction (fst (predict (switch_input 0 0) switch_classifier)) = 0
   \<and> confidence (fst (predict (switch_input 0 0) switch_classifier)) = Fin 0.5
   \<and> list_all is_Fin (spec_probabilities trained_sample form_input)
   \<and> probabilities (fst (predict form_input trained_sample))
       = spec_probabilities trained_sample form_input
   \<and> (\<exists>i<6. prediction (fst (predict form_input trained_sample)) = int i
          \<and> confidence (fst (predict form_input trained_sample))
              = spec_probabilities trained_sample form_input ! i)"
proof -
  have six: "j < 6 \<longleftrightarrow> j = 0 \<or> j = 1 \<or> j = 2 \<or> j = 3 \<or> j = 4 \<or> j = (5::nat)" for j
    by auto
  have tie: "spec_probabilities tie_classifier form_input
               = [Fin 0.3, Fin 0.3, Fin 0.1, Fin 0.1, Fin 0.1, Fin 0.1]"
    using predict_spec_probabilities [OF tie_shape(2-4), of form_input] tie_probabilities
    by simp
  have tie_fin: "list_all is_Fin (spec_probabilities tie_classifier form_input)"
    unfolding tie by simp
  have up: "spec_probabilities switch_classifier (switch_input 0 1)
               = [Fin 0.1, Fin 0.5, Fin 0.1, Fin 0.1, Fin 0.1, Fin 0.1]"
    using predict_spec_probabilities [OF switch_shape(2-4), of "switch_input 0 1"]
      switch_probabilities(1)
    by simp
  have up_fin: "list_all is_Fin (spec_probabilities switch_classifier (switch_input 0 1))"
    unfolding up by simp
  have flat: "spec_probabilities switch_classifier (switch_input 0 0)
               = [Fin 0.5, Fin 0.5, Fin 0.1, Fin 0.1, Fin 0.1, Fin 0.1]"
    using predict_spec_probabilities [OF switch_shape(2-4), of "switch_input 0 0"]
      switch_probabilities(3)
    by simp
  have flat_fin: "list_all is_Fin (spec_probabilities switch_classifier (switch_input 0 0))"
    unfolding flat by simp
  have len: "length (models switch_classifier) = 6" by (simp add: switch_classifier_def)
  have t1: "models trained_sample \<noteq> []" using trained_sample_models by auto
  have t2: "\<forall>m \<in> set (models trained_sample). trained m \<and> length (weights m) = 6"
    using trained_sample_models by blast
  have t3: "length (featureMins trained_sample) = 6" "length (featureMaxs trained_sample) = 6"
    by (simp_all add: trained_sample_bounds)
  have t4: "list_all is_Fin (spec_probabilities trained_sample form_input)"
    using trained_sample_probabilities [of form_input "[0, 0, 1, 1, 1, 1]"]
      predict_spec_probabilities [OF t2 t3, of form_input]
    by (simp add: trained_sample_normalize)
  have tlen: "length (models trained_sample) = 6" using trained_sample_models by simp
  from predict_argmax [OF tie_shape tie_fin] tie
  have a: "probabilities (fst (predict form_input tie_classifier))
       = [Fin 0.3, Fin 0.3, Fin 0.1, Fin 0.1, Fin 0.1, Fin 0.1]"
    "prediction (fst (predict form_input tie_classifier)) = 0"
    "confidence (fst (predict form_input tie_classifier)) = Fin 0.3"
    by simp_all
  from predict_argmax [OF switch_shape up_fin]
  have b1: "probabilities (fst (predict (switch_input 0 1) switch_classifier))
       = [Fin 0.1, Fin 0.5, Fin 0.1, Fin 0.1, Fin 0.1, Fin 0.1]"
    unfolding up by blast
  from predict_argmax [OF switch_shape up_fin]
  obtain i where i: "i < 6"
    "prediction (fst (predict (switch_input 0 1) switch_classifier)) = int i"
    "confidence (fst (predict (switch_input 0 1) switch_classifier))
       = [Fin 0.1, Fin 0.5, Fin 0.1, Fin 0.1, Fin 0.1, Fin 0.1] ! i"
    and all: "\<forall>j<6. [Fin 0.1, Fin 0.5, Fin 0.1, Fin 0.1, Fin 0.1, Fin 0.1] ! j
       \<le> [Fin 0.1, Fin 0.5, Fin 0.1, Fin 0.1, Fin 0.1, Fin 0.1] ! i"
    unfolding up len by blast
  from all have "[Fin 0.1, Fin 0.5, Fin 0.1, Fin 0.1, Fin 0.1, Fin 0.1] ! 1
       \<le> [Fin 0.1, Fin 0.5, Fin 0.1, Fin 0.1, Fin 0.1, Fin 0.1] ! i"
    by (rule allE [of _ 1]) simp
  note i = i this
  from i(1,4) have "i = 1" by (auto simp: six)
  with i have b: "prediction (fst (predict (switch_input 0 1) switch_classifier)) = 1"
    "confidence (fst (predict (switch_input 0 1) switch_classifier)) = Fin 0.5"
    by simp_all
  from predict_argmax [OF switch_shape flat_fin]
  obtain k where k: "k < 6"
    "prediction (fst (predict (switch_input 0 0) switch_classifier)) = int k"
    "confidence (fst (predict (switch_input 0 0) switch_classifier))
       = [Fin 0.5, Fin 0.5, Fin 0.1, Fin 0.1, Fin 0.1, Fin 0.1] ! k"
    and allk: "\<forall>j<6. [Fin 0.5, Fin 0.5, Fin 0.1, Fin 0.1, Fin 0.1, Fin 0.1] ! j
       \<le> [Fin 0.5, Fin 0.5, Fin 0.1, Fin 0.1, Fin 0.1, Fin 0.1] ! k"
    and first: "\<forall>j<k. [Fin 0.5, Fin 0.5, Fin 0.1, Fin 0.1, Fin 0.1, Fin 0.1] ! j
            \<noteq> [Fin 0.5, Fin 0.5, Fin 0.1, Fin 0.1, Fin 0.1, Fin 0.1] ! k"
    unfolding flat len by blast
  have "k = 0"
  proof (rule ccontr)
    assume "k \<noteq> 0"
    then have "0 < k" by simp
    with first have ne: "[Fin 0.5, Fin 0.5, Fin 0.1, Fin 0.1, Fin 0.1, Fin 0.1] ! 0
            \<noteq> [Fin 0.5, Fin 0.5, Fin 0.1, Fin 0.1, Fin 0.1, Fin 0.1] ! k"
      by blast
    from allk have le: "[Fin 0.5, Fin 0.5, Fin 0.1, Fin 0.1, Fin 0.1, Fin 0.1] ! 0
       \<le> [Fin 0.5, Fin 0.5, Fin 0.1, Fin 0.1, Fin 0.1, Fin 0.1] ! k"
      by (rule allE [of _ 0]) simp
    from k(1) ne le show False by (auto simp: six)
  qed
  with k have c: "prediction (fst (predict (switch_input 0 0) switch_classifier)) = 0"
    "confidence (fst (predict (switch_input 0 0) switch_classifier)) = Fin 0.5"
    by simp_all
  from predict_argmax [OF t1 t2 t3 t4]
  have d: "probabilities (fst (predict form_input trained_sample))
       = spec_probabilities trained_sample form_input"
    "\<exists>i<6. prediction (fst (predict form_input trained_sample)) = int i
          \<and> confidence (fst (predict form_input trained_sample))
              = spec_probabilities trained_sample form_input ! i"
    unfolding tlen by blast+
  show ?thesis
    using tie a up b1 b flat c t4 d by simp
qed

section \<open>The bounds are fixed by training\<close>

lemma trained_probabilities:
  assumes "train data rnd c = (Inr (), c')"
  shows "probabilities (fst (predict input c')) =
           map (\<lambda>m. spec_probability (weights m) (bias m)
                  (map (\<lambda>i. (readings input ! i - Math_min (map (\<lambda>d. readings d ! i) data))
                            / (Math_max (map (\<lambda>d. readings d ! i) data)
                               - Math_min (map (\<lambda>d. readings d ! i) data))) [0..<6]))
             (models c')"
proof -
  have "data \<noteq> []"
    using assms by (auto simp: train_def extractFeatures_def)
  from train_succeeds [OF this, of rnd c] assms
  have shape: "\<forall>m \<in> set (models c'). trained m \<and> length (weights m) = 6"
    and mins: "featureMins c' = map (\<lambda>i. Math_min (map (\<lambda>d. readings d ! i) data)) [0..<6]"
    and maxs: "featureMaxs c' = map (\<lambda>i. Math_max (map (\<lambda>d. readings d ! i) data)) [0..<6]"
    by auto
  have lens: "length (featureMins c') = 6" "length (featureMaxs c') = 6"
    unfolding mins maxs by simp_all
  have "spec_normalized c' input = normalize_input input c'"
    by (rule normalize_input_spec [OF lens, symmetric])
  also have "\<dots> = map (\<lambda>i. (readings input ! i - Math_min (map (\<lambda>d. readings d ! i) data))
                            / (Math_max (map (\<lambda>d. readings d ! i) data)
                               - Math_min (map (\<lambda>d. readings d ! i) data))) [0..<6]"
    by (rule normalize_input_bounds [OF mins maxs])
  finally have n: "spec_normalized c' input =
      map (\<lambda>i. (readings input ! i - Math_min (map (\<lambda>d. readings d ! i) data))
                / (Math_max (map (\<lambda>d. readings d ! i) data)
                   - Math_min (map (\<lambda>d. readings d ! i) data))) [0..<6]" .
  show ?thesis
    unfolding predict_spec_probabilities [OF shape lens] spec_probabilities_def n ..
qed

lemma distant_readings [simp]:
  "readings distant_input = [Fin 195, Fin 18, Fin 65, Fin 8, Fin 15, Fin 1013]"
  by (simp add: readings_def distant_input_def)

text \<open>
  Claim C9: the bounds that \<^verbatim>\<open>train\<close> stores are the minimum and maximum of every
  column of the training records; no sequence of later \<^verbatim>\<open>predict\<close>, \<^verbatim>\<open>evaluate\<close>
  and \<^verbatim>\<open>getFeatureImportance\<close> calls changes the state of the classifier; after any
  such sequence \<^verbatim>\<open>predict\<close> normalises its input with exactly these bounds, and the
  probabilities it returns are the sigmoid of the linear score of each model on the
  readings normalised with them, whatever the input is; and \<^verbatim>\<open>predict\<close> and
  \<^verbatim>\<open>evaluate\<close> leave the state of any classifier as it was.
\<close>

theorem bounds_frozen:
  assumes "train data rnd c = (Inr (), c')"
  shows "featureMins c' = map (\<lambda>i. Math_min (map (\<lambda>d. readings d ! i) data)) [0..<6]
       \<and> featureMaxs c' = map (\<lambda>i. Math_max (map (\<lambda>d. readings d ! i) data)) [0..<6]
       \<and> run_calls calls c' = c'
       \<and> normalize_input input (run_calls calls c') =
           map (\<lambda>i. (readings input ! i - Math_min (map (\<lambda>d. readings d ! i) data))
                     / (Math_max (map (\<lambda>d. readings d ! i) data)
                        - Math_min (map (\<lambda>d. readings d ! i) data))) [0..<6]
       \<and> probabilities (fst (predict input (run_calls calls c'))) =
           map (\<lambda>m. spec_probability (weights m) (bias m)
                  (map (\<lambda>i. (readings input ! i - Math_min (map (\<lambda>d. readings d ! i) data))
                            / (Math_max (map (\<lambda>d. readings d ! i) data)
                               - Math_min (map (\<lambda>d. readings d ! i) data))) [0..<6]))
             (models c')
       \<and> prediction (fst (predict input (run_calls calls c')))
           = indexOf (probabilities (fst (predict input (run_calls calls c'))))
               (Math_max (probabilities (fst (predict input (run_calls calls c')))))
       \<and> confidence (fst (predict input (run_calls calls c')))
           = Math_max (probabilities (fst (predict input (run_calls calls c'))))
       \<and> snd (predict input s) = s \<and> snd (evaluate testData rnd' s) = s"
proof -
  have "data \<noteq> []"
    using assms by (auto simp: train_def extractFeatures_def)
  from train_succeeds [OF this, of rnd c] assms
  have mins: "featureMins c' = map (\<lambda>i. Math_min (map (\<lambda>d. readings d ! i) data)) [0..<6]"
    and maxs: "featureMaxs c' = map (\<lambda>i. Math_max (map (\<lambda>d. readings d ! i) data)) [0..<6]"
    by auto
  show ?thesis
    using mins maxs normalize_input_bounds [OF mins maxs, of input]
      trained_probabilities [OF assms, of input] predict_fields(2,3) [of input c']
    by simp
qed

theorem bounds_frozen_witness:
  "train sample_data half_draws new_MultiClassLogisticRegression = (Inr (), trained_sample)
   \<and> featureMins trained_sample = [Fin 45, Fin 22, Fin 40, Fin 2, Fin 3, Fin 1003]
   \<and> featureMaxs trained_sample = [Fin 120, Fin 30, Fin 65, Fin 8, Fin 15, Fin 1013]
   \<and> run_calls [Predict distant_input, Evaluate sample_data half_draws, GetFeatureImportance]
        trained_sample = trained_sample
   \<and> normalize_input distant_input
        (run_calls [Predict distant_input, Evaluate sample_data half_draws, GetFeatureImportance]
           trained_sample) = [Fin 2, Fin (- 1 / 2), Fin 1, Fin 1, Fin 1, Fin 1]
   \<and> probabilities (fst (predict distant_input
        (run_calls [Predict distant_input, Evaluate sample_data half_draws, GetFeatureImportance]
           trained_sample)))
       = map (\<lambda>m. spec_probability (weights m) (bias m)
                [Fin 2, Fin (- 1 / 2), Fin 1, Fin 1, Fin 1, Fin 1])
           (models trained_sample)
   \<and> prediction (fst (predict distant_input trained_sample))
       = indexOf (probabilities (fst (predict distant_input trained_sample)))
           (Math_max (probabilities (fst (predict distant_input trained_sample))))
   \<and> confidence (fst (predict distant_input trained_sample))
       = Math_max (probabilities (fst (predict distant_input trained_sample)))
   \<and> snd (predict distant_input trained_sample) = trained_sample
   \<and> snd (evaluate sample_data half_draws trained_sample) = trained_sample"
  using bounds_frozen [OF train_sample,
      of "[Predict distant_input, Evaluate sample_data half_draws, GetFeatureImportance]"
         distant_input trained_sample sample_data half_draws]
  by (simp add: train_sample map_sample_data Math_min_def Math_max_def upt_6)

section \<open>The metrics of a class\<close>

lemma ratio_or_zero:
  "or_zero (Fin (real a) / (Fin (real a) + Fin (real b)))
     = Fin (if a + b = 0 then 0 else real a / real (a + b))"
  by (simp add: or_zero_def)

lemma f1_or_zero:
  assumes "0 \<le> p" and "0 \<le> r"
  shows "or_zero (Fin 2 * (Fin p * Fin r) / (Fin p + Fin r))
           = Fin (if p = 0 \<and> r = 0 then 0 else 2 * (p * r) / (p + r))"
proof (cases "p + r = 0")
  case True
  with assms have "p = 0" "r = 0" by linarith+
  then show ?thesis by (simp add: or_zero_def)
next
  case False
  with assms have "\<not> (p = 0 \<and> r = 0)" by auto
  with False show ?thesis by (auto simp: or_zero_def)
qed

lemma reducei_skip:
  "reducei (\<lambda>sum x i. if i \<noteq> k then sum + g x else sum) xs (a :: nat)
     = a + (\<Sum>i\<leftarrow>filter (\<lambda>i. i \<noteq> k) [0..<length xs]. g (xs ! i))"
proof (induction xs rule: rev_induct)
  case Nil
  show ?case by simp
next
  case (snoc x xs)
  have m: "map (\<lambda>i. g ((xs @ [x]) ! i)) (filter P [0..<length xs])
        = map (\<lambda>i. g (xs ! i)) (filter P [0..<length xs])" for P
    by (rule map_cong [OF refl]) (simp add: nth_append)
  show ?case
  proof (cases "length xs = k")
    case True
    have "filter (\<lambda>i. i \<noteq> k) [0..<Suc (length xs)] = filter (\<lambda>i. i \<noteq> k) [0..<length xs]"
      using True by simp
    then show ?thesis
      unfolding reducei_snoc snoc.IH length_append_singleton
      using True m [of "\<lambda>i. i \<noteq> k"] by (simp only: if_False simp_thms)
  next
    case False
    have "filter (\<lambda>i. i \<noteq> k) [0..<Suc (length xs)]
            = filter (\<lambda>i. i \<noteq> k) [0..<length xs] @ [length xs]"
      using False by simp
    then show ?thesis
      unfolding reducei_snoc snoc.IH length_append_singleton
      using False m [of "\<lambda>i. i \<noteq> k"] by (simp only: if_True simp_thms map_append sum_list_append list.map sum_list.Cons sum_list.Nil nth_append_length add_0_right add.assoc)
  qed
qed

lemma false_positives_spec: "false_positives cm k = spec_fp cm k"
  unfolding false_positives_def spec_fp_def reducei_skip by simp

lemma false_negatives_spec: "false_negatives cm k = spec_fn cm k"
  unfolding false_negatives_def spec_fn_def
  using reducei_skip [of k "\<lambda>v. v" "cm ! k" 0] by simp

lemma class_metrics_spec:
  "class_metrics cm k = (Fin (spec_precision cm k), Fin (spec_recall cm k), Fin (spec_f1 cm k))"
proof -
  have p: "0 \<le> spec_precision cm k" and r: "0 \<le> spec_recall cm k"
    by (simp_all add: spec_precision_def spec_recall_def)
  have "class_metrics cm k
          = (Fin (spec_precision cm k), Fin (spec_recall cm k),
             or_zero (Fin 2 * (Fin (spec_precision cm k) * Fin (spec_recall cm k))
                      / (Fin (spec_precision cm k) + Fin (spec_recall cm k))))"
    unfolding class_metrics_def Let_def ratio_or_zero false_positives_spec false_negatives_spec
      true_positives_def spec_precision_def spec_recall_def spec_tp_def
    by (rule refl)
  also have "or_zero (Fin 2 * (Fin (spec_precision cm k) * Fin (spec_recall cm k))
                      / (Fin (spec_precision cm k) + Fin (spec_recall cm k)))
             = Fin (spec_f1 cm k)"
    unfolding f1_or_zero [OF p r] spec_f1_def ..
  finally show ?thesis .
qed

lemma fold_class_metrics:
  "fold (\<lambda>classIdx (tp, tr, tf).
           let (prec, rec, f1) = class_metrics cm classIdx
           in (tp + prec, tr + rec, tf + f1)) ks (Fin a, Fin b, Fin d)
   = (Fin (a + (\<Sum>k\<leftarrow>ks. spec_precision cm k)), Fin (b + (\<Sum>k\<leftarrow>ks. spec_recall cm k)),
      Fin (d + (\<Sum>k\<leftarrow>ks. spec_f1 cm k)))"
  by (induction ks arbitrary: a b d) (simp_all add: class_metrics_spec add.assoc)

lemma count_confusions_square:
  assumes "count_confusions cm pairs = Inr cm'" and "square n cm"
  shows "square n cm'"
proof -
  have "\<forall>(x, y) \<in> set pairs. 0 \<le> x \<and> x < int n"
  proof (rule ccontr)
    assume "\<not> (\<forall>(x, y) \<in> set pairs. 0 \<le> x \<and> x < int n)"
    then obtain x y where "(x, y) \<in> set pairs" "x < 0 \<or> int n \<le> x" by fastforce
    from count_confusions_bad_label [OF assms(2) this] assms(1) show False by simp
  qed
  from count_confusions_in_range [OF assms(2) this] assms(1) show ?thesis by auto
qed

lemma evaluate_metrics:
  assumes "evaluate testData rnd c = (Inr report, c')" and "numClasses c = 6"
  shows "square 6 (confusionMatrix report)
       \<and> precision report
           = Fin ((\<Sum>k\<leftarrow>[0..<6]. spec_precision (confusionMatrix report) k) / 6)
       \<and> recall report
           = Fin ((\<Sum>k\<leftarrow>[0..<6]. spec_recall (confusionMatrix report) k) / 6)
       \<and> f1Score report
           = Fin ((\<Sum>k\<leftarrow>[0..<6]. spec_f1 (confusionMatrix report) k) / 6)"
proof -
  let ?pairs = "map (\<lambda>d. (smogValue (smogLevel d), prediction (fst (predict (input_of d) c))))
                  testData"
  obtain cm where cm: "count_confusions (replicate 6 (replicate 6 0)) ?pairs = Inr cm"
    using assms by (cases "count_confusions (replicate 6 (replicate 6 0)) ?pairs")
      (simp_all add: evaluate_unfold)
  have sq: "square 6 cm"
    by (rule count_confusions_square [OF cm square_replicate])
  have z: "fold (\<lambda>classIdx (tp, tr, tf).
           let (prec, rec, f1) = class_metrics cm classIdx
           in (tp + prec, tr + rec, tf + f1)) [0..<6] (Fin 0, Fin 0, Fin 0)
   = (Fin (0 + (\<Sum>k\<leftarrow>[0..<6]. spec_precision cm k)), Fin (0 + (\<Sum>k\<leftarrow>[0..<6]. spec_recall cm k)),
      Fin (0 + (\<Sum>k\<leftarrow>[0..<6]. spec_f1 cm k)))"
    by (rule fold_class_metrics)
  from assms(1) [unfolded evaluate_unfold assms(2) cm sum.case z]
  have "confusionMatrix report = cm"
    "precision report = Fin ((\<Sum>k\<leftarrow>[0..<6]. spec_precision cm k) / 6)"
    "recall report = Fin ((\<Sum>k\<leftarrow>[0..<6]. spec_recall cm k) / 6)"
    "f1Score report = Fin ((\<Sum>k\<leftarrow>[0..<6]. spec_f1 cm k) / 6)"
    by (auto simp del: upt_Suc)
  with sq show ?thesis by simp
qed

lemma switch_record_fields [simp]:
  "input_of (switch_record p t v) = switch_input p t"
  "smogValue (smogLevel (switch_record p t v)) = v"
  by (simp_all add: input_of_def switch_record_def switch_input_def)

lemma switch_predictions:
  "prediction (fst (predict (switch_input 1 0) switch_classifier)) = 0"
  "prediction (fst (predict (switch_input 0 1) switch_classifier)) = 1"
  unfolding predict_fields(2) switch_probabilities
  by (simp_all add: Math_max_def indexOf_def strict_eq_def)

lemma switch_numClasses [simp]: "numClasses switch_classifier = 6"
  by (simp add: switch_classifier_def new_MultiClassLogisticRegression_def)

lemma switch_matrix:
  "count_confusions (replicate (numClasses switch_classifier)
        (replicate (numClasses switch_classifier) 0))
     (map (\<lambda>d. (smogValue (smogLevel d),
                 prediction (fst (predict (input_of d) switch_classifier)))) switch_data)
   = Inr [[1, 0, 0, 0, 0, 0], [1, 1, 0, 0, 0, 0], [1, 0, 0, 0, 0, 0],
          [0, 0, 0, 0, 0, 0], [0, 0, 0, 0, 0, 0], [0, 0, 0, 0, 0, 0]]"
proof -
  have pairs: "map (\<lambda>d. (smogValue (smogLevel d),
                 prediction (fst (predict (input_of d) switch_classifier)))) switch_data
               = [(0, 0), (1, 0), (1, 1), (2, 0)]"
    by (simp add: switch_data_def switch_predictions)
  show ?thesis
    unfolding pairs switch_numClasses
    by (simp add: increment_cell_def Let_def numeral_eq_Suc)
qed

text \<open>
  Claim C6: when \<^verbatim>\<open>evaluate\<close> returns a report, its confusion matrix has 6 rows of 6
  cells; the precision, recall and F1 that the loop computes for class \<open>k\<close> are those of
  the specification (\<open>tp/(tp+fp)\<close> and \<open>tp/(tp+fn)\<close>, 0 on a zero denominator, and
  \<open>2\<cdot>precision\<cdot>recall/(precision+recall)\<close>, 0 when both are 0); the precision, recall
  and F1 of the report are their averages over the 6 classes; and none of them is NaN.
\<close>

theorem evaluate_metrics_never_NaN:
  assumes "evaluate testData rnd c = (Inr report, c')" and "numClasses c = 6"
  shows "square 6 (confusionMatrix report)
       \<and> (\<forall>k<6. class_metrics (confusionMatrix report) k
                  = (Fin (spec_precision (confusionMatrix report) k),
                     Fin (spec_recall (confusionMatrix report) k),
                     Fin (spec_f1 (confusionMatrix report) k)))
       \<and> precision report
           = Fin ((\<Sum>k\<leftarrow>[0..<6]. spec_precision (confusionMatrix report) k) / 6)
       \<and> recall report
           = Fin ((\<Sum>k\<leftarrow>[0..<6]. spec_recall (confusionMatrix report) k) / 6)
       \<and> f1Score report
           = Fin ((\<Sum>k\<leftarrow>[0..<6]. spec_f1 (confusionMatrix report) k) / 6)
       \<and> (\<forall>k<6. spec_tp (confusionMatrix report) k = 0 \<and> spec_fp (confusionMatrix report) k = 0
                  \<longrightarrow> spec_precision (confusionMatrix report) k = 0)
       \<and> (\<forall>k<6. spec_tp (confusionMatrix report) k = 0 \<and> spec_fn (confusionMatrix report) k = 0
                  \<longrightarrow> spec_recall (confusionMatrix report) k = 0)
       \<and> (\<forall>k<6. spec_precision (confusionMatrix report) k = 0
                  \<and> spec_recall (confusionMatrix report) k = 0
                  \<longrightarrow> spec_f1 (confusionMatrix report) k = 0)
       \<and> precision report \<noteq> NaN \<and> recall report \<noteq> NaN \<and> f1Score report \<noteq> NaN"
  using evaluate_metrics [OF assms]
  by (simp add: class_metrics_spec spec_precision_def spec_recall_def spec_f1_def del: upt_Suc)

theorem evaluate_metrics_never_NaN_witness:
  "numClasses switch_classifier = 6
   \<and> map (\<lambda>d. smogValue (smogLevel d)) switch_data = [0, 1, 1, 2]
   \<and> map (\<lambda>d. prediction (fst (predict (input_of d) switch_classifier))) switch_data
       = [0, 0, 1, 0]
   \<and> (\<exists>report. evaluate switch_data half_draws switch_classifier
                   = (Inr report, switch_classifier)
        \<and> confusionMatrix report
            = [[1, 0, 0, 0, 0, 0], [1, 1, 0, 0, 0, 0], [1, 0, 0, 0, 0, 0],
               [0, 0, 0, 0, 0, 0], [0, 0, 0, 0, 0, 0], [0, 0, 0, 0, 0, 0]]
        \<and> class_metrics (confusionMatrix report) 0 = (Fin (1 / 3), Fin 1, Fin (1 / 2))
        \<and> class_metrics (confusionMatrix report) 1 = (Fin 1, Fin (1 / 2), Fin (2 / 3))
        \<and> class_metrics (confusionMatrix report) 2 = (Fin 0, Fin 0, Fin 0)
        \<and> class_metrics (confusionMatrix report) 3 = (Fin 0, Fin 0, Fin 0)
        \<and> precision report = Fin (2 / 9)
        \<and> recall report = Fin (1 / 4)
        \<and> f1Score report = Fin (7 / 36))"
proof -
  have n: "numClasses switch_classifier = 6" by (rule switch_numClasses)
  have labels: "map (\<lambda>d. smogValue (smogLevel d)) switch_data = [0, 1, 1, 2]"
    and predictions:
      "map (\<lambda>d. prediction (fst (predict (input_of d) switch_classifier))) switch_data
         = [0, 0, 1, 0]"
    by (simp_all add: switch_data_def switch_predictions)
  from evaluate_Inr [OF switch_matrix, of half_draws]
  obtain report where report:
    "evaluate switch_data half_draws switch_classifier = (Inr report, switch_classifier)"
    "confusionMatrix report
       = [[1, 0, 0, 0, 0, 0], [1, 1, 0, 0, 0, 0], [1, 0, 0, 0, 0, 0],
          [0, 0, 0, 0, 0, 0], [0, 0, 0, 0, 0, 0], [0, 0, 0, 0, 0, 0]]"
    by blast
  have tp: "spec_tp (confusionMatrix report) 0 = 1" "spec_tp (confusionMatrix report) (Suc 0) = 1"
    "spec_tp (confusionMatrix report) 2 = 0" "spec_tp (confusionMatrix report) 3 = 0"
    "spec_tp (confusionMatrix report) 4 = 0" "spec_tp (confusionMatrix report) 5 = 0"
    and fp: "spec_fp (confusionMatrix report) 0 = 2" "spec_fp (confusionMatrix report) (Suc 0) = 0"
    "spec_fp (confusionMatrix report) 2 = 0" "spec_fp (confusionMatrix report) 3 = 0"
    "spec_fp (confusionMatrix report) 4 = 0" "spec_fp (confusionMatrix report) 5 = 0"
    and fn: "spec_fn (confusionMatrix report) 0 = 0" "spec_fn (confusionMatrix report) (Suc 0) = 1"
    "spec_fn (confusionMatrix report) 2 = 1" "spec_fn (confusionMatrix report) 3 = 0"
    "spec_fn (confusionMatrix report) 4 = 0" "spec_fn (confusionMatrix report) 5 = 0"
    unfolding report(2) by (simp_all add: spec_tp_def spec_fp_def spec_fn_def upt_6)
  have p: "spec_precision (confusionMatrix report) 0 = 1 / 3"
    "spec_precision (confusionMatrix report) (Suc 0) = 1" "spec_precision (confusionMatrix report) 2 = 0"
    "spec_precision (confusionMatrix report) 3 = 0" "spec_precision (confusionMatrix report) 4 = 0"
    "spec_precision (confusionMatrix report) 5 = 0"
    and r: "spec_recall (confusionMatrix report) 0 = 1"
    "spec_recall (confusionMatrix report) (Suc 0) = 1 / 2" "spec_recall (confusionMatrix report) 2 = 0"
    "spec_recall (confusionMatrix report) 3 = 0" "spec_recall (confusionMatrix report) 4 = 0"
    "spec_recall (confusionMatrix report) 5 = 0"
    by (simp_all add: spec_precision_def spec_recall_def tp fp fn)
  have f: "spec_f1 (confusionMatrix report) 0 = 1 / 2"
    "spec_f1 (confusionMatrix report) (Suc 0) = 2 / 3" "spec_f1 (confusionMatrix report) 2 = 0"
    "spec_f1 (confusionMatrix report) 3 = 0" "spec_f1 (confusionMatrix report) 4 = 0"
    "spec_f1 (confusionMatrix report) 5 = 0"
    by (simp_all add: spec_f1_def p r)
  from evaluate_metrics_never_NaN [OF report(1) n]
  have "class_metrics (confusionMatrix report) 0 = (Fin (1 / 3), Fin 1, Fin (1 / 2))"
    "class_metrics (confusionMatrix report) 1 = (Fin 1, Fin (1 / 2), Fin (2 / 3))"
    "class_metrics (confusionMatrix report) 2 = (Fin 0, Fin 0, Fin 0)"
    "class_metrics (confusionMatrix report) 3 = (Fin 0, Fin 0, Fin 0)"
    "precision report = Fin (2 / 9)" "recall report = Fin (1 / 4)"
    "f1Score report = Fin (7 / 36)"
    by (simp_all add: upt_6 p r f)
  with n labels predictions report show ?thesis by blast
qed

section \<open>The sample classifier has a weight that is not zero\<close>

lemma train_classes_draws:
  "\<forall>m \<in> set (models (snd (train_classes fs labels rnd pos ks c))).
      m \<in> set (models c)
      \<or> (\<exists>k p. trainBinaryClassifier fs labels k (\<lambda>j. rnd (p + j)) = Inr m)"
proof (induction ks arbitrary: pos c)
  case Nil
  show ?case by simp
next
  case (Cons k ks)
  show ?case
  proof (cases "trainBinaryClassifier fs labels k (\<lambda>j. rnd (pos + j))")
    case (Inl e)
    then show ?thesis by simp
  next
    case (Inr m)
    from Cons.IH [of "pos + length (hd fs)" "c\<lparr>models := models c @ [m]\<rparr>"] Inr
    show ?thesis by auto
  qed
qed

lemma train_models_draws:
  assumes "data \<noteq> []"
  shows "\<forall>m \<in> set (models (snd (train data rnd c))).
           \<exists>k p. trainBinaryClassifier
                    (normalizeFeatures (map readings data)
                       (map (\<lambda>i. Math_min (map (\<lambda>d. readings d ! i) data)) [0..<6])
                       (map (\<lambda>i. Math_max (map (\<lambda>d. readings d ! i) data)) [0..<6]))
                    (map (\<lambda>d. smogValue (smogLevel d)) data) k (\<lambda>j. rnd (p + j)) = Inr m"
proof -
  let ?nf = "normalizeFeatures (map readings data)
               (map (\<lambda>i. Math_min (map (\<lambda>d. readings d ! i) data)) [0..<6])
               (map (\<lambda>i. Math_max (map (\<lambda>d. readings d ! i) data)) [0..<6])"
  let ?c2 = "c\<lparr>featureMins := map (\<lambda>i. Math_min (map (\<lambda>d. readings d ! i) data)) [0..<6],
               featureMaxs := map (\<lambda>i. Math_max (map (\<lambda>d. readings d ! i) data)) [0..<6],
               models := []\<rparr>"
  have "train data rnd c =
          train_classes ?nf (map (\<lambda>d. smogValue (smogLevel d)) data) rnd 0 [0..<numClasses c] ?c2"
    unfolding train_def extractFeatures_nonempty [OF assms] by (simp add: Let_def)
  then show ?thesis
    using train_classes_draws
      [of ?nf "map (\<lambda>d. smogValue (smogLevel d)) data" rnd 0 "[0..<numClasses c]" ?c2]
    by simp
qed

lemma sigmoid_real_range: "0 < sigmoid_real z \<and> sigmoid_real z < 1"
proof -
  have "0 < exp (- max (- 500) (min 500 z))" by simp
  then show ?thesis
    unfolding sigmoid_real_def by (simp add: add_pos_pos)
qed

lemma sigmoid_range:
  assumes "is_Fin z"
  shows "\<exists>q. sigmoid z = Fin q \<and> 0 < q \<and> q < 1"
  using assms sigmoid_real_range by (cases z) auto

lemma spec_probability_range:
  assumes "list_all is_Fin w" and "list_all is_Fin x" and "length x = length w" and "is_Fin b"
  shows "\<exists>q. spec_probability w b x = Fin q \<and> 0 < q \<and> q < 1"
proof -
  have "is_Fin ((\<Sum>j<length w. w ! j * x ! j) + b)"
    using assms by (intro is_Fin_plus is_Fin_sum is_Fin_times) (simp_all add: list_all_length)
  then show ?thesis
    unfolding spec_probability_def by (rule sigmoid_range)
qed

text \<open>
  On the two sample records, one epoch moves the weight of PM2.5 away from zero: down
  when the second record is not of the class, up when it is.
\<close>

lemma sample_epoch_first_weight:
  assumes "length w = 6" and "list_all is_Fin w" and "is_Fin b"
  shows "\<exists>q. 0 < q \<and> q < 1
           \<and> fst (spec_epoch
                    [[Fin 0, Fin 0, Fin 1, Fin 1, Fin 1, Fin 1],
                     [Fin 1, Fin 1, Fin 0, Fin 0, Fin 0, Fin 0]]
                    [Fin y0, Fin y1] (w, b)) ! 0
             = Fin (the_real (w ! 0) - 1 / 100 * ((q - y1) / 2 + 1 / 100 * the_real (w ! 0)))"
proof -
  let ?x0 = "[Fin 0, Fin 0, Fin 1, Fin 1, Fin 1, Fin 1]"
  let ?x1 = "[Fin 1, Fin 1, Fin 0, Fin 0, Fin 0, Fin 0]"
  from spec_probability_range [OF assms(2) _ _ assms(3), of ?x0] assms(1)
  obtain q0 where q0: "spec_probability w b ?x0 = Fin q0" by auto
  from spec_probability_range [OF assms(2) _ _ assms(3), of ?x1] assms(1)
  obtain q1 where q1: "spec_probability w b ?x1 = Fin q1" "0 < q1" "q1 < 1" by auto
  from assms(1,2) obtain w0 where w0: "w ! 0 = Fin w0"
    by (cases "w ! 0") (auto simp: list_all_length)
  have "fst (spec_epoch [?x0, ?x1] [Fin y0, Fin y1] (w, b)) ! 0
        = Fin (w0 - 1 / 100 * ((q1 - y1) / 2 + 1 / 100 * w0))"
    using assms(1)
    by (simp add: spec_epoch_def spec_mean_def lessThan_2 q0 q1 w0 del: upt_Suc)
  with q1 w0 show ?thesis by auto
qed

lemma sample_epochs_first_weight:
  assumes "y1 = 0 \<or> y1 = 1"
  shows "length (fst ((spec_epoch
                    [[Fin 0, Fin 0, Fin 1, Fin 1, Fin 1, Fin 1],
                     [Fin 1, Fin 1, Fin 0, Fin 0, Fin 0, Fin 0]]
                    [Fin y0, Fin y1] ^^ n) (replicate 6 (Fin 0), Fin 0))) = 6
       \<and> list_all is_Fin (fst ((spec_epoch
                    [[Fin 0, Fin 0, Fin 1, Fin 1, Fin 1, Fin 1],
                     [Fin 1, Fin 1, Fin 0, Fin 0, Fin 0, Fin 0]]
                    [Fin y0, Fin y1] ^^ n) (replicate 6 (Fin 0), Fin 0)))
       \<and> is_Fin (snd ((spec_epoch
                    [[Fin 0, Fin 0, Fin 1, Fin 1, Fin 1, Fin 1],
                     [Fin 1, Fin 1, Fin 0, Fin 0, Fin 0, Fin 0]]
                    [Fin y0, Fin y1] ^^ n) (replicate 6 (Fin 0), Fin 0)))
       \<and> (if y1 = 0
          then the_real (fst ((spec_epoch
                    [[Fin 0, Fin 0, Fin 1, Fin 1, Fin 1, Fin 1],
                     [Fin 1, Fin 1, Fin 0, Fin 0, Fin 0, Fin 0]]
                    [Fin y0, Fin y1] ^^ n) (replicate 6 (Fin 0), Fin 0)) ! 0) \<le> 0
          else 0 \<le> the_real (fst ((spec_epoch
                    [[Fin 0, Fin 0, Fin 1, Fin 1, Fin 1, Fin 1],
                     [Fin 1, Fin 1, Fin 0, Fin 0, Fin 0, Fin 0]]
                    [Fin y0, Fin y1] ^^ n) (replicate 6 (Fin 0), Fin 0)) ! 0))
       \<and> (0 < n \<longrightarrow> fst ((spec_epoch
                    [[Fin 0, Fin 0, Fin 1, Fin 1, Fin 1, Fin 1],
                     [Fin 1, Fin 1, Fin 0, Fin 0, Fin 0, Fin 0]]
                    [Fin y0, Fin y1] ^^ n) (replicate 6 (Fin 0), Fin 0)) ! 0 \<noteq> Fin 0)"
  (is "?len n \<and> ?fin n \<and> ?bias n \<and> ?sign n \<and> ?nz n")
proof (induction n)
  case 0
  show ?case by (simp add: numeral_eq_Suc)
next
  case (Suc n)
  let ?X = "[[Fin 0, Fin 0, Fin 1, Fin 1, Fin 1, Fin 1],
             [Fin 1, Fin 1, Fin 0, Fin 0, Fin 0, Fin 0]]"
  obtain w b where wb: "(spec_epoch ?X [Fin y0, Fin y1] ^^ n) (replicate 6 (Fin 0), Fin 0) = (w, b)"
    by (cases "(spec_epoch ?X [Fin y0, Fin y1] ^^ n) (replicate 6 (Fin 0), Fin 0)")
  from Suc.IH have w: "length w = 6" "list_all is_Fin w" "is_Fin b"
    and sign: "y1 = 0 \<Longrightarrow> the_real (w ! 0) \<le> 0" "y1 \<noteq> 0 \<Longrightarrow> 0 \<le> the_real (w ! 0)"
    unfolding wb by simp_all
  have step: "(spec_epoch ?X [Fin y0, Fin y1] ^^ Suc n) (replicate 6 (Fin 0), Fin 0)
              = spec_epoch ?X [Fin y0, Fin y1] (w, b)"
    by (simp add: wb)
  have fin: "list_all is_Fin (fst (spec_epoch ?X [Fin y0, Fin y1] (w, b)))
             \<and> is_Fin (snd (spec_epoch ?X [Fin y0, Fin y1] (w, b)))"
    by (rule spec_epoch_finite) (simp_all add: w)
  have len: "length (fst (spec_epoch ?X [Fin y0, Fin y1] (w, b))) = 6"
    by (simp add: w)
  from sample_epoch_first_weight [OF w, of y0 y1]
  obtain q where q: "0 < q" "q < 1"
    "fst (spec_epoch ?X [Fin y0, Fin y1] (w, b)) ! 0
       = Fin (the_real (w ! 0) - 1 / 100 * ((q - y1) / 2 + 1 / 100 * the_real (w ! 0)))"
    by blast
  have "the_real (w ! 0) - 1 / 100 * ((q - y1) / 2 + 1 / 100 * the_real (w ! 0)) < 0" if "y1 = 0"
    using that sign q by (simp add: field_simps)
  moreover
  have "0 < the_real (w ! 0) - 1 / 100 * ((q - y1) / 2 + 1 / 100 * the_real (w ! 0))" if "y1 = 1"
    using that sign q by (simp add: field_simps)
  ultimately show ?case
    unfolding step using fin len q(3) assms by auto
qed

lemma trained_sample_nonzero:
  "\<exists>m \<in> set (models trained_sample). \<exists>w \<in> set (weights m). w \<noteq> Fin 0"
proof -
  have ne: "sample_data \<noteq> []" by (simp add: sample_data_def)
  from trained_sample_models obtain m where m: "m \<in> set (models trained_sample)"
    by (cases "models trained_sample") auto
  let ?X = "[[Fin 0, Fin 0, Fin 1, Fin 1, Fin 1, Fin 1],
             [Fin 1, Fin 1, Fin 0, Fin 0, Fin 0, Fin 0]]"
  from train_models_draws [OF ne, of half_draws new_MultiClassLogisticRegression] m
  obtain k p where
    "trainBinaryClassifier ?X (map (\<lambda>d. smogValue (smogLevel d)) sample_data) k
       (\<lambda>j. half_draws (p + j)) = Inr m"
    unfolding trained_sample_def sample_normalized by blast
  then have t: "trainBinaryClassifier ?X [1, 3] k half_draws = Inr m"
    by (simp add: map_sample_data half_draws_def [abs_def])
  define y0 :: real where "y0 = (if 1 = int k then 1 else 0)"
  define y1 :: real where "y1 = (if 3 = int k then 1 else 0)"
  have ys: "map (\<lambda>l. if l = int k then Fin 1 else Fin 0) [1, 3] = [Fin y0, Fin y1]"
    by (simp add: y0_def y1_def)
  have w0: "map (\<lambda>j. (Fin (half_draws j) - Fin 0.5) * Fin 0.01) [0..<length (hd ?X)]
            = replicate 6 (Fin 0)"
    by (simp add: half_draws_def upt_6 numeral_eq_Suc)
  have "trainBinaryClassifier ?X [1, 3] k half_draws =
          Inr \<lparr>weights = fst ((spec_epoch ?X [Fin y0, Fin y1] ^^ 1000) (replicate 6 (Fin 0), Fin 0)),
               bias = snd ((spec_epoch ?X [Fin y0, Fin y1] ^^ 1000) (replicate 6 (Fin 0), Fin 0)),
               trained = True\<rparr>"
    using trainBinaryClassifier_funpow [of ?X "[1, 3]" k half_draws]
    unfolding ys w0 by simp
  with t have wm: "weights m = fst ((spec_epoch ?X [Fin y0, Fin y1] ^^ 1000) (replicate 6 (Fin 0), Fin 0))"
    by auto
  have "y1 = 0 \<or> y1 = 1" by (simp add: y1_def)
  from sample_epochs_first_weight [OF this, where ?y0.0 = y0 and n = 1000]
  have "length (weights m) = 6" "weights m ! 0 \<noteq> Fin 0"
    unfolding wm by simp_all
  then have "weights m ! 0 \<in> set (weights m)" "weights m ! 0 \<noteq> Fin 0"
    by simp_all
  with m show ?thesis by blast
qed

section \<open>Feature importance\<close>

lemma mset_insert_sorted [simp]: "mset (insert_sorted cmp x ys) = add_mset x (mset ys)"
  by (induction ys) simp_all

lemma mset_array_sort [simp]: "mset (array_sort cmp xs) = mset xs"
  unfolding array_sort_def by (induction xs) simp_all

lemma set_insert_sorted [simp]: "set (insert_sorted cmp x ys) = insert x (set ys)"
  by (induction ys) auto

lemma sorted_insert_sorted:
  assumes "sorted_wrt (\<lambda>a b. key b \<le> key a) ys"
    and "\<forall>a \<in> insert x (set ys). \<forall>b \<in> insert x (set ys). (Fin 0 < cmp a b) = (key a < key b)"
  shows "sorted_wrt (\<lambda>a b. (key b :: real) \<le> key a) (insert_sorted cmp x ys)"
  using assms
proof (induction ys)
  case Nil
  show ?case by simp
next
  case (Cons y ys)
  have c: "(Fin 0 < cmp x y) = (key x < key y)" using Cons.prems(2) by simp
  show ?case
  proof (cases "key x < key y")
    case True
    have "sorted_wrt (\<lambda>a b. key b \<le> key a) (insert_sorted cmp x ys)"
      using Cons.prems by (intro Cons.IH) auto
    with True Cons.prems(1) show ?thesis by (auto simp: c)
  next
    case False
    with Cons.prems(1) show ?thesis by (auto simp: c)
  qed
qed

lemma sorted_array_sort:
  assumes "\<forall>a \<in> set xs. \<forall>b \<in> set xs. (Fin 0 < cmp a b) = (key a < key b)"
  shows "sorted_wrt (\<lambda>a b. (key b :: real) \<le> key a) (array_sort cmp xs)"
  using assms
proof (induction xs)
  case Nil
  show ?case by (simp add: array_sort_def)
next
  case (Cons x xs)
  have set: "set (array_sort cmp xs) = set xs"
    by (metis mset_array_sort set_mset_mset)
  have "sorted_wrt (\<lambda>a b. key b \<le> key a) (array_sort cmp xs)"
    using Cons.prems by (intro Cons.IH) auto
  then have "sorted_wrt (\<lambda>a b. key b \<le> key a) (insert_sorted cmp x (array_sort cmp xs))"
    using Cons.prems by (intro sorted_insert_sorted) (auto simp: set)
  then show ?case by (simp add: array_sort_def)
qed

lemma fold_plus_Fin:
  assumes "\<forall>m \<in> set ms. g m = Fin (h m)"
  shows "fold (\<lambda>m s. s + g m) ms (Fin a) = Fin (a + (\<Sum>m\<leftarrow>ms. h m))"
  using assms by (induction ms arbitrary: a) (simp_all add: add.assoc)

lemma fold_max2_Fin:
  "fold (\<lambda>x acc. max2 acc x) (map Fin xs) (Fin a) = Fin (fold max xs a)"
  by (induction xs arbitrary: a) (simp_all add: max.commute)

lemma Math_max_Fin:
  assumes "xs \<noteq> []"
  shows "Math_max (map Fin xs) = Fin (Max (set xs))"
proof -
  from assms obtain x rest where xs: "xs = x # rest" by (cases xs) auto
  have "Math_max (map Fin xs) = Fin (fold max rest x)"
    unfolding xs Math_max_def by (simp add: fold_max2_Fin)
  also have "fold max rest x = Max (set (x # rest))"
    by (rule Max.set_eq_fold [symmetric])
  finally show ?thesis by (simp add: xs)
qed

lemma importance_scores:
  assumes "length (models c) = 6" and "length (featureNames c) = 6"
    and "\<forall>m \<in> set (models c). length (weights m) = 6 \<and> list_all is_Fin (weights m)"
  shows "mapi (\<lambda>name i.
                 \<lparr>feature = name,
                  importance =
                    fold (\<lambda>model sum. sum + Math_abs (nth_num (weights model) i))
                      (models c) (Fin 0)
                    / Fin (real (length (models c)))\<rparr>)
           (featureNames c)
         = map (\<lambda>i. \<lparr>feature = featureNames c ! i, importance = Fin (average_magnitude c i)\<rparr>)
             [0..<6]"
proof -
  have "fold (\<lambda>model sum. sum + Math_abs (nth_num (weights model) i)) (models c) (Fin 0)
          / Fin (real (length (models c)))
        = Fin (average_magnitude c i)" if "i < 6" for i
  proof -
    have "\<forall>m \<in> set (models c).
            Math_abs (nth_num (weights m) i) = Fin \<bar>the_real (weights m ! i)\<bar>"
    proof
      fix m assume m: "m \<in> set (models c)"
      with assms(3) that have "is_Fin (weights m ! i)" "i < length (weights m)"
        by (auto simp: list_all_length)
      then show "Math_abs (nth_num (weights m) i) = Fin \<bar>the_real (weights m ! i)\<bar>"
        by (cases "weights m ! i") (simp_all add: nth_num_def)
    qed
    from fold_plus_Fin [OF this, of 0]
    show ?thesis by (simp add: average_magnitude_def assms(1))
  qed
  then show ?thesis
    unfolding mapi_eq_map_upt assms(2) by (simp del: upt_Suc)
qed

lemma average_magnitude_nonneg: "0 \<le> average_magnitude c i"
  unfolding average_magnitude_def
  by (intro divide_nonneg_nonneg sum_list_nonneg) auto

lemma average_magnitude_pos:
  assumes "m \<in> set (models c)" and "i < length (weights m)" and "weights m ! i \<noteq> Fin 0"
    and "is_Fin (weights m ! i)"
  shows "0 < average_magnitude c i"
proof -
  have "0 < \<bar>the_real (weights m ! i)\<bar>"
    using assms(3,4) by (cases "weights m ! i") simp_all
  also have "\<dots> \<le> (\<Sum>m\<leftarrow>models c. \<bar>the_real (weights m ! i)\<bar>)"
    using assms(1) by (intro member_le_sum_list) auto
  finally have "0 < (\<Sum>m\<leftarrow>models c. \<bar>the_real (weights m ! i)\<bar>)" .
  moreover have "0 < length (models c)" using assms(1) by (cases "models c") auto
  ultimately show ?thesis by (simp add: average_magnitude_def)
qed

lemma getFeatureImportance_spec:
  assumes "length (models c) = 6" and "length (featureNames c) = 6"
    and "\<forall>m \<in> set (models c). length (weights m) = 6 \<and> list_all is_Fin (weights m)"
    and "\<exists>m \<in> set (models c). \<exists>w \<in> set (weights m). w \<noteq> Fin 0"
  shows "length (fst (getFeatureImportance c)) = 6
       \<and> mset (fst (getFeatureImportance c))
           = mset (map (\<lambda>i. \<lparr>feature = featureNames c ! i,
                               importance = Fin (spec_importance c i)\<rparr>) [0..<6])
       \<and> (\<forall>item \<in> set (fst (getFeatureImportance c)).
             Fin 0 \<le> importance item \<and> importance item \<le> Fin 1)
       \<and> Math_max (map importance (fst (getFeatureImportance c))) = Fin 1
       \<and> sorted_wrt (\<lambda>a b. importance b \<le> importance a) (fst (getFeatureImportance c))"
proof -
  define M where "M = Max (average_magnitude c ` {..<6})"
  define spec where "spec = map (\<lambda>i. \<lparr>feature = featureNames c ! i,
                               importance = Fin (spec_importance c i)\<rparr>) [0..<6]"
  let ?cmp = "\<lambda>a b :: feature_importance. importance b - importance a"
  let ?key = "\<lambda>a :: feature_importance. the_real (importance a)"
  let ?r = "fst (getFeatureImportance c)"
  have M_ge: "average_magnitude c i \<le> M" if "i < 6" for i
    unfolding M_def using that by (intro Max_ge) auto
  from assms(4) obtain m w where mw: "m \<in> set (models c)" "w \<in> set (weights m)" "w \<noteq> Fin 0"
    by blast
  then obtain i0 where i0: "i0 < length (weights m)" "weights m ! i0 = w"
    by (auto simp: in_set_conv_nth)
  with mw assms(3) have "i0 < 6" "is_Fin (weights m ! i0)"
    by (auto simp: list_all_length)
  with average_magnitude_pos [OF mw(1) i0(1)] mw(3) i0(2) M_ge [of i0]
  have M_pos: "0 < M" by simp
  have Mmax: "Math_max (map importance
                 (map (\<lambda>i. \<lparr>feature = featureNames c ! i,
                             importance = Fin (average_magnitude c i)\<rparr>) [0..<6]))
              = Fin M"
  proof -
    have "map importance
            (map (\<lambda>i. \<lparr>feature = featureNames c ! i,
                        importance = Fin (average_magnitude c i)\<rparr>) [0..<6])
          = map Fin (map (average_magnitude c) [0..<6])"
      by (simp del: upt_Suc)
    moreover have "set (map (average_magnitude c) [0..<6]) = average_magnitude c ` {..<6}"
      by (simp add: atLeast0LessThan del: upt_Suc)
    ultimately show ?thesis
      using Math_max_Fin [of "map (average_magnitude c) [0..<6]"]
      by (simp add: M_def comp_def del: upt_Suc)
  qed
  have r: "?r = array_sort ?cmp spec"
    unfolding getFeatureImportance_def Let_def importance_scores [OF assms(1-3)] Mmax spec_def
      spec_importance_def assms(2) M_def [symmetric]
    using M_pos by (simp add: comp_def del: upt_Suc)
  have spec_mem: "\<exists>i<6. importance item = Fin (average_magnitude c i / M)"
    if "item \<in> set spec" for item
    using that unfolding spec_def by (auto simp: spec_importance_def assms(2) M_def)
  have set_r: "set ?r = set spec"
    unfolding r by (metis mset_array_sort set_mset_mset)
  have fin: "importance item = Fin (?key item) \<and> 0 \<le> ?key item \<and> ?key item \<le> 1"
    if "item \<in> set spec" for item
  proof -
    from spec_mem [OF that] obtain i where i: "i < 6"
      "importance item = Fin (average_magnitude c i / M)" by blast
    with M_ge [OF i(1)] M_pos average_magnitude_nonneg [of c i]
    show ?thesis by simp
  qed
  have len: "length ?r = 6"
    using arg_cong [OF r, of "\<lambda>xs. size (mset xs)"] by (simp add: spec_def)
  have ms: "mset ?r = mset spec" unfolding r by simp
  have bounds: "\<forall>item \<in> set ?r. Fin 0 \<le> importance item \<and> importance item \<le> Fin 1"
  proof
    fix item assume "item \<in> set ?r"
    then have "item \<in> set spec" by (simp add: set_r)
    from fin [OF this] show "Fin 0 \<le> importance item \<and> importance item \<le> Fin 1"
      by (cases "importance item") simp_all
  qed
  have cmp: "\<forall>a \<in> set spec. \<forall>b \<in> set spec. (Fin 0 < ?cmp a b) = (?key a < ?key b)"
  proof (intro ballI)
    fix a b assume "a \<in> set spec" "b \<in> set spec"
    from fin [OF this(1)] fin [OF this(2)]
    have "importance a = Fin (?key a)" "importance b = Fin (?key b)" by simp_all
    then have "?cmp a b = Fin (?key b - ?key a)" by (metis Fin_minus)
    then show "(Fin 0 < ?cmp a b) = (?key a < ?key b)" by simp
  qed
  have "sorted_wrt (\<lambda>a b. ?key b \<le> ?key a) ?r"
    unfolding r by (rule sorted_array_sort [OF cmp])
  then have sorted: "sorted_wrt (\<lambda>a b. importance b \<le> importance a) ?r"
  proof (rule sorted_wrt_mono_rel [rotated])
    fix a b assume "a \<in> set ?r" "b \<in> set ?r" "?key b \<le> ?key a"
    with fin [of a] fin [of b] set_r
    show "importance b \<le> importance a"
      by (cases "importance a"; cases "importance b") simp_all
  qed
  have top: "Math_max (map importance ?r) = Fin 1"
  proof -
    have eq: "map importance ?r = map Fin (map ?key ?r)"
      using fin set_r by (auto intro!: nth_equalityI simp: map_nth)
    have ne: "map ?key ?r \<noteq> []" using len by auto
    have "Math_max (map importance ?r) = Math_max (map Fin (map ?key ?r))"
      by (simp only: eq)
    also have "\<dots> = Fin (Max (set (map ?key ?r)))"
      by (rule Math_max_Fin [OF ne])
    finally have "Math_max (map importance ?r) = Fin (Max (set (map ?key ?r)))" .
    moreover have "Max (set (map ?key ?r)) = 1"
    proof (rule Max_eqI)
      show "finite (set (map ?key ?r))" by simp
      show "y \<le> 1" if "y \<in> set (map ?key ?r)" for y
        using that fin set_r by auto
      have "M \<in> average_magnitude c ` {..<6}"
        unfolding M_def by (intro Max_in) (auto simp: lessThan_empty_iff)
      then obtain i where i: "i < 6" "average_magnitude c i = M" by auto
      let ?item = "\<lparr>feature = featureNames c ! i, importance = Fin (spec_importance c i)\<rparr>"
      have "?item \<in> set spec" using i(1) unfolding spec_def by (auto simp del: upt_Suc)
      moreover have "?key ?item = 1"
        using i M_pos by (simp add: spec_importance_def assms(2) M_def [symmetric])
      ultimately show "1 \<in> set (map ?key ?r)"
        unfolding set_map set_r by (metis imageI)
    qed
    ultimately show ?thesis by simp
  qed
  from len ms bounds top sorted show ?thesis
    unfolding spec_def by blast
qed

lemma ranked_importance:
  "fst (getFeatureImportance ranked_classifier) =
     [\<lparr>feature = ''Temperature'', importance = Fin 1\<rparr>,
      \<lparr>feature = ''Visibility'', importance = Fin (3 / 4)\<rparr>,
      \<lparr>feature = ''Humidity'', importance = Fin (1 / 2)\<rparr>,
      \<lparr>feature = ''Pressure'', importance = Fin (1 / 2)\<rparr>,
      \<lparr>feature = ''PM2.5'', importance = Fin (1 / 4)\<rparr>,
      \<lparr>feature = ''Wind Speed'', importance = Fin 0\<rparr>]"
  by (simp add: getFeatureImportance_def ranked_classifier_def ranked_model_def
      new_MultiClassLogisticRegression_def mapi_def nth_num_def Math_max_def array_sort_def
      numeral_eq_Suc)

text \<open>
  Claim C4 says that every classifier with 6 trained models and a weight that is not
  zero gets scores in [0,1] with maximum 1.  The classifier trained on a single record
  has 6 trained models whose weights are all NaN, hence not zero, and its six scores are
  NaN.
\<close>

theorem importance_fails_on_NaN:
  "train [sample_record] half_draws new_MultiClassLogisticRegression
     = (Inr (), degenerate_classifier)
   \<and> length (models degenerate_classifier) = 6
   \<and> list_all (\<lambda>m. trained m \<and> length (weights m) = 6) (models degenerate_classifier)
   \<and> list_ex (\<lambda>m. list_ex (\<lambda>w. w \<noteq> Fin 0) (weights m)) (models degenerate_classifier)
   \<and> map importance (fst (getFeatureImportance degenerate_classifier)) = replicate 6 NaN
   \<and> Math_max (map importance (fst (getFeatureImportance degenerate_classifier))) \<noteq> Fin 1"
proof -
  have names: "featureNames degenerate_classifier
                 = [''PM2.5'', ''Temperature'', ''Humidity'', ''Wind Speed'',
                    ''Visibility'', ''Pressure'']"
    using train_succeeds [of "[sample_record]" half_draws new_MultiClassLogisticRegression]
    by (auto simp: degenerate_classifier_def new_MultiClassLogisticRegression_def)
  have scores: "map importance (fst (getFeatureImportance degenerate_classifier)) = replicate 6 NaN"
    by (simp add: getFeatureImportance_def degenerate_models names NaN_model_def mapi_def
        nth_num_def array_sort_def numeral_eq_Suc)
  have shape: "length (models degenerate_classifier) = 6"
    "list_all (\<lambda>m. trained m \<and> length (weights m) = 6) (models degenerate_classifier)"
    "list_ex (\<lambda>m. list_ex (\<lambda>w. w \<noteq> Fin 0) (weights m)) (models degenerate_classifier)"
    by (simp_all add: degenerate_models NaN_model_def numeral_eq_Suc)
  have "Math_max (map importance (fst (getFeatureImportance degenerate_classifier))) \<noteq> Fin 1"
    unfolding scores by (simp add: numeral_eq_Suc)
  with train_degenerate scores shape show ?thesis by simp
qed

text \<open>
  Claim C4 as amended: for a classifier with 6 trained models of 6 weights each, every
  weight a finite number and one of them not zero, \<^verbatim>\<open>getFeatureImportance\<close> returns 6
  scores; they are the scores of the specification (the absolute weight of each feature
  averaged over the models, divided by the largest average), listed in some order;
  every score is in [0,1]; the largest is exactly 1; and the list is in descending
  order of score.
\<close>

theorem feature_importance_normalized:
  assumes "length (models c) = 6" and "length (featureNames c) = 6"
    and "\<forall>m \<in> set (models c). trained m \<and> length (weights m) = 6 \<and> list_all is_Fin (weights m)"
    and "\<exists>m \<in> set (models c). \<exists>w \<in> set (weights m). w \<noteq> Fin 0"
  shows "length (fst (getFeatureImportance c)) = 6
       \<and> mset (fst (getFeatureImportance c))
           = mset (map (\<lambda>i. \<lparr>feature = featureNames c ! i,
                               importance = Fin (spec_importance c i)\<rparr>) [0..<6])
       \<and> (\<forall>item \<in> set (fst (getFeatureImportance c)).
             Fin 0 \<le> importance item \<and> importance item \<le> Fin 1)
       \<and> Math_max (map importance (fst (getFeatureImportance c))) = Fin 1
       \<and> sorted_wrt (\<lambda>a b. importance b \<le> importance a) (fst (getFeatureImportance c))"
  using assms by (intro getFeatureImportance_spec) auto


theorem feature_importance_normalized_witness:
  "length (models ranked_classifier) = 6 \<and> length (featureNames ranked_classifier) = 6
   \<and> list_all (\<lambda>m. trained m \<and> length (weights m) = 6 \<and> list_all is_Fin (weights m))
        (models ranked_classifier)
   \<and> weights (models ranked_classifier ! 0) ! 0 = Fin 1
   \<and> fst (getFeatureImportance ranked_classifier) =
       [\<lparr>feature = ''Temperature'', importance = Fin 1\<rparr>,
        \<lparr>feature = ''Visibility'', importance = Fin (3 / 4)\<rparr>,
        \<lparr>feature = ''Humidity'', importance = Fin (1 / 2)\<rparr>,
        \<lparr>feature = ''Pressure'', importance = Fin (1 / 2)\<rparr>,
        \<lparr>feature = ''PM2.5'', importance = Fin (1 / 4)\<rparr>,
        \<lparr>feature = ''Wind Speed'', importance = Fin 0\<rparr>]
   \<and> Math_max (map importance (fst (getFeatureImportance ranked_classifier))) = Fin 1
   \<and> sorted_wrt (\<lambda>a b. importance b \<le> importance a)
        (fst (getFeatureImportance ranked_classifier))
   \<and> length (models trained_sample) = 6 \<and> length (featureNames trained_sample) = 6
   \<and> list_all (\<lambda>m. trained m \<and> length (weights m) = 6 \<and> list_all is_Fin (weights m))
        (models trained_sample)
   \<and> list_ex (\<lambda>m. list_ex (\<lambda>w. w \<noteq> Fin 0) (weights m)) (models trained_sample)
   \<and> length (fst (getFeatureImportance trained_sample)) = 6
   \<and> Math_max (map importance (fst (getFeatureImportance trained_sample))) = Fin 1
   \<and> sorted_wrt (\<lambda>a b. importance b \<le> importance a)
        (fst (getFeatureImportance trained_sample))"
proof -
  have h1: "length (models ranked_classifier) = 6"
    and h2: "length (featureNames ranked_classifier) = 6"
    by (simp_all add: ranked_classifier_def new_MultiClassLogisticRegression_def)
  have ms: "set (models ranked_classifier) = {ranked_model}"
    by (simp add: ranked_classifier_def)
  have h3: "\<forall>m \<in> set (models ranked_classifier).
              trained m \<and> length (weights m) = 6 \<and> list_all is_Fin (weights m)"
    unfolding ms by (simp add: ranked_model_def)
  have h4: "\<exists>m \<in> set (models ranked_classifier). \<exists>w \<in> set (weights m). w \<noteq> Fin 0"
    unfolding ms by (simp add: ranked_model_def)
  have w: "weights (models ranked_classifier ! 0) ! 0 = Fin 1"
    by (simp add: ranked_classifier_def ranked_model_def)
  have t1: "length (models trained_sample) = 6" using trained_sample_models by simp
  have t2: "length (featureNames trained_sample) = 6"
    by (simp add: trained_sample_bounds new_MultiClassLogisticRegression_def)
  have t3: "\<forall>m \<in> set (models trained_sample).
              trained m \<and> length (weights m) = 6 \<and> list_all is_Fin (weights m)"
    using trained_sample_models by simp
  note t4 = trained_sample_nonzero
  from feature_importance_normalized [OF h1 h2 h3 h4] h1 h2 h3 w ranked_importance
  have ranked: "length (models ranked_classifier) = 6 \<and> length (featureNames ranked_classifier) = 6
   \<and> list_all (\<lambda>m. trained m \<and> length (weights m) = 6 \<and> list_all is_Fin (weights m))
        (models ranked_classifier)
   \<and> weights (models ranked_classifier ! 0) ! 0 = Fin 1
   \<and> fst (getFeatureImportance ranked_classifier) =
       [\<lparr>feature = ''Temperature'', importance = Fin 1\<rparr>,
        \<lparr>feature = ''Visibility'', importance = Fin (3 / 4)\<rparr>,
        \<lparr>feature = ''Humidity'', importance = Fin (1 / 2)\<rparr>,
        \<lparr>feature = ''Pressure'', importance = Fin (1 / 2)\<rparr>,
        \<lparr>feature = ''PM2.5'', importance = Fin (1 / 4)\<rparr>,
        \<lparr>feature = ''Wind Speed'', importance = Fin 0\<rparr>]
   \<and> Math_max (map importance (fst (getFeatureImportance ranked_classifier))) = Fin 1
   \<and> sorted_wrt (\<lambda>a b. importance b \<le> importance a)
        (fst (getFeatureImportance ranked_classifier))"
    by (simp add: list_all_iff)
  from feature_importance_normalized [OF t1 t2 t3 t4] t1 t2 t3 t4
  have sample: "length (models trained_sample) = 6 \<and> length (featureNames trained_sample) = 6
   \<and> list_all (\<lambda>m. trained m \<and> length (weights m) = 6 \<and> list_all is_Fin (weights m))
        (models trained_sample)
   \<and> list_ex (\<lambda>m. list_ex (\<lambda>w. w \<noteq> Fin 0) (weights m)) (models trained_sample)
   \<and> length (fst (getFeatureImportance trained_sample)) = 6
   \<and> Math_max (map importance (fst (getFeatureImportance trained_sample))) = Fin 1
   \<and> sorted_wrt (\<lambda>a b. importance b \<le> importance a)
        (fst (getFeatureImportance trained_sample))"
    by (simp add: list_all_iff list_ex_iff)
  from ranked sample show ?thesis by blast
qed

section \<open>Trained weights are all finite or all NaN\<close>

text \<open>
  A column of the training set in which every record has the same value is normalised
  to 0/0: every row of the matrix then holds a NaN, the first epoch turns every weight
  and every bias into NaN, and they stay so.  When no column is constant the matrix is
  finite and so is every weight.  For records of finite readings there is no third case.
\<close>

lemma fold_min2_Fin:
  "fold (\<lambda>x acc. min2 acc x) (map Fin xs) (Fin a) = Fin (fold min xs a)"
  by (induction xs arbitrary: a) (simp_all add: min.commute)

lemma Math_min_Fin:
  assumes "xs \<noteq> []"
  shows "Math_min (map Fin xs) = Fin (Min (set xs))"
proof -
  from assms obtain x rest where xs: "xs = x # rest" by (cases xs) auto
  have "Math_min (map Fin xs) = Fin (fold min rest x)"
    unfolding xs Math_min_def by (simp add: fold_min2_Fin)
  also have "fold min rest x = Min (set (x # rest))"
    by (rule Min.set_eq_fold [symmetric])
  finally show ?thesis by (simp add: xs)
qed

lemma spec_probability_NaN_at:
  assumes "i0 < length w" and "x ! i0 = NaN"
  shows "spec_probability w b x = NaN"
proof -
  have "(\<Sum>j<length w. w ! j * x ! j) = NaN"
    using assms by (intro sum_NaN [of _ i0]) simp_all
  then show ?thesis by (simp add: spec_probability_def)
qed

lemma spec_epoch_NaN_at:
  assumes "X \<noteq> []" and "\<forall>x \<in> set X. x ! i0 = NaN" and "i0 < length w"
  shows "spec_epoch X ys (w, b) = (replicate (length w) NaN, NaN)"
proof -
  have p: "spec_probability w b (X ! i) = NaN" if "i < length X" for i
    using that assms(2) by (intro spec_probability_NaN_at [OF assms(3)]) simp
  have n: "0 < length X" using assms(1) by simp
  have "spec_mean (length X) (\<lambda>i. (spec_probability w b (X ! i) - ys ! i) * X ! i ! j) = NaN" for j
  proof -
    have "(\<Sum>i<length X. (spec_probability w b (X ! i) - ys ! i) * X ! i ! j) = NaN"
      using n by (intro sum_NaN [of _ 0]) (simp_all add: p)
    then show ?thesis by (simp add: spec_mean_def)
  qed
  moreover have "spec_mean (length X) (\<lambda>i. spec_probability w b (X ! i) - ys ! i) = NaN"
  proof -
    have "(\<Sum>i<length X. spec_probability w b (X ! i) - ys ! i) = NaN"
      using n by (intro sum_NaN [of _ 0]) (simp_all add: p)
    then show ?thesis by (simp add: spec_mean_def)
  qed
  ultimately show ?thesis
    unfolding spec_epoch_def by (simp add: map_replicate_const)
qed

lemma trainBinaryClassifier_NaN_at:
  assumes "X \<noteq> []" and "\<forall>x \<in> set X. length x = length (hd X)"
    and "length labels = length X"
    and "i0 < length (hd X)" and "\<forall>x \<in> set X. x ! i0 = NaN"
  shows "trainBinaryClassifier X labels k rnd =
           Inr \<lparr>weights = replicate (length (hd X)) NaN, bias = NaN, trained = True\<rparr>"
proof -
  let ?ys = "map (\<lambda>l. if l = int k then Fin 1 else Fin 0) labels"
  let ?w0 = "map (\<lambda>j. (Fin (rnd j) - Fin 0.5) * Fin 0.01) [0..<length (hd X)]"
  obtain w b where wb: "(spec_epoch X ?ys ^^ 999) (?w0, Fin 0) = (w, b)"
    by (cases "(spec_epoch X ?ys ^^ 999) (?w0, Fin 0)")
  have "length (fst ((spec_epoch X ?ys ^^ 999) (?w0, Fin 0))) = length (fst (?w0, Fin 0))"
    by (rule length_funpow_spec_epoch)
  then have len: "length w = length (hd X)"
    unfolding wb by simp
  have "(spec_epoch X ?ys ^^ 1000) (?w0, Fin 0)
        = spec_epoch X ?ys ((spec_epoch X ?ys ^^ 999) (?w0, Fin 0))"
    using funpow.simps(2) [of 999 "spec_epoch X ?ys"] by simp
  also have "\<dots> = (replicate (length (hd X)) NaN, NaN)"
    unfolding wb using spec_epoch_NaN_at [OF assms(1) assms(5), of w ?ys b] assms(4) len by simp
  finally have r: "(spec_epoch X ?ys ^^ 1000) (?w0, Fin 0) = (replicate (length (hd X)) NaN, NaN)" .
  show ?thesis
    unfolding trainBinaryClassifier_funpow [OF assms(1-3)] r by simp
qed

lemma normalized_entry:
  assumes "d \<in> set data" and "i < 6"
    and fin: "\<forall>d \<in> set data. list_all is_Fin (readings d)"
  shows "mapi (\<lambda>v i. (v - nth_num (map (\<lambda>i. Math_min (map (\<lambda>d. readings d ! i) data)) [0..<6]) i)
                  / (nth_num (map (\<lambda>i. Math_max (map (\<lambda>d. readings d ! i) data)) [0..<6]) i
                     - nth_num (map (\<lambda>i. Math_min (map (\<lambda>d. readings d ! i) data)) [0..<6]) i))
           (readings d) ! i
         = Fin (the_real (readings d ! i) - Min ((\<lambda>d. the_real (readings d ! i)) ` set data))
           / Fin (Max ((\<lambda>d. the_real (readings d ! i)) ` set data)
                  - Min ((\<lambda>d. the_real (readings d ! i)) ` set data))"
proof -
  have ne: "map (\<lambda>d. the_real (readings d ! i)) data \<noteq> []" using assms(1) by auto
  have F: "is_Fin (readings e ! i)" if "e \<in> set data" for e
    using fin that assms(2) by (simp add: list_all_length)
  have col: "map (\<lambda>d. readings d ! i) data = map Fin (map (\<lambda>d. the_real (readings d ! i)) data)"
    using F by simp
  have mn: "Math_min (map (\<lambda>d. readings d ! i) data)
            = Fin (Min ((\<lambda>d. the_real (readings d ! i)) ` set data))"
    unfolding col Math_min_Fin [OF ne] by simp
  have mx: "Math_max (map (\<lambda>d. readings d ! i) data)
            = Fin (Max ((\<lambda>d. the_real (readings d ! i)) ` set data))"
    unfolding col Math_max_Fin [OF ne] by simp
  have v: "readings d ! i = Fin (the_real (readings d ! i))"
    using F [OF assms(1)] by simp
  have "mapi (\<lambda>v i. (v - nth_num (map (\<lambda>i. Math_min (map (\<lambda>d. readings d ! i) data)) [0..<6]) i)
                  / (nth_num (map (\<lambda>i. Math_max (map (\<lambda>d. readings d ! i) data)) [0..<6]) i
                     - nth_num (map (\<lambda>i. Math_min (map (\<lambda>d. readings d ! i) data)) [0..<6]) i))
           (readings d) ! i
        = (readings d ! i - Math_min (map (\<lambda>d. readings d ! i) data))
          / (Math_max (map (\<lambda>d. readings d ! i) data) - Math_min (map (\<lambda>d. readings d ! i) data))"
    using assms(2) by (simp add: nth_num_def)
  also have "\<dots> = (Fin (the_real (readings d ! i)) - Fin (Min ((\<lambda>d. the_real (readings d ! i)) ` set data)))
          / (Fin (Max ((\<lambda>d. the_real (readings d ! i)) ` set data))
             - Fin (Min ((\<lambda>d. the_real (readings d ! i)) ` set data)))"
    unfolding mn mx using v by simp
  finally show ?thesis by simp
qed

lemma normalized_finite_or_NaN:
  assumes "data \<noteq> []" and fin: "\<forall>d \<in> set data. list_all is_Fin (readings d)"
  defines "nf \<equiv> normalizeFeatures (map readings data)
                  (map (\<lambda>i. Math_min (map (\<lambda>d. readings d ! i) data)) [0..<6])
                  (map (\<lambda>i. Math_max (map (\<lambda>d. readings d ! i) data)) [0..<6])"
  shows "(\<forall>x \<in> set nf. list_all is_Fin x) \<or> (\<exists>i0<6. \<forall>x \<in> set nf. x ! i0 = NaN)"
proof (cases "\<forall>i<6. Max ((\<lambda>d. the_real (readings d ! i)) ` set data)
                    \<noteq> Min ((\<lambda>d. the_real (readings d ! i)) ` set data)")
  case True
  have "list_all is_Fin x" if "x \<in> set nf" for x
  proof -
    from that obtain d where d: "d \<in> set data" and x: "x = mapi (\<lambda>v i. (v - nth_num (map (\<lambda>i. Math_min (map (\<lambda>d. readings d ! i) data)) [0..<6]) i)
                  / (nth_num (map (\<lambda>i. Math_max (map (\<lambda>d. readings d ! i) data)) [0..<6]) i
                     - nth_num (map (\<lambda>i. Math_min (map (\<lambda>d. readings d ! i) data)) [0..<6]) i))
           (readings d)"
      unfolding nf_def normalizeFeatures_def by auto
    have "is_Fin (x ! i)" if "i < 6" for i
      unfolding x normalized_entry [OF d that fin] using True that by simp
    moreover have "length x = 6" unfolding x by simp
    ultimately show ?thesis by (simp add: list_all_length)
  qed
  then show ?thesis by blast
next
  case False
  then obtain i0 where i0: "i0 < 6"
    and eq: "Max ((\<lambda>d. the_real (readings d ! i0)) ` set data)
             = Min ((\<lambda>d. the_real (readings d ! i0)) ` set data)"
    by blast
  have "x ! i0 = NaN" if "x \<in> set nf" for x
  proof -
    from that obtain d where d: "d \<in> set data" and x: "x = mapi (\<lambda>v i. (v - nth_num (map (\<lambda>i. Math_min (map (\<lambda>d. readings d ! i) data)) [0..<6]) i)
                  / (nth_num (map (\<lambda>i. Math_max (map (\<lambda>d. readings d ! i) data)) [0..<6]) i
                     - nth_num (map (\<lambda>i. Math_min (map (\<lambda>d. readings d ! i) data)) [0..<6]) i))
           (readings d)"
      unfolding nf_def normalizeFeatures_def by auto
    have le: "the_real (readings d ! i0) \<le> Max ((\<lambda>d. the_real (readings d ! i0)) ` set data)"
      using d by (intro Max_ge) simp_all
    have ge: "Min ((\<lambda>d. the_real (readings d ! i0)) ` set data) \<le> the_real (readings d ! i0)"
      using d by (intro Min_le) simp_all
    from le ge eq have "the_real (readings d ! i0) = Min ((\<lambda>d. the_real (readings d ! i0)) ` set data)"
      by simp
    then show ?thesis
      unfolding x normalized_entry [OF d i0 fin] eq by simp
  qed
  with i0 show ?thesis by blast
qed

lemma train_finite_or_NaN:
  assumes "train data rnd c = (Inr (), c')"
    and fin: "\<forall>d \<in> set data. list_all is_Fin (readings d)"
  shows "(\<forall>m \<in> set (models c'). list_all is_Fin (weights m) \<and> is_Fin (bias m))
         \<or> (\<forall>m \<in> set (models c'). weights m = replicate 6 NaN \<and> bias m = NaN)"
proof -
  let ?nf = "normalizeFeatures (map readings data)
               (map (\<lambda>i. Math_min (map (\<lambda>d. readings d ! i) data)) [0..<6])
               (map (\<lambda>i. Math_max (map (\<lambda>d. readings d ! i) data)) [0..<6])"
  let ?labels = "map (\<lambda>d. smogValue (smogLevel d)) data"
  have ne: "data \<noteq> []"
    using assms(1) by (auto simp: train_def extractFeatures_def)
  have fs: "map readings data \<noteq> []" using ne by simp
  have nf: "?nf \<noteq> []" and len: "length (hd ?nf) = 6"
    using normalizeFeatures_nonempty [OF fs] ne by (simp_all add: hd_map)
  have rect: "\<forall>x \<in> set ?nf. length x = length (hd ?nf)"
    unfolding len by (auto simp: normalizeFeatures_def)
  have labels: "length ?labels = length ?nf"
    by (simp add: normalizeFeatures_def)
  have origin: "\<exists>k rnd'. trainBinaryClassifier ?nf ?labels k rnd' = Inr m"
    if "m \<in> set (models c')" for m
    using train_models_from [OF ne, of rnd c] that assms(1) by simp
  from normalized_finite_or_NaN [OF ne fin]
  consider (finite) "\<forall>x \<in> set ?nf. list_all is_Fin x"
    | (nan) i0 where "i0 < 6" "\<forall>x \<in> set ?nf. x ! i0 = NaN"
    by blast
  then show ?thesis
  proof cases
    case finite
    have "list_all is_Fin (weights m) \<and> is_Fin (bias m)" if "m \<in> set (models c')" for m
    proof -
      from origin [OF that] obtain k rnd' where t: "trainBinaryClassifier ?nf ?labels k rnd' = Inr m"
        by blast
      have X: "\<forall>x \<in> set ?nf. length x = length (hd ?nf) \<and> list_all is_Fin x"
        using rect finite by blast
      from trainBinaryClassifier_finite [OF nf X labels t] show ?thesis by blast
    qed
    then show ?thesis by blast
  next
    case nan
    have "weights m = replicate 6 NaN \<and> bias m = NaN" if "m \<in> set (models c')" for m
    proof -
      from origin [OF that] obtain k rnd' where t: "trainBinaryClassifier ?nf ?labels k rnd' = Inr m"
        by blast
      have i0: "i0 < length (hd ?nf)" unfolding len by (rule nan(1))
      from t show ?thesis
        unfolding trainBinaryClassifier_NaN_at [OF nf rect labels i0 nan(2)] len by auto
    qed
    then show ?thesis by blast
  qed
qed

text \<open>
  So on a classifier that \<^verbatim>\<open>train\<close> has produced from finite readings, one weight
  of magnitude above 0 is enough for the importance scores to be those of the
  specification: the weights are then all finite.
\<close>

lemma trained_importance_normalized:
  assumes "train data rnd c0 = (Inr (), c)"
    and "numClasses c0 = 6" and "length (featureNames c0) = 6"
    and "\<forall>d \<in> set data. list_all is_Fin (readings d)"
    and "\<exists>m \<in> set (models c). \<exists>w \<in> set (weights m). Fin 0 < Math_abs w"
  shows "length (fst (getFeatureImportance c)) = 6
       \<and> mset (fst (getFeatureImportance c))
           = mset (map (\<lambda>i. \<lparr>feature = featureNames c ! i,
                               importance = Fin (spec_importance c i)\<rparr>) [0..<6])
       \<and> (\<forall>item \<in> set (fst (getFeatureImportance c)).
             Fin 0 \<le> importance item \<and> importance item \<le> Fin 1)
       \<and> Math_max (map importance (fst (getFeatureImportance c))) = Fin 1
       \<and> sorted_wrt (\<lambda>a b. importance b \<le> importance a) (fst (getFeatureImportance c))"
proof -
  have ne: "data \<noteq> []"
    using assms(1) by (auto simp: train_def extractFeatures_def)
  from train_succeeds [OF ne, of rnd c0] assms(1-3)
  have shape: "length (models c) = 6" "length (featureNames c) = 6"
    "\<forall>m \<in> set (models c). length (weights m) = 6"
    by auto
  from assms(5) obtain m w where mw: "m \<in> set (models c)" "w \<in> set (weights m)"
    "Fin 0 < Math_abs w"
    by blast
  have "\<not> (\<forall>m \<in> set (models c). weights m = replicate 6 NaN \<and> bias m = NaN)"
  proof
    assume "\<forall>m \<in> set (models c). weights m = replicate 6 NaN \<and> bias m = NaN"
    with mw(1,2) have "w = NaN" by auto
    with mw(3) show False by simp
  qed
  with train_finite_or_NaN [OF assms(1) assms(4)]
  have fin: "\<forall>m \<in> set (models c). list_all is_Fin (weights m)" by blast
  have "w \<noteq> Fin 0" using mw(3) by auto
  with mw have nz: "\<exists>m \<in> set (models c). \<exists>w \<in> set (weights m). w \<noteq> Fin 0" by blast
  show ?thesis
    by (rule getFeatureImportance_spec [OF shape(1,2) _ nz]) (use shape(3) fin in blast)
qed

section \<open>Reachable states\<close>

text \<open>
  In every reachable state there are 6 classes and 6 feature names, and either no model
  or 6 trained models of 6 weights.  So the class that \<^verbatim>\<open>predict\<close> answers is -1 or the
  index of a column of the confusion matrix.
\<close>

lemma reachable_shape:
  assumes "reachable c"
  shows "numClasses c = 6 \<and> length (featureNames c) = 6
         \<and> (models c = [] \<or> length (models c) = 6)
         \<and> (\<forall>m \<in> set (models c). trained m \<and> length (weights m) = 6)"
  using assms
proof (induction rule: reachable.induct)
  case constructed
  show ?case by (simp add: new_MultiClassLogisticRegression_def)
next
  case (trained c data rnd)
  show ?case
  proof (cases "data = []")
    case True
    then have "snd (train data rnd c) = c" by (simp add: train_def extractFeatures_def)
    with trained.IH show ?thesis by simp
  next
    case False
    from train_succeeds [OF False, of rnd c] trained.IH
    show ?thesis by auto
  qed
next
  case (called c k)
  then show ?case by simp
qed

lemma reachable_prediction:
  assumes "reachable c"
  shows "- 1 \<le> prediction (fst (predict input c)) \<and> prediction (fst (predict input c)) < 6"
  using prediction_range [of input c] reachable_shape [OF assms] by auto

end
